theory Spec2Isabelle
  imports Main "HOL-Library.AList"
begin

section \<open>The snap action resolver of the store client\<close>

text \<open>
  A shallow embedding of \<^verbatim>\<open>SnapAction\<close>, \<^verbatim>\<open>snapAction\<close>, \<^verbatim>\<open>genInstanceKey\<close> and
  \<^verbatim>\<open>findRev\<close> of package \<^verbatim>\<open>store\<close>.

  Conventions of the embedding.
  \<^item> Go strings are \<open>string\<close>; a Go \<^verbatim>\<open>map[string]T\<close> is an association list that is only
    changed through \<open>AList.update\<close> and read through \<open>map_of\<close>, so its length is the map's
    \<^verbatim>\<open>len\<close>; a slice is a list (a nil slice is the empty list).
  \<^item> \<^verbatim>\<open>[]*CurrentSnap\<close> and the decoded \<^verbatim>\<open>[]*snapActionResult\<close> are only read, so they are
    lists of values. \<^verbatim>\<open>[]*SnapAction\<close> is written through (\<^verbatim>\<open>a.Channel = ""\<close>), so the
    actions live in a store, a function from addresses to \<open>SnapAction\<close> values, and the
    slice is a list of addresses; two entries of the slice may hold the same address.
    Every pointer of the three slices is taken to be non-nil.
  \<^item> Errors are values of \<open>err\<close>, one constructor for each \<^verbatim>\<open>fmt.Errorf\<close> of the source, the
    exported \<^verbatim>\<open>ErrNoUpdateAvailable\<close>, the two authorization sentinels, and \<open>ErrExternal\<close>
    for what the collaborators produce. A Go \<^verbatim>\<open>error\<close> result is \<open>error option\<close>, where
    \<open>error\<close> tells a \<^verbatim>\<open>*SnapActionError\<close> from every other error.
  \<^item> What the source takes from outside the given files (hashing, the epoch's zero test,
    the decoder of snap infos, the translation of store error codes, the transport, the
    refresh of authorizations, constants of the store) is a field of the record
    \<open>externals\<close>, a parameter of every function. The transport and the refresh of
    authorizations act on an outside state of type \<open>'w\<close>.
  \<^item> The context and the user state are only handed on to the collaborators, and the
    logger only prints; none of the three is modelled. The two counters of the loop over
    the actions are natural numbers.
  \<^item> \<^verbatim>\<open>json.Marshal\<close> of the request can fail in the marshallers of its leaves, those of
    \<^verbatim>\<open>time.Time\<close> and of \<^verbatim>\<open>snap.Epoch\<close>; both are outside the sources, so the fields
    \<open>marshalTime\<close> and \<open>marshalEpoch\<close> of \<open>externals\<close> give, for a time and for an epoch,
    the error \<^verbatim>\<open>json.Marshal\<close> returns when the marshaller fails on it, and \<open>None\<close> when
    it succeeds. The first error met in the order of the fields is the error of
    \<^verbatim>\<open>json.Marshal\<close>, on which \<^verbatim>\<open>snapAction\<close> returns.
\<close>

subsection \<open>Helpers of package snap\<close>

text \<open>
  Modelled from the spec: \<^verbatim>\<open>snap.Revision\<close> is missing from the sources. It wraps the
  integer \<^verbatim>\<open>N\<close>, \<^verbatim>\<open>snap.R\<close> builds one, and a revision is unset when its number is zero
  (the request field \<^verbatim>\<open>revision\<close> is "omitted if zero", a current snap's revision "must
  be set").
\<close>

datatype Revision = R (N: int)

definition Unset :: "Revision \<Rightarrow> bool" where
  "Unset r = (N r = 0)"

text \<open>
  Modelled from the spec: \<^verbatim>\<open>snap.SplitInstanceName\<close> and \<^verbatim>\<open>snap.InstanceSnap\<close> are
  missing from the sources. "Split the instance name at \<^verbatim>\<open>_\<close> into (snapName,
  instanceKey)": the snap name is what precedes the first underscore, the instance key
  what follows it, empty when there is no underscore.
\<close>

definition SplitInstanceName :: "string \<Rightarrow> string \<times> string" where
  "SplitInstanceName instanceName =
     (takeWhile (\<lambda>c. c \<noteq> CHR ''_'') instanceName,
      drop 1 (dropWhile (\<lambda>c. c \<noteq> CHR ''_'') instanceName))"

definition InstanceSnap :: "string \<Rightarrow> string" where
  "InstanceSnap instanceName = fst (SplitInstanceName instanceName)"

text \<open>The decimal rendering of \<^verbatim>\<open>%d\<close> for the two counters, which are never negative.\<close>

fun decimal :: "nat \<Rightarrow> string" where
  "decimal n =
     (if n < 10 then [''0123456789'' ! n]
      else decimal (n div 10) @ [''0123456789'' ! (n mod 10)])"

declare decimal.simps [simp del]

subsection \<open>Data\<close>

record RefreshOptions =
  RefreshManaged :: bool
  IsAutoRefresh :: bool
  PrivacyKey :: string

text \<open>\<^verbatim>\<open>time.Time\<close> is the number of nanoseconds since the zero instant.\<close>

record 'e CurrentSnap =
  cs_InstanceName :: string
  cs_SnapID :: string
  cs_Revision :: Revision
  cs_TrackingChannel :: string
  cs_RefreshedDate :: int
  cs_IgnoreValidation :: bool
  cs_Block :: "Revision list"
  cs_Epoch :: 'e
  cs_CohortKey :: string

record 'e currentSnapV2JSON =
  cj_SnapID :: string
  cj_InstanceKey :: string
  cj_Revision :: int
  cj_TrackingChannel :: string
  cj_Epoch :: 'e
  cj_RefreshedDate :: "int option"
  cj_IgnoreValidation :: bool
  cj_CohortKey :: string

definition SnapActionIgnoreValidation :: int where
  "SnapActionIgnoreValidation = 1"

definition SnapActionEnforceValidation :: int where
  "SnapActionEnforceValidation = 2"

record 'e SnapAction =
  sa_Action :: string
  sa_InstanceName :: string
  sa_SnapID :: string
  sa_Channel :: string
  sa_Revision :: Revision
  sa_CohortKey :: string
  sa_Flags :: int
  sa_Epoch :: 'e

definition isValidAction :: "string \<Rightarrow> bool" where
  "isValidAction action =
     (action = ''download'' \<or> action = ''install'' \<or> action = ''refresh'')"

text \<open>
  \<open>aj_Epoch\<close> is the \<^verbatim>\<open>interface{}\<close>: \<open>None\<close> the nil interface, \<open>Some None\<close> the nil
  \<^verbatim>\<open>*snap.Epoch\<close>, \<open>Some (Some e)\<close> the pointer to the action's epoch.
\<close>

record 'e snapActionJSON =
  aj_Action :: string
  aj_InstanceKey :: string
  aj_Name :: string
  aj_SnapID :: string
  aj_Channel :: string
  aj_Revision :: int
  aj_CohortKey :: string
  aj_IgnoreValidation :: "bool option"
  aj_Epoch :: "'e option option"

record snapRelease =
  Architecture :: string
  rel_Channel :: string

text \<open>
  Modelled from the spec: \<^verbatim>\<open>storeSnap\<close>, the snap as the server describes it, is missing
  from the sources; \<open>snapAction\<close> reads its revision only, and the rest is a payload for
  the decoder of snap infos.
\<close>

record 's storeSnap =
  ss_Revision :: int
  ss_rest :: 's

record 's snapActionResult =
  res_Result :: string
  res_InstanceKey :: string
  res_SnapID :: string
  res_Name :: string
  res_Snap :: "'s storeSnap"
  res_EffectiveChannel :: string
  res_RedirectChannel :: string
  res_ErrorCode :: string
  res_ErrorMessage :: string
  res_ErrorReleases :: "snapRelease list"

record 's snapActionResultList =
  Results :: "'s snapActionResult list"
  ErrorList :: "(string \<times> string) list"

text \<open>
  Modelled from the spec: \<^verbatim>\<open>snap.Info\<close>, the decoded snap info, is missing from the
  sources; \<open>snapAction\<close> sets its channel (the effective channel) and its instance key,
  and the rest is what the decoder made of the payload.
\<close>

record 'i Info =
  info_Channel :: string
  info_InstanceKey :: string
  info_rest :: 'i

record 'i SnapActionResult =
  sar_Info :: "'i Info"
  sar_RedirectChannel :: string

subsection \<open>Errors\<close>

text \<open>
  Modelled from the spec: the error values of the package are missing from the sources.
  The first eight constructors are the \<^verbatim>\<open>fmt.Errorf\<close> values of the source, with the
  arguments of their formats (the internal errors of the request, and the three errors of
  an "unexpected invalid install/refresh API result"); then \<^verbatim>\<open>ErrNoUpdateAvailable\<close> and
  the two sentinels "observable by" the retry loop; \<open>ErrExternal\<close> is any other error a
  collaborator returns. \<^verbatim>\<open>SnapActionError\<close> has "four buckets" and the "\<^verbatim>\<open>NoResults\<close>
  boolean"; a nil map is \<open>None\<close>.
\<close>

datatype err =
    ErrInvalidCurrentSnap
  | ErrSaltNotProvided
  | ErrUnsupportedAction string
  | ErrActionWithoutInstanceName
  | ErrUnsupportedDownload string
  | ErrInvalidResult err
  | ErrUnexpectedRefresh
  | ErrUnexpectedInstanceKey string
  | ErrNoUpdateAvailable
  | errUserAuthorizationNeedsRefresh
  | errDeviceAuthorizationNeedsRefresh
  | ErrExternal string

record SnapActionError =
  NoResults :: bool
  Refresh :: "(string \<times> err) list option"
  Install :: "(string \<times> err) list option"
  Download :: "(string \<times> err) list option"
  Other :: "err list"

datatype error = PlainError err | ActionError SnapActionError

text \<open>
  The message handed to the translation of store errors: the store's message as it is,
  or \<^verbatim>\<open>fmt.Sprintf("snap %q: %s", name, message)\<close>, kept as its two arguments.
\<close>

datatype message = Verbatim string | ForSnap string string

text \<open>
  Modelled from the spec: \<^verbatim>\<open>authRefreshNeed\<close> and its method \<^verbatim>\<open>needed\<close> are missing from
  the sources. The need names the "indicated axis (user token, device token, or both)",
  and a refresh is needed "if either is present".
\<close>

record authRefreshNeed =
  need_device :: bool
  need_user :: bool

definition needed :: "authRefreshNeed \<Rightarrow> bool" where
  "needed rn = (need_device rn \<or> need_user rn)"

subsection \<open>The request\<close>

datatype 'e json =
    JNull
  | JBool bool
  | JInt int
  | JString string
  | JTime int
  | JEpoch 'e
  | JArray "'e json list"
  | JObject "(string \<times> 'e json) list"

text \<open>
  \<^verbatim>\<open>json.Marshal\<close> on the three request structs, from their field tags: a field tagged
  \<^verbatim>\<open>omitempty\<close> is left out when it is the empty string, zero, false, a nil pointer or a
  nil interface. The marshallers of an epoch and of a time are outside the sources; their
  outputs are the leaves \<open>JEpoch\<close> and \<open>JTime\<close>, and their errors are kept apart, in
  \<open>jsonMarshal\<close> below.
\<close>

definition omitempty :: "string \<Rightarrow> string \<Rightarrow> (string \<times> 'e json) list" where
  "omitempty k v = (if v = [] then [] else [(k, JString v)])"

definition marshalCurrentSnap :: "'e currentSnapV2JSON \<Rightarrow> 'e json" where
  "marshalCurrentSnap c = JObject
     ([(''snap-id'', JString (cj_SnapID c)),
       (''instance-key'', JString (cj_InstanceKey c)),
       (''revision'', JInt (cj_Revision c)),
       (''tracking-channel'', JString (cj_TrackingChannel c)),
       (''epoch'', JEpoch (cj_Epoch c))]
      @ (case cj_RefreshedDate c of None \<Rightarrow> [] | Some t \<Rightarrow> [(''refreshed-date'', JTime t)])
      @ (if cj_IgnoreValidation c then [(''ignore-validation'', JBool True)] else [])
      @ omitempty ''cohort-key'' (cj_CohortKey c))"

definition marshalAction :: "'e snapActionJSON \<Rightarrow> 'e json" where
  "marshalAction a = JObject
     ([(''action'', JString (aj_Action a)),
       (''instance-key'', JString (aj_InstanceKey a))]
      @ omitempty ''name'' (aj_Name a)
      @ omitempty ''snap-id'' (aj_SnapID a)
      @ omitempty ''channel'' (aj_Channel a)
      @ (if aj_Revision a = 0 then [] else [(''revision'', JInt (aj_Revision a))])
      @ omitempty ''cohort-key'' (aj_CohortKey a)
      @ (case aj_IgnoreValidation a of None \<Rightarrow> []
         | Some b \<Rightarrow> [(''ignore-validation'', JBool b)])
      @ (case aj_Epoch a of None \<Rightarrow> []
         | Some None \<Rightarrow> [(''epoch'', JNull)]
         | Some (Some e) \<Rightarrow> [(''epoch'', JEpoch e)]))"

record 'e snapActionRequest =
  req_Context :: "'e currentSnapV2JSON list"
  req_Actions :: "'e snapActionJSON list"
  req_Fields :: "string list"

definition marshalRequest :: "'e snapActionRequest \<Rightarrow> 'e json" where
  "marshalRequest r = JObject
     [(''context'', JArray (map marshalCurrentSnap (req_Context r))),
      (''actions'', JArray (map marshalAction (req_Actions r))),
      (''fields'', JArray (map JString (req_Fields r)))]"

text \<open>Reading a member of a marshalled object; \<open>None\<close> when the key is absent.\<close>

fun member :: "'e json \<Rightarrow> string \<Rightarrow> 'e json option" where
  "member (JObject kvs) k = map_of kvs k"
| "member _ k = None"

text \<open>
  Modelled from the spec: \<^verbatim>\<open>requestOptions\<close>, its method \<^verbatim>\<open>addHeader\<close> and the response
  of the transport are missing from the sources. The options have the fields the source
  sets, and the extra headers are a map from header names to values; of the response the
  source reads the status code.
\<close>

record 'e requestOptions =
  Method :: string
  URL :: string
  Accept :: string
  ContentType :: string
  Data :: "'e json"
  APILevel :: string
  ExtraHeaders :: "(string \<times> string) list"

definition addHeader :: "string \<Rightarrow> string \<Rightarrow> 'e requestOptions \<Rightarrow> 'e requestOptions" where
  "addHeader k v r = r\<lparr>ExtraHeaders := AList.update k v (ExtraHeaders r)\<rparr>"

record response =
  StatusCode :: int
  Header :: "(string \<times> string) list"

subsection \<open>Collaborators and the observed world\<close>

record ('w, 'e, 's, 'i) externals =
  sha256 :: "string \<Rightarrow> string"
  base64RawURL :: "string \<Rightarrow> string"
  epochIsZero :: "'e \<Rightarrow> bool"
  infoFromStoreSnap :: "'s storeSnap \<Rightarrow> err + 'i Info"
  translateSnapActionError ::
    "string \<Rightarrow> string \<Rightarrow> string \<Rightarrow> message \<Rightarrow> snapRelease list \<Rightarrow> err"
  retryRequestDecodeJSON ::
    "'w \<Rightarrow> 'e requestOptions \<Rightarrow> 'w \<times> (err + response \<times> 's snapActionResultList)"
  respToError :: "response \<Rightarrow> string \<Rightarrow> err"
  extractSuggestedCurrency :: "'w \<Rightarrow> response \<Rightarrow> 'w"
  refreshAuth :: "'w \<Rightarrow> authRefreshNeed \<Rightarrow> 'w \<times> err option"
  marshalTime :: "int \<Rightarrow> err option"
  marshalEpoch :: "'e \<Rightarrow> err option"
  useDeltas :: bool
  deltaFormat :: string
  endpointURL :: string
  jsonContentType :: string
  apiV2Endps :: string
  snapActionFields :: "string list"

text \<open>
  The world: the outside state the collaborators act on, and three observations kept
  beside it, which no function of the model reads: the requests handed to the transport,
  the needs handed to the refresh of authorizations, both oldest first, and the number
  of calls of \<^verbatim>\<open>snapAction\<close>.
\<close>

record ('w, 'e) world =
  outside :: 'w
  sent :: "'e requestOptions list"
  authRefreshed :: "authRefreshNeed list"
  innerCalls :: nat

type_synonym 'e store = "nat \<Rightarrow> 'e SnapAction"

subsection \<open>genInstanceKey\<close>

definition genInstanceKey ::
  "('w, 'e, 's, 'i) externals \<Rightarrow> 'e CurrentSnap \<Rightarrow> string \<Rightarrow> err + string" where
  "genInstanceKey x curSnap salt =
     (let snapInstanceKey = snd (SplitInstanceName (cs_InstanceName curSnap)) in
      if snapInstanceKey = [] then Inr (cs_SnapID curSnap)
      else if salt = [] then Inl ErrSaltNotProvided
      else Inr (cs_SnapID curSnap @ '':'' @
                base64RawURL x (sha256 x (cs_SnapID curSnap @ snapInstanceKey @ salt))))"

fun findRev :: "Revision \<Rightarrow> Revision list \<Rightarrow> bool" where
  "findRev needle [] = False"
| "findRev needle (r # haystack) = (if needle = r then True else findRev needle haystack)"

subsection \<open>snapAction: the context of current snaps\<close>

record 'e contextTables =
  curSnaps :: "(string \<times> 'e CurrentSnap) list"
  curSnapJSONs :: "'e currentSnapV2JSON list"
  instanceNameToKey :: "(string \<times> string) list"

definition noContext :: "'e contextTables" where
  "noContext = \<lparr>curSnaps = [], curSnapJSONs = [], instanceNameToKey = []\<rparr>"

text \<open>One turn of the loop over \<^verbatim>\<open>currentSnaps\<close>.\<close>

definition contextStep ::
  "('w, 'e, 's, 'i) externals \<Rightarrow> string \<Rightarrow> 'e contextTables \<Rightarrow> 'e CurrentSnap
   \<Rightarrow> err + 'e contextTables" where
  "contextStep x requestSalt t curSnap =
     (if cs_SnapID curSnap = [] \<or> cs_InstanceName curSnap = [] \<or> Unset (cs_Revision curSnap)
      then Inl ErrInvalidCurrentSnap
      else case genInstanceKey x curSnap requestSalt of
        Inl e \<Rightarrow> Inl e
      | Inr instanceKey \<Rightarrow>
          let channel = (if cs_TrackingChannel curSnap = [] then ''stable''
                         else cs_TrackingChannel curSnap);
              refreshedDate = (if cs_RefreshedDate curSnap \<noteq> 0
                               then Some (cs_RefreshedDate curSnap) else None)
          in Inr \<lparr>curSnaps = AList.update instanceKey curSnap (curSnaps t),
                  curSnapJSONs = curSnapJSONs t @
                    [\<lparr>cj_SnapID = cs_SnapID curSnap,
                      cj_InstanceKey = instanceKey,
                      cj_Revision = N (cs_Revision curSnap),
                      cj_TrackingChannel = channel,
                      cj_Epoch = cs_Epoch curSnap,
                      cj_RefreshedDate = refreshedDate,
                      cj_IgnoreValidation = cs_IgnoreValidation curSnap,
                      cj_CohortKey = cs_CohortKey curSnap\<rparr>],
                  instanceNameToKey =
                    AList.update (cs_InstanceName curSnap) instanceKey (instanceNameToKey t)\<rparr>)"

fun contextLoop ::
  "('w, 'e, 's, 'i) externals \<Rightarrow> string \<Rightarrow> 'e contextTables \<Rightarrow> 'e CurrentSnap list
   \<Rightarrow> err + 'e contextTables" where
  "contextLoop x requestSalt t [] = Inr t"
| "contextLoop x requestSalt t (curSnap # rest) =
     (case contextStep x requestSalt t curSnap of
        Inl e \<Rightarrow> Inl e
      | Inr t' \<Rightarrow> contextLoop x requestSalt t' rest)"

subsection \<open>snapAction: the actions\<close>

text \<open>The tables hold addresses of actions, as the source's maps hold pointers.\<close>

record 'e actionTables =
  downloadNum :: nat
  installNum :: nat
  installs :: "(string \<times> nat) list"
  downloads :: "(string \<times> nat) list"
  refreshes :: "(string \<times> nat) list"
  actionJSONs :: "'e snapActionJSON list"

definition noActions :: "'e actionTables" where
  "noActions = \<lparr>downloadNum = 0, installNum = 0, installs = [], downloads = [],
                 refreshes = [], actionJSONs = []\<rparr>"

text \<open>The pointer \<^verbatim>\<open>ignoreValidation\<close>: \<open>None\<close> is nil.\<close>

definition ignoreValidationOf :: "int \<Rightarrow> bool option" where
  "ignoreValidationOf flags =
     (if and flags SnapActionIgnoreValidation \<noteq> 0 then Some True
      else if and flags SnapActionEnforceValidation \<noteq> 0 then Some False
      else None)"

text \<open>The struct literal \<^verbatim>\<open>aJSON\<close>, built from the action as it is at that moment.\<close>

definition newActionJSON :: "'e SnapAction \<Rightarrow> 'e snapActionJSON" where
  "newActionJSON a =
     \<lparr>aj_Action = sa_Action a,
      aj_InstanceKey = [],
      aj_Name = [],
      aj_SnapID = sa_SnapID a,
      aj_Channel = sa_Channel a,
      aj_Revision = N (sa_Revision a),
      aj_CohortKey = sa_CohortKey a,
      aj_IgnoreValidation = ignoreValidationOf (sa_Flags a),
      aj_Epoch = None\<rparr>"

text \<open>\<^verbatim>\<open>if !a.Revision.Unset() { a.Channel = "" }\<close>, a write through the pointer.\<close>

definition clearChannel :: "'e store \<Rightarrow> nat \<Rightarrow> 'e store" where
  "clearChannel h p =
     (if \<not> Unset (sa_Revision (h p)) then h(p := (h p)\<lparr>sa_Channel := []\<rparr>) else h)"

text \<open>The choice of the instance key and of the table the action goes to.\<close>

definition assignInstanceKey ::
  "(string \<times> string) list \<Rightarrow> 'e SnapAction \<Rightarrow> nat \<Rightarrow> 'e actionTables
   \<Rightarrow> err + string \<times> 'e actionTables" where
  "assignInstanceKey nameToKey a p t =
     (if sa_Action a = ''install'' then
        let n = installNum t + 1; instanceKey = ''install-'' @ decimal n
        in Inr (instanceKey, t\<lparr>installNum := n, installs := AList.update instanceKey p (installs t)\<rparr>)
      else if sa_Action a = ''download'' then
        let n = downloadNum t + 1; instanceKey = ''download-'' @ decimal n
        in if snd (SplitInstanceName (sa_InstanceName a)) \<noteq> []
           then Inl (ErrUnsupportedDownload (sa_InstanceName a))
           else Inr (instanceKey,
                     t\<lparr>downloadNum := n, downloads := AList.update instanceKey p (downloads t)\<rparr>)
      else
        let instanceKey = (case map_of nameToKey (sa_InstanceName a) of
                             None \<Rightarrow> [] | Some k \<Rightarrow> k)
        in Inr (instanceKey, t\<lparr>refreshes := AList.update instanceKey p (refreshes t)\<rparr>))"

definition nameAndEpoch ::
  "('w, 'e, 's, 'i) externals \<Rightarrow> 'e SnapAction \<Rightarrow> 'e snapActionJSON \<Rightarrow> 'e snapActionJSON" where
  "nameAndEpoch x a aJSON =
     (if sa_Action a \<noteq> ''refresh'' then
        aJSON\<lparr>aj_Name := InstanceSnap (sa_InstanceName a),
              aj_Epoch := (if epochIsZero x (sa_Epoch a) then Some None
                           else Some (Some (sa_Epoch a)))\<rparr>
      else aJSON)"

text \<open>
  One turn of the loop over \<^verbatim>\<open>actions\<close>. The store is returned beside the outcome: the
  write to the channel stays when the turn ends in an error.
\<close>

definition actionStep ::
  "('w, 'e, 's, 'i) externals \<Rightarrow> (string \<times> string) list \<Rightarrow> 'e store \<Rightarrow> 'e actionTables
   \<Rightarrow> nat \<Rightarrow> 'e store \<times> (err + 'e actionTables)" where
  "actionStep x nameToKey h t p =
     (if \<not> isValidAction (sa_Action (h p)) then (h, Inl (ErrUnsupportedAction (sa_Action (h p))))
      else if sa_InstanceName (h p) = [] then (h, Inl ErrActionWithoutInstanceName)
      else
        let aJSON = newActionJSON (h p);
            h' = clearChannel h p
        in case assignInstanceKey nameToKey (h' p) p t of
             Inl e \<Rightarrow> (h', Inl e)
           | Inr (instanceKey, t') \<Rightarrow>
               (h', Inr (t'\<lparr>actionJSONs := actionJSONs t' @
                              [(nameAndEpoch x (h' p) aJSON)\<lparr>aj_InstanceKey := instanceKey\<rparr>]\<rparr>)))"

fun actionLoop ::
  "('w, 'e, 's, 'i) externals \<Rightarrow> (string \<times> string) list \<Rightarrow> 'e store \<Rightarrow> 'e actionTables
   \<Rightarrow> nat list \<Rightarrow> 'e store \<times> (err + 'e actionTables)" where
  "actionLoop x nameToKey h t [] = (h, Inr t)"
| "actionLoop x nameToKey h t (p # rest) =
     (case actionStep x nameToKey h t p of
        (h', Inl e) \<Rightarrow> (h', Inl e)
      | (h', Inr t') \<Rightarrow> actionLoop x nameToKey h' t' rest)"

subsection \<open>snapAction: the request\<close>

text \<open>
  The error of \<^verbatim>\<open>json.Marshal\<close> on the request, \<open>None\<close> when it succeeds. The encoder
  goes through the context entries, then through the action entries, each in the order
  of its fields, and stops at the first marshaller that fails. An entry of the context
  holds an epoch and, behind a pointer, the refreshed date; an entry of the actions holds
  an epoch behind an interface, whose marshaller runs only on a non-nil pointer.
\<close>

definition marshalCurrentSnapError ::
  "('w, 'e, 's, 'i) externals \<Rightarrow> 'e currentSnapV2JSON \<Rightarrow> err option" where
  "marshalCurrentSnapError x c =
     (case marshalEpoch x (cj_Epoch c) of
        Some e \<Rightarrow> Some e
      | None \<Rightarrow> (case cj_RefreshedDate c of None \<Rightarrow> None | Some d \<Rightarrow> marshalTime x d))"

definition marshalActionError ::
  "('w, 'e, 's, 'i) externals \<Rightarrow> 'e snapActionJSON \<Rightarrow> err option" where
  "marshalActionError x a =
     (case aj_Epoch a of Some (Some e) \<Rightarrow> marshalEpoch x e | _ \<Rightarrow> None)"

fun firstError :: "err option list \<Rightarrow> err option" where
  "firstError [] = None"
| "firstError (None # rest) = firstError rest"
| "firstError (Some e # rest) = Some e"

definition jsonMarshal ::
  "('w, 'e, 's, 'i) externals \<Rightarrow> 'e snapActionRequest \<Rightarrow> err + 'e json" where
  "jsonMarshal x r =
     (case firstError (map (marshalCurrentSnapError x) (req_Context r)
                       @ map (marshalActionError x) (req_Actions r)) of
        Some e \<Rightarrow> Inl e
      | None \<Rightarrow> Inr (marshalRequest r))"

text \<open>
  From \<^verbatim>\<open>json.Marshal\<close> to the last header of the request options; \<open>Inl\<close> is the return
  on the error of \<^verbatim>\<open>json.Marshal\<close>.
\<close>

definition buildRequest ::
  "('w, 'e, 's, 'i) externals \<Rightarrow> RefreshOptions \<Rightarrow> 'e contextTables \<Rightarrow> 'e actionTables
   \<Rightarrow> err + 'e requestOptions" where
  "buildRequest x opts c t =
     (case jsonMarshal x
             \<lparr>req_Context = curSnapJSONs c, req_Actions = actionJSONs t,
              req_Fields = snapActionFields x\<rparr> of
        Inl e \<Rightarrow> Inl e
      | Inr jsonData \<Rightarrow>
          let r0 = \<lparr>Method = ''POST'', URL = endpointURL x, Accept = jsonContentType x,
                    ContentType = jsonContentType x, Data = jsonData, APILevel = apiV2Endps x,
                    ExtraHeaders = []\<rparr>;
              r1 = (if IsAutoRefresh opts then addHeader ''Snap-Refresh-Reason'' ''scheduled'' r0
                    else r0);
              r2 = (if useDeltas x then addHeader ''Snap-Accept-Delta-Format'' (deltaFormat x) r1
                    else r1)
          in Inr (if RefreshManaged opts then addHeader ''Snap-Refresh-Managed'' ''true'' r2
                  else r2))"

subsection \<open>snapAction: the results\<close>

record 'i resultBuckets =
  refreshErrors :: "(string \<times> err) list"
  installErrors :: "(string \<times> err) list"
  downloadErrors :: "(string \<times> err) list"
  otherErrors :: "err list"
  sars :: "'i SnapActionResult list"

definition noBuckets :: "'i resultBuckets" where
  "noBuckets = \<lparr>refreshErrors = [], installErrors = [], downloadErrors = [],
                 otherErrors = [], sars = []\<rparr>"

text \<open>The fall-through of the branch for \<^verbatim>\<open>res.Result == "error"\<close>.\<close>

definition appendOther ::
  "('w, 'e, 's, 'i) externals \<Rightarrow> 'i resultBuckets \<Rightarrow> 's snapActionResult \<Rightarrow> 'i resultBuckets" where
  "appendOther x b res =
     b\<lparr>otherErrors := otherErrors b @
         [translateSnapActionError x [] [] (res_ErrorCode res)
            (Verbatim (res_ErrorMessage res)) []]\<rparr>"

text \<open>
  The branch for \<^verbatim>\<open>res.Result == "error"\<close>. The actions are read from the store as
  the loop over the actions left it.
\<close>

definition errorResult ::
  "('w, 'e, 's, 'i) externals \<Rightarrow> 'e store \<Rightarrow> 'e contextTables \<Rightarrow> 'e actionTables
   \<Rightarrow> 'i resultBuckets \<Rightarrow> 's snapActionResult \<Rightarrow> 'i resultBuckets" where
  "errorResult x h c t b res =
     (case map_of (installs t) (res_InstanceKey res) of
        Some a \<Rightarrow>
          if res_Name res \<noteq> [] then
            b\<lparr>installErrors := AList.update (sa_InstanceName (h a))
                (translateSnapActionError x ''install'' (sa_Channel (h a)) (res_ErrorCode res)
                   (Verbatim (res_ErrorMessage res)) (res_ErrorReleases res))
                (installErrors b)\<rparr>
          else appendOther x b res
      | None \<Rightarrow>
          (case map_of (downloads t) (res_InstanceKey res) of
             Some a \<Rightarrow>
               if res_Name res \<noteq> [] then
                 b\<lparr>downloadErrors := AList.update (res_Name res)
                     (translateSnapActionError x ''download'' (sa_Channel (h a))
                        (res_ErrorCode res) (Verbatim (res_ErrorMessage res))
                        (res_ErrorReleases res))
                     (downloadErrors b)\<rparr>
               else appendOther x b res
           | None \<Rightarrow>
               (case map_of (curSnaps c) (res_InstanceKey res) of
                  Some cur \<Rightarrow>
                    (case map_of (refreshes t) (res_InstanceKey res) of
                       None \<Rightarrow>
                         b\<lparr>otherErrors := otherErrors b @
                             [translateSnapActionError x [] [] (res_ErrorCode res)
                                (ForSnap (cs_InstanceName cur) (res_ErrorMessage res)) []]\<rparr>
                     | Some a \<Rightarrow>
                         let channel =
                               (if sa_Channel (h a) = [] \<and> Unset (sa_Revision (h a))
                                then cs_TrackingChannel cur else sa_Channel (h a))
                         in b\<lparr>refreshErrors := AList.update (cs_InstanceName cur)
                                (translateSnapActionError x ''refresh'' channel
                                   (res_ErrorCode res) (Verbatim (res_ErrorMessage res))
                                   (res_ErrorReleases res))
                                (refreshErrors b)\<rparr>)
                | None \<Rightarrow> appendOther x b res)))"

text \<open>The end of a turn for a result that is no error: the check of the name, the append.\<close>

definition appendResult ::
  "'i resultBuckets \<Rightarrow> 's snapActionResult \<Rightarrow> 'i Info \<Rightarrow> string \<Rightarrow> err + 'i resultBuckets" where
  "appendResult b res snapInfo instanceName =
     (if res_Result res \<noteq> ''download'' \<and> instanceName = []
      then Inl (ErrUnexpectedInstanceKey (res_InstanceKey res))
      else Inr (b\<lparr>sars := sars b @
                  [\<lparr>sar_Info = snapInfo\<lparr>info_InstanceKey := snd (SplitInstanceName instanceName)\<rparr>,
                    sar_RedirectChannel = res_RedirectChannel res\<rparr>]\<rparr>))"

text \<open>The turn for a result that is no error; the snap is decoded first.\<close>

definition successResult ::
  "('w, 'e, 's, 'i) externals \<Rightarrow> 'e store \<Rightarrow> 'e contextTables \<Rightarrow> 'e actionTables
   \<Rightarrow> 'i resultBuckets \<Rightarrow> 's snapActionResult \<Rightarrow> err + 'i resultBuckets" where
  "successResult x h c t b res =
     (case infoFromStoreSnap x (res_Snap res) of
        Inl e \<Rightarrow> Inl (ErrInvalidResult e)
      | Inr decoded \<Rightarrow>
          let snapInfo = decoded\<lparr>info_Channel := res_EffectiveChannel res\<rparr> in
          if res_Result res = ''refresh'' then
            (case map_of (curSnaps c) (res_InstanceKey res) of
               None \<Rightarrow> Inl ErrUnexpectedRefresh
             | Some cur \<Rightarrow>
                 let rrev = R (ss_Revision (res_Snap res)) in
                 if rrev = cs_Revision cur \<or> findRev rrev (cs_Block cur)
                 then Inr (b\<lparr>refreshErrors :=
                             AList.update (cs_InstanceName cur) ErrNoUpdateAvailable
                               (refreshErrors b)\<rparr>)
                 else appendResult b res snapInfo (cs_InstanceName cur))
          else if res_Result res = ''install'' then
            appendResult b res snapInfo
              (case map_of (installs t) (res_InstanceKey res) of
                 None \<Rightarrow> [] | Some a \<Rightarrow> sa_InstanceName (h a))
          else appendResult b res snapInfo [])"

definition resultStep ::
  "('w, 'e, 's, 'i) externals \<Rightarrow> 'e store \<Rightarrow> 'e contextTables \<Rightarrow> 'e actionTables
   \<Rightarrow> 'i resultBuckets \<Rightarrow> 's snapActionResult \<Rightarrow> err + 'i resultBuckets" where
  "resultStep x h c t b res =
     (if res_Result res = ''error'' then Inr (errorResult x h c t b res)
      else successResult x h c t b res)"

fun resultLoop ::
  "('w, 'e, 's, 'i) externals \<Rightarrow> 'e store \<Rightarrow> 'e contextTables \<Rightarrow> 'e actionTables
   \<Rightarrow> 'i resultBuckets \<Rightarrow> 's snapActionResult list \<Rightarrow> err + 'i resultBuckets" where
  "resultLoop x h c t b [] = Inr b"
| "resultLoop x h c t b (res # rest) =
     (case resultStep x h c t b res of
        Inl e \<Rightarrow> Inl e
      | Inr b' \<Rightarrow> resultLoop x h c t b' rest)"

text \<open>The loop over the error list.\<close>

definition errorListErrors ::
  "('w, 'e, 's, 'i) externals \<Rightarrow> (string \<times> string) list \<Rightarrow> err list" where
  "errorListErrors x errs =
     map (\<lambda>errObj. translateSnapActionError x [] [] (fst errObj) (Verbatim (snd errObj)) []) errs"

text \<open>The normalization of an empty map to nil.\<close>

definition normalize :: "(string \<times> err) list \<Rightarrow> (string \<times> err) list option" where
  "normalize m = (if length m = 0 then None else Some m)"

text \<open>The end of \<^verbatim>\<open>snapAction\<close>, from the loop over the error list on.\<close>

definition assemble ::
  "('w, 'e, 's, 'i) externals \<Rightarrow> 's snapActionResultList \<Rightarrow> 'i resultBuckets
   \<Rightarrow> 'i SnapActionResult list \<times> error option" where
  "assemble x results b =
     (let other = otherErrors b @ errorListErrors x (ErrorList results) in
      if length (refreshErrors b) + length (installErrors b) + length (downloadErrors b) \<noteq> 0
         \<or> length (Results results) = 0 \<or> length other \<noteq> 0
      then (sars b,
            Some (ActionError
              \<lparr>NoResults = (length (Results results) = 0),
               Refresh = normalize (refreshErrors b),
               Install = normalize (installErrors b),
               Download = normalize (downloadErrors b),
               Other = other\<rparr>))
      else (sars b, None))"

subsection \<open>snapAction and SnapAction\<close>

type_synonym ('w, 'e, 'i) outcome =
  "('w, 'e) world \<times> 'e store \<times> 'i SnapActionResult list \<times> error option"

definition failWith :: "('w, 'e) world \<Rightarrow> 'e store \<Rightarrow> err \<Rightarrow> ('w, 'e, 'i) outcome" where
  "failWith w h e = (w, h, [], Some (PlainError e))"

text \<open>The call of the transport, which adds the request to the observations.\<close>

definition transport ::
  "('w, 'e, 's, 'i) externals \<Rightarrow> ('w, 'e) world \<Rightarrow> 'e requestOptions
   \<Rightarrow> ('w, 'e) world \<times> (err + response \<times> 's snapActionResultList)" where
  "transport x w reqOptions =
     (let r = retryRequestDecodeJSON x (outside w) reqOptions
      in (w\<lparr>outside := fst r, sent := sent w @ [reqOptions]\<rparr>, snd r))"

definition snapAction ::
  "('w, 'e, 's, 'i) externals \<Rightarrow> ('w, 'e) world \<Rightarrow> 'e store \<Rightarrow> 'e CurrentSnap list \<Rightarrow> nat list
   \<Rightarrow> RefreshOptions \<Rightarrow> ('w, 'e, 'i) outcome" where
  "snapAction x w h currentSnaps actions opts =
     (case contextLoop x (PrivacyKey opts) noContext currentSnaps of
        Inl e \<Rightarrow> failWith w h e
      | Inr c \<Rightarrow>
          (case actionLoop x (instanceNameToKey c) h noActions actions of
             (h', Inl e) \<Rightarrow> failWith w h' e
           | (h', Inr t) \<Rightarrow>
               (case buildRequest x opts c t of
                  Inl e \<Rightarrow> failWith w h' e
                | Inr reqOptions \<Rightarrow>
                    (case transport x w reqOptions of
                       (w1, Inl e) \<Rightarrow> failWith w1 h' e
                     | (w1, Inr (resp, results)) \<Rightarrow>
                         if StatusCode resp \<noteq> 200
                         then failWith w1 h' (respToError x resp ''query the store for updates'')
                         else
                           let w2 = w1\<lparr>outside :=
                                       extractSuggestedCurrency x (outside w1) resp\<rparr> in
                           (case resultLoop x h' c t noBuckets (Results results) of
                              Inl e \<Rightarrow> failWith w2 h' e
                            | Inr b \<Rightarrow>
                                (w2, h', fst (assemble x results b),
                                 snd (assemble x results b)))))))"

text \<open>The scan of \<^verbatim>\<open>saErr.Other\<close> for the two sentinels.\<close>

fun scanOther :: "authRefreshNeed \<Rightarrow> err list \<Rightarrow> authRefreshNeed" where
  "scanOther refreshNeed [] = refreshNeed"
| "scanOther refreshNeed (otherErr # rest) =
     scanOther
       (if otherErr = errUserAuthorizationNeedsRefresh then refreshNeed\<lparr>need_user := True\<rparr>
        else if otherErr = errDeviceAuthorizationNeedsRefresh
             then refreshNeed\<lparr>need_device := True\<rparr>
        else refreshNeed)
       rest"

text \<open>
  The test at the head of the loop of \<^verbatim>\<open>SnapAction\<close>: \<open>Some\<close> of the need when the loop
  goes round again, \<open>None\<close> when it returns.
\<close>

definition retryNeed :: "nat \<Rightarrow> error option \<Rightarrow> authRefreshNeed option" where
  "retryNeed authRefreshes err =
     (case err of
        Some (ActionError saErr) \<Rightarrow>
          if authRefreshes < 2 \<and> length (Other saErr) > 0 then
            let refreshNeed = scanOther \<lparr>need_device = False, need_user = False\<rparr> (Other saErr)
            in if needed refreshNeed then Some refreshNeed else None
          else None
      | _ \<Rightarrow> None)"

text \<open>The call of \<^verbatim>\<open>refreshAuth\<close>; its error is logged and dropped.\<close>

definition callRefreshAuth ::
  "('w, 'e, 's, 'i) externals \<Rightarrow> ('w, 'e) world \<Rightarrow> authRefreshNeed \<Rightarrow> ('w, 'e) world" where
  "callRefreshAuth x w refreshNeed =
     w\<lparr>outside := fst (refreshAuth x (outside w) refreshNeed),
       authRefreshed := authRefreshed w @ [refreshNeed]\<rparr>"

definition callSnapAction ::
  "('w, 'e, 's, 'i) externals \<Rightarrow> ('w, 'e) world \<Rightarrow> 'e store \<Rightarrow> 'e CurrentSnap list \<Rightarrow> nat list
   \<Rightarrow> RefreshOptions \<Rightarrow> ('w, 'e, 'i) outcome" where
  "callSnapAction x w h currentSnaps actions opts =
     snapAction x (w\<lparr>innerCalls := innerCalls w + 1\<rparr>) h currentSnaps actions opts"

function retryLoop ::
  "('w, 'e, 's, 'i) externals \<Rightarrow> nat \<Rightarrow> ('w, 'e) world \<Rightarrow> 'e store \<Rightarrow> 'e CurrentSnap list
   \<Rightarrow> nat list \<Rightarrow> RefreshOptions \<Rightarrow> ('w, 'e, 'i) outcome" where
  "retryLoop x authRefreshes w h currentSnaps actions opts =
     (let r = callSnapAction x w h currentSnaps actions opts in
      case retryNeed authRefreshes (snd (snd (snd r))) of
        None \<Rightarrow> r
      | Some refreshNeed \<Rightarrow>
          retryLoop x (authRefreshes + 1) (callRefreshAuth x (fst r) refreshNeed)
            (fst (snd r)) currentSnaps actions opts)"
  by pat_completeness auto
termination
  by (relation "measure (\<lambda>(x, authRefreshes, w, h, currentSnaps, actions, opts). 2 - authRefreshes)")
     (auto simp: retryNeed_def split: option.splits error.splits if_splits)

declare retryLoop.simps [simp del]

definition SnapAction ::
  "('w, 'e, 's, 'i) externals \<Rightarrow> ('w, 'e) world \<Rightarrow> 'e store \<Rightarrow> 'e CurrentSnap list \<Rightarrow> nat list
   \<Rightarrow> RefreshOptions option \<Rightarrow> ('w, 'e, 'i) outcome" where
  "SnapAction x w h currentSnaps actions opts =
     (let opts' = (case opts of
                     None \<Rightarrow> \<lparr>RefreshManaged = False, IsAutoRefresh = False, PrivacyKey = []\<rparr>
                   | Some given \<Rightarrow> given)
      in if length currentSnaps = 0 \<and> length actions = 0
         then (w, h, [],
               Some (ActionError \<lparr>NoResults = True, Refresh = None, Install = None,
                                  Download = None, Other = []\<rparr>))
         else retryLoop x 0 w h currentSnaps actions opts')"

subsection \<open>Passing the checks, reading a request\<close>

text \<open>
  The checks of one turn of the loop over the actions, collected: a turn returns an error
  exactly when the action fails one of them (lemma \<open>actionStep_accepted\<close>).
\<close>

definition accepted :: "'e SnapAction \<Rightarrow> bool" where
  "accepted a = (isValidAction (sa_Action a) \<and> sa_InstanceName a \<noteq> []
     \<and> \<not> (sa_Action a = ''download'' \<and> snd (SplitInstanceName (sa_InstanceName a)) \<noteq> []))"

text \<open>
  A current snap and an action on which the marshallers of the request succeed: the
  epoch and the non-zero refreshed date of a current snap, and the non-zero epoch of an
  action that is not a refresh, are the leaves that reach a marshaller.
\<close>

definition currentSnapMarshals :: "('w, 'e, 's, 'i) externals \<Rightarrow> 'e CurrentSnap \<Rightarrow> bool" where
  "currentSnapMarshals x c =
     (marshalEpoch x (cs_Epoch c) = None
      \<and> (cs_RefreshedDate c \<noteq> 0 \<longrightarrow> marshalTime x (cs_RefreshedDate c) = None))"

definition actionMarshals :: "('w, 'e, 's, 'i) externals \<Rightarrow> 'e SnapAction \<Rightarrow> bool" where
  "actionMarshals x a =
     (sa_Action a \<noteq> ''refresh'' \<and> \<not> epochIsZero x (sa_Epoch a)
        \<longrightarrow> marshalEpoch x (sa_Epoch a) = None)"

text \<open>The two arrays of a marshalled request, empty when the member is missing.\<close>

definition requestActions :: "'e requestOptions \<Rightarrow> 'e json list" where
  "requestActions r = (case member (Data r) ''actions'' of Some (JArray js) \<Rightarrow> js | _ \<Rightarrow> [])"

definition requestContext :: "'e requestOptions \<Rightarrow> 'e json list" where
  "requestContext r = (case member (Data r) ''context'' of Some (JArray js) \<Rightarrow> js | _ \<Rightarrow> [])"

subsection \<open>Scenarios\<close>

text \<open>
  Collaborators for the scenarios. Epochs, store snaps and snap infos are numbers; the
  epoch 0 is the zero epoch and the store snap with payload 0 does not decode. The outside
  state counts the calls of the transport, and \<open>server\<close> gives the answer to each call.
  The refresh of authorizations fails every time. The marshaller of a time fails on a
  negative one, that of an epoch never.
\<close>

definition scenarioExternals ::
  "(nat \<Rightarrow> err + response \<times> nat snapActionResultList) \<Rightarrow> (nat, nat, nat, nat) externals" where
  "scenarioExternals server =
     \<lparr>sha256 = (\<lambda>s. ''sha256('' @ s @ '')''),
      base64RawURL = (\<lambda>s. ''b64('' @ s @ '')''),
      epochIsZero = (\<lambda>e. e = 0),
      infoFromStoreSnap = (\<lambda>s. if ss_rest s = 0 then Inl (ErrExternal ''cannot decode'')
                                else Inr \<lparr>info_Channel = [], info_InstanceKey = [],
                                          info_rest = ss_rest s\<rparr>),
      translateSnapActionError = (\<lambda>action channel code msg releases.
         if code = ''user-authorization-needs-refresh'' then errUserAuthorizationNeedsRefresh
         else if code = ''device-authorization-needs-refresh''
              then errDeviceAuthorizationNeedsRefresh
         else ErrExternal (action @ ''/'' @ channel @ ''/'' @ code)),
      retryRequestDecodeJSON = (\<lambda>calls reqOptions. (Suc calls, server calls)),
      respToError = (\<lambda>resp msg. ErrExternal msg),
      extractSuggestedCurrency = (\<lambda>calls resp. calls),
      refreshAuth = (\<lambda>calls refreshNeed. (calls, Some (ErrExternal ''cannot refresh''))),
      marshalTime = (\<lambda>d. if d < 0 then Some (ErrExternal ''year outside of range [0,9999]'')
                          else None),
      marshalEpoch = (\<lambda>e. None),
      useDeltas = False,
      deltaFormat = ''xdelta3'',
      endpointURL = ''v2/snaps/refresh'',
      jsonContentType = ''application/json'',
      apiV2Endps = ''v2'',
      snapActionFields = [''name'', ''revision'']\<rparr>"

definition startWorld :: "(nat, nat) world" where
  "startWorld = \<lparr>outside = 0, sent = [], authRefreshed = [], innerCalls = 0\<rparr>"

definition current :: "string \<Rightarrow> string \<Rightarrow> int \<Rightarrow> Revision list \<Rightarrow> nat CurrentSnap" where
  "current name snapID revision block =
     \<lparr>cs_InstanceName = name, cs_SnapID = snapID, cs_Revision = R revision,
      cs_TrackingChannel = ''stable'', cs_RefreshedDate = 0, cs_IgnoreValidation = False,
      cs_Block = block, cs_Epoch = 0, cs_CohortKey = []\<rparr>"

definition action :: "string \<Rightarrow> string \<Rightarrow> string \<Rightarrow> int \<Rightarrow> int \<Rightarrow> nat SnapAction" where
  "action kind name channel revision flags =
     \<lparr>sa_Action = kind, sa_InstanceName = name, sa_SnapID = [], sa_Channel = channel,
      sa_Revision = R revision, sa_CohortKey = [], sa_Flags = flags, sa_Epoch = 0\<rparr>"

text \<open>A store whose addresses 0, 1, ... hold the given actions (the last one from its address on).\<close>

fun storeOf :: "nat SnapAction \<Rightarrow> nat SnapAction list \<Rightarrow> nat store" where
  "storeOf a [] p = a"
| "storeOf a (b # bs) p = (case p of 0 \<Rightarrow> a | Suc q \<Rightarrow> storeOf b bs q)"

definition ok :: "nat snapActionResult list \<Rightarrow> (string \<times> string) list
                  \<Rightarrow> err + response \<times> nat snapActionResultList" where
  "ok results errs = Inr (\<lparr>StatusCode = 200, Header = []\<rparr>, \<lparr>Results = results, ErrorList = errs\<rparr>)"

definition result :: "string \<Rightarrow> string \<Rightarrow> string \<Rightarrow> int \<Rightarrow> nat \<Rightarrow> string \<Rightarrow> nat snapActionResult" where
  "result kind key name revision payload code =
     \<lparr>res_Result = kind, res_InstanceKey = key, res_SnapID = [], res_Name = name,
      res_Snap = \<lparr>ss_Revision = revision, ss_rest = payload\<rparr>, res_EffectiveChannel = ''stable'',
      res_RedirectChannel = [], res_ErrorCode = code, res_ErrorMessage = ''message'',
      res_ErrorReleases = []\<rparr>"

definition firstRequest :: "(nat, nat, nat) outcome \<Rightarrow> nat requestOptions" where
  "firstRequest r = hd (sent (fst r))"

definition salted :: RefreshOptions where
  "salted = \<lparr>RefreshManaged = False, IsAutoRefresh = False, PrivacyKey = ''salt''\<rparr>"

definition silent :: "nat \<Rightarrow> err + response \<times> nat snapActionResultList" where
  "silent calls = ok [] []"

text \<open>An install pinned to revision 5 that also names the channel edge.\<close>

definition pinnedInstall :: "nat store" where
  "pinnedInstall = storeOf (action ''install'' ''hello'' ''edge'' 5 0) []"

text \<open>An install whose instance name has an empty snap name.\<close>

definition unnamedInstall :: "nat store" where
  "unnamedInstall = storeOf (action ''install'' ''_x'' ''stable'' 0 0) []"

text \<open>Three actions with both validation flags, the enforce flag only, and neither.\<close>

definition flaggedActions :: "nat store" where
  "flaggedActions = storeOf (action ''install'' ''hello'' ''stable'' 0 3)
     [action ''download'' ''world'' ''stable'' 0 2, action ''refresh'' ''core'' [] 0 0]"

text \<open>Two refreshes: of an installed instance, and of a snap that is not installed.\<close>

definition refreshPair :: "nat store" where
  "refreshPair = storeOf (action ''refresh'' ''hello_dev'' [] 0 0)
     [action ''refresh'' ''ghost'' [] 0 0]"

text \<open>A refresh pinned to revision 11 that also names the channel edge.\<close>

definition pinnedRefresh :: "nat store" where
  "pinnedRefresh = storeOf (action ''refresh'' ''core'' ''edge'' 11 0) []"

text \<open>
  A store server that first answers with the sentinel of the expired user authorization,
  for a key of no action, and from then on with an error for the key \<^verbatim>\<open>abc\<close>.
\<close>

definition expiring :: "nat \<Rightarrow> err + response \<times> nat snapActionResultList" where
  "expiring calls =
     (if calls = 0
      then ok [result ''error'' ''nokey'' [] 0 0 ''user-authorization-needs-refresh''] []
      else ok [result ''error'' ''abc'' ''core'' 0 0 ''revision-not-found''] [])"

text \<open>
  A store server that answers every call with both sentinels: the one of the user in a
  result for a key of no action, the one of the device in the error list.
\<close>

definition alwaysExpired :: "nat \<Rightarrow> err + response \<times> nat snapActionResultList" where
  "alwaysExpired calls =
     ok [result ''error'' ''nokey'' [] 0 0 ''user-authorization-needs-refresh'']
        [(''device-authorization-needs-refresh'', ''expired'')]"

text \<open>
  The refresh of the installed snap hello, whose revision is 10 and which blocks revision
  11, against a server that offers revision 10 again; and the tables the two loops build
  for it.
\<close>

definition helloRefresh :: "nat store" where
  "helloRefresh = storeOf (action ''refresh'' ''hello'' [] 0 0) []"

definition unchanged :: "nat \<Rightarrow> err + response \<times> nat snapActionResultList" where
  "unchanged calls = ok [result ''refresh'' ''abc'' ''hello'' 10 1 []] []"

definition helloCurrent :: "nat CurrentSnap list" where
  "helloCurrent = [current ''hello'' ''abc'' 10 [R 11]]"

definition helloContext :: "nat contextTables" where
  "helloContext =
     \<lparr>curSnaps = [(''abc'', current ''hello'' ''abc'' 10 [R 11])],
      curSnapJSONs =
        [\<lparr>cj_SnapID = ''abc'', cj_InstanceKey = ''abc'', cj_Revision = 10,
          cj_TrackingChannel = ''stable'', cj_Epoch = 0, cj_RefreshedDate = None,
          cj_IgnoreValidation = False, cj_CohortKey = []\<rparr>],
      instanceNameToKey = [(''hello'', ''abc'')]\<rparr>"

definition helloTables :: "nat actionTables" where
  "helloTables =
     \<lparr>downloadNum = 0, installNum = 0, installs = [], downloads = [],
      refreshes = [(''abc'', 0)],
      actionJSONs =
        [\<lparr>aj_Action = ''refresh'', aj_InstanceKey = ''abc'', aj_Name = [], aj_SnapID = [],
          aj_Channel = [], aj_Revision = 0, aj_CohortKey = [], aj_IgnoreValidation = None,
          aj_Epoch = None\<rparr>]\<rparr>"

text \<open>A server that offers revision 10 of hello again, with a snap that does not decode.\<close>

definition undecodable :: "nat \<Rightarrow> err + response \<times> nat snapActionResultList" where
  "undecodable calls = ok [result ''refresh'' ''abc'' ''hello'' 10 0 []] []"


text \<open>An install of hello_dev and a download of world, and tables that hold the two.\<close>

definition mixedActions :: "nat store" where
  "mixedActions = storeOf (action ''install'' ''hello_dev'' ''edge'' 0 0)
     [action ''download'' ''world'' ''beta'' 0 0]"

definition mixedTables :: "nat actionTables" where
  "mixedTables = noActions\<lparr>installs := [(''install-1'', 0)], downloads := [(''download-1'', 1)]\<rparr>"

text \<open>
  An action of an unknown kind before a pinned install that names the channel edge, and
  a current snap whose refreshed date the marshaller of times refuses.
\<close>

definition abortedActions :: "nat store" where
  "abortedActions = storeOf (action ''remove'' ''hello'' [] 0 0)
                            [action ''install'' ''world'' ''edge'' 5 0]"

definition undated :: "nat CurrentSnap" where
  "undated = (current ''core'' ''abc'' 10 [])\<lparr>cs_RefreshedDate := - 1\<rparr>"

section \<open>Properties\<close>

subsection \<open>The instance key of a current snap\<close>

lemma genInstanceKey_errors:
  "genInstanceKey x c salt = Inl e \<Longrightarrow> e = ErrSaltNotProvided"
  by (auto simp: genInstanceKey_def Let_def split: if_splits)

lemma contextStep_errors:
  "contextStep x salt t c = Inl e \<Longrightarrow> e = ErrInvalidCurrentSnap \<or> e = ErrSaltNotProvided"
  by (auto simp: contextStep_def Let_def split: if_splits sum.splits dest: genInstanceKey_errors)

lemma contextStep_unsalted:
  "snd (SplitInstanceName (cs_InstanceName c)) \<noteq> [] \<Longrightarrow>
   \<exists>e. contextStep x [] t c = Inl e"
  by (auto simp: contextStep_def genInstanceKey_def Let_def)

lemma contextLoop_unsalted:
  "c \<in> set currentSnaps \<Longrightarrow> snd (SplitInstanceName (cs_InstanceName c)) \<noteq> [] \<Longrightarrow>
   \<exists>e. contextLoop x [] t currentSnaps = Inl e
       \<and> (e = ErrInvalidCurrentSnap \<or> e = ErrSaltNotProvided)"
proof (induction currentSnaps arbitrary: t)
  case Nil
  then show ?case by simp
next
  case (Cons d ds)
  show ?case
  proof (cases "contextStep x [] t d")
    case (Inl e)
    then show ?thesis using contextStep_errors [OF Inl] by simp
  next
    case (Inr t')
    have "c \<noteq> d" using Inr contextStep_unsalted [OF Cons.prems(2), of x t] by auto
    then have "c \<in> set ds" using Cons.prems(1) by simp
    from Cons.IH [OF this Cons.prems(2)] show ?thesis using Inr by simp
  qed
qed

lemma retryLoop_plain:
  "callSnapAction x w h cs as opts = (w', h', rs, Some (PlainError e)) \<Longrightarrow>
   retryLoop x n w h cs as opts = (w', h', rs, Some (PlainError e))"
  by (subst retryLoop.simps) (simp add: retryNeed_def)

lemma no_underscore_split:
  "CHR ''_'' \<notin> set name \<Longrightarrow> SplitInstanceName name = (name, [])"
proof -
  assume "CHR ''_'' \<notin> set name"
  then have a: "\<forall>c\<in>set name. c \<noteq> CHR ''_''" by auto
  then have t: "takeWhile (\<lambda>c. c \<noteq> CHR ''_'') name = name"
    and d: "dropWhile (\<lambda>c. c \<noteq> CHR ''_'') name = []" by simp_all
  show ?thesis unfolding SplitInstanceName_def t d by simp
qed

text \<open>
  Claim C3. The instance key of a current snap has three outcomes. When the instance name
  has no instance-key suffix (in particular when it has no underscore) the key is the snap
  id; when the suffix is not empty and the salt is empty the derivation fails with the
  internal error of the missing salt; otherwise the key is the snap id, a colon, and the
  unpadded base64url encoding of the SHA-256 of snap id, suffix and salt in a row. In the
  second case a call of \<open>SnapAction\<close> whose current snaps hold such a snap, with no privacy
  key, ends in an internal error after one call of \<open>snapAction\<close>, the world otherwise
  untouched: nothing was handed to the transport.
\<close>

theorem genInstanceKey_three_outcomes:
  fixes x :: "('w, 'e, 's, 'i) externals"
  shows
  "(CHR ''_'' \<notin> set (cs_InstanceName curSnap)
      \<longrightarrow> genInstanceKey x curSnap salt = Inr (cs_SnapID curSnap))
   \<and> genInstanceKey x curSnap salt =
       (if snd (SplitInstanceName (cs_InstanceName curSnap)) = [] then Inr (cs_SnapID curSnap)
        else if salt = [] then Inl ErrSaltNotProvided
        else Inr (cs_SnapID curSnap @ '':'' @
               base64RawURL x (sha256 x (cs_SnapID curSnap
                  @ snd (SplitInstanceName (cs_InstanceName curSnap)) @ salt))))
   \<and> (curSnap \<in> set currentSnaps \<and> snd (SplitInstanceName (cs_InstanceName curSnap)) \<noteq> []
        \<and> (case opts of None \<Rightarrow> True | Some given \<Rightarrow> PrivacyKey given = []) \<longrightarrow>
       (\<exists>e. SnapAction x w h currentSnaps actions opts
               = (w\<lparr>innerCalls := innerCalls w + 1\<rparr>, h, [], Some (PlainError e))
            \<and> (e = ErrInvalidCurrentSnap \<or> e = ErrSaltNotProvided)))"
proof (intro conjI impI)
  assume "CHR ''_'' \<notin> set (cs_InstanceName curSnap)"
  then show "genInstanceKey x curSnap salt = Inr (cs_SnapID curSnap)"
    by (simp add: genInstanceKey_def no_underscore_split)
next
  show "genInstanceKey x curSnap salt =
       (if snd (SplitInstanceName (cs_InstanceName curSnap)) = [] then Inr (cs_SnapID curSnap)
        else if salt = [] then Inl ErrSaltNotProvided
        else Inr (cs_SnapID curSnap @ '':'' @
               base64RawURL x (sha256 x (cs_SnapID curSnap
                  @ snd (SplitInstanceName (cs_InstanceName curSnap)) @ salt))))"
    by (simp add: genInstanceKey_def Let_def)
next
  assume a: "curSnap \<in> set currentSnaps
        \<and> snd (SplitInstanceName (cs_InstanceName curSnap)) \<noteq> []
        \<and> (case opts of None \<Rightarrow> True | Some given \<Rightarrow> PrivacyKey given = [])"
  define opts' where "opts' = (case opts of
                     None \<Rightarrow> \<lparr>RefreshManaged = False, IsAutoRefresh = False, PrivacyKey = []\<rparr>
                   | Some given \<Rightarrow> given)"
  have salt: "PrivacyKey opts' = []" using a by (auto simp: opts'_def split: option.splits)
  from a obtain e where e: "contextLoop x [] noContext currentSnaps = Inl e"
      "e = ErrInvalidCurrentSnap \<or> e = ErrSaltNotProvided"
    using contextLoop_unsalted [of curSnap currentSnaps x noContext] by blast
  have "callSnapAction x w h currentSnaps actions opts'
          = (w\<lparr>innerCalls := innerCalls w + 1\<rparr>, h, [], Some (PlainError e))"
    by (simp add: callSnapAction_def snapAction_def salt e failWith_def)
  from retryLoop_plain [OF this]
  have "retryLoop x 0 w h currentSnaps actions opts'
          = (w\<lparr>innerCalls := innerCalls w + 1\<rparr>, h, [], Some (PlainError e))" .
  moreover have "currentSnaps \<noteq> []" using a by auto
  ultimately show "\<exists>e. SnapAction x w h currentSnaps actions opts
               = (w\<lparr>innerCalls := innerCalls w + 1\<rparr>, h, [], Some (PlainError e))
            \<and> (e = ErrInvalidCurrentSnap \<or> e = ErrSaltNotProvided)"
    using e(2) unfolding SnapAction_def opts'_def [symmetric] by (simp add: Let_def)
qed

theorem genInstanceKey_three_outcomes_witness:
  "CHR ''_'' \<notin> set (cs_InstanceName (current ''hello'' ''abc'' 10 []))
   \<and> genInstanceKey (scenarioExternals (\<lambda>n. ok [] [])) (current ''hello'' ''abc'' 10 []) ''s''
       = Inr ''abc''
   \<and> genInstanceKey (scenarioExternals (\<lambda>n. ok [] [])) (current ''hello_dev'' ''abc'' 10 []) ''s''
       = Inr ''abc:b64(sha256(abcdevs))''
   \<and> current ''hello_dev'' ''abc'' 10 [] \<in> set [current ''hello_dev'' ''abc'' 10 []]
   \<and> snd (SplitInstanceName (cs_InstanceName (current ''hello_dev'' ''abc'' 10 []))) \<noteq> []
   \<and> (\<exists>e. SnapAction (scenarioExternals (\<lambda>n. ok [] [])) startWorld
             (storeOf (action ''refresh'' ''hello_dev'' [] 0 0) [])
             [current ''hello_dev'' ''abc'' 10 []] [0] None
               = (startWorld\<lparr>innerCalls := innerCalls startWorld + 1\<rparr>,
                  storeOf (action ''refresh'' ''hello_dev'' [] 0 0) [], [], Some (PlainError e))
            \<and> (e = ErrInvalidCurrentSnap \<or> e = ErrSaltNotProvided))"
  using genInstanceKey_three_outcomes
          [of "current ''hello'' ''abc'' 10 []" "scenarioExternals (\<lambda>n. ok [] [])" "''s''"
              "[]" None startWorld "storeOf (action ''refresh'' ''hello_dev'' [] 0 0) []" "[]"]
        genInstanceKey_three_outcomes
          [of "current ''hello_dev'' ''abc'' 10 []" "scenarioExternals (\<lambda>n. ok [] [])" "''s''"
              "[current ''hello_dev'' ''abc'' 10 []]" None startWorld
              "storeOf (action ''refresh'' ''hello_dev'' [] 0 0) []" "[0]"]
  by (simp add: current_def scenarioExternals_def SplitInstanceName_def)

subsection \<open>The actions of the request\<close>

lemma member_marshalAction:
  "member (marshalAction a) ''instance-key'' = Some (JString (aj_InstanceKey a))"
  "member (marshalAction a) ''name'' = (if aj_Name a = [] then None else Some (JString (aj_Name a)))"
  "member (marshalAction a) ''channel'' =
     (if aj_Channel a = [] then None else Some (JString (aj_Channel a)))"
  "member (marshalAction a) ''ignore-validation'' = map_option JBool (aj_IgnoreValidation a)"
  "member (marshalAction a) ''epoch'' =
     (case aj_Epoch a of None \<Rightarrow> None | Some None \<Rightarrow> Some JNull | Some (Some e) \<Rightarrow> Some (JEpoch e))"
  by (simp_all add: marshalAction_def omitempty_def split: option.splits)

lemma member_marshalCurrentSnap:
  "member (marshalCurrentSnap c) ''instance-key'' = Some (JString (cj_InstanceKey c))"
  by (simp add: marshalCurrentSnap_def)

lemma firstError_None: "(firstError es = None) = (\<forall>e\<in>set es. e = None)"
  by (induction es rule: firstError.induct) auto

lemma jsonMarshal_Inr:
  "(jsonMarshal x r = Inr d) =
   ((\<forall>c\<in>set (req_Context r). marshalCurrentSnapError x c = None)
    \<and> (\<forall>a\<in>set (req_Actions r). marshalActionError x a = None)
    \<and> d = marshalRequest r)"
proof -
  let ?es = "map (marshalCurrentSnapError x) (req_Context r)
             @ map (marshalActionError x) (req_Actions r)"
  have "(firstError ?es = None) =
        ((\<forall>c\<in>set (req_Context r). marshalCurrentSnapError x c = None)
         \<and> (\<forall>a\<in>set (req_Actions r). marshalActionError x a = None))"
    unfolding firstError_None by auto
  then show ?thesis by (cases "firstError ?es") (auto simp: jsonMarshal_def)
qed

lemma Data_buildRequest:
  "buildRequest x opts c t = Inr req \<Longrightarrow>
   Data req = marshalRequest
     \<lparr>req_Context = curSnapJSONs c, req_Actions = actionJSONs t,
      req_Fields = snapActionFields x\<rparr>"
  by (auto simp: buildRequest_def jsonMarshal_Inr addHeader_def Let_def
           split: sum.splits if_splits)

lemma buildRequest_Inr:
  "(\<exists>req. buildRequest x opts c t = Inr req) =
   ((\<forall>j\<in>set (curSnapJSONs c). marshalCurrentSnapError x j = None)
    \<and> (\<forall>a\<in>set (actionJSONs t). marshalActionError x a = None))"
proof -
  let ?r = "\<lparr>req_Context = curSnapJSONs c, req_Actions = actionJSONs t,
             req_Fields = snapActionFields x\<rparr>"
  have "(\<exists>req. buildRequest x opts c t = Inr req) = (\<exists>d. jsonMarshal x ?r = Inr d)"
    by (cases "jsonMarshal x ?r") (simp_all add: buildRequest_def Let_def)
  then show ?thesis by (simp add: jsonMarshal_Inr)
qed

lemma requestActions_buildRequest:
  "buildRequest x opts c t = Inr req \<Longrightarrow>
   requestActions req = map marshalAction (actionJSONs t)"
  by (simp add: requestActions_def Data_buildRequest marshalRequest_def)

lemma requestContext_buildRequest:
  "buildRequest x opts c t = Inr req \<Longrightarrow>
   requestContext req = map marshalCurrentSnap (curSnapJSONs c)"
  by (simp add: requestContext_def Data_buildRequest marshalRequest_def)

lemma clearChannel_apply:
  "clearChannel h q p =
     (if p = q \<and> \<not> Unset (sa_Revision (h p)) then (h p)\<lparr>sa_Channel := []\<rparr> else h p)"
  by (auto simp: clearChannel_def)

lemma foldl_clearChannel_apply:
  "foldl clearChannel h qs p =
     (if p \<in> set qs \<and> \<not> Unset (sa_Revision (h p)) then (h p)\<lparr>sa_Channel := []\<rparr> else h p)"
proof (induction qs arbitrary: p rule: rev_induct)
  case Nil
  then show ?case by simp
next
  case (snoc q qs)
  define H where "H = foldl clearChannel h qs"
  have H: "\<And>p. H p = (if p \<in> set qs \<and> \<not> Unset (sa_Revision (h p))
                  then (h p)\<lparr>sa_Channel := []\<rparr> else h p)"
    using snoc by (simp add: H_def)
  have "foldl clearChannel h (qs @ [q]) p = clearChannel H q p" by (simp add: H_def)
  also have "\<dots> = (if p = q \<and> \<not> Unset (sa_Revision (H p)) then (H p)\<lparr>sa_Channel := []\<rparr> else H p)"
    by (rule clearChannel_apply)
  finally show ?case by (auto simp: H)
qed

lemma assignInstanceKey_jsons:
  "assignInstanceKey n2k a p t = Inr (key, t') \<Longrightarrow> actionJSONs t' = actionJSONs t"
  by (auto simp: assignInstanceKey_def Let_def split: if_splits)

lemma assignInstanceKey_refresh:
  "assignInstanceKey n2k a p t = Inr (key, t') \<Longrightarrow> sa_Action a \<noteq> ''install'' \<Longrightarrow>
   sa_Action a \<noteq> ''download'' \<Longrightarrow>
   key = (case map_of n2k (sa_InstanceName a) of None \<Rightarrow> [] | Some k \<Rightarrow> k)
   \<and> installNum t' = installNum t \<and> downloadNum t' = downloadNum t"
  by (auto simp: assignInstanceKey_def Let_def split: if_splits)

lemma actionStep_success:
  assumes "actionStep x n2k h t p = (h1, Inr t1)"
  shows "h1 = clearChannel h p \<and>
     (\<exists>key. actionJSONs t1 = actionJSONs t @
          [(nameAndEpoch x (clearChannel h p p) (newActionJSON (h p)))\<lparr>aj_InstanceKey := key\<rparr>]
        \<and> (sa_Action (h p) = ''refresh'' \<longrightarrow>
             key = (case map_of n2k (sa_InstanceName (h p)) of None \<Rightarrow> [] | Some k \<Rightarrow> k)))"
proof -
  from assms have v: "isValidAction (sa_Action (h p))" "sa_InstanceName (h p) \<noteq> []"
    by (auto simp: actionStep_def Let_def split: if_splits)
  from assms v obtain key t' where
    k: "assignInstanceKey n2k (clearChannel h p p) p t = Inr (key, t')"
    and h1: "h1 = clearChannel h p"
    and t1: "t1 = t'\<lparr>actionJSONs := actionJSONs t' @
               [(nameAndEpoch x (clearChannel h p p) (newActionJSON (h p)))\<lparr>aj_InstanceKey := key\<rparr>]\<rparr>"
    by (auto simp: actionStep_def Let_def split: sum.splits prod.splits)
  have same: "sa_Action (clearChannel h p p) = sa_Action (h p)"
    "sa_InstanceName (clearChannel h p p) = sa_InstanceName (h p)"
    by (simp_all add: clearChannel_apply)
  have j: "actionJSONs t' = actionJSONs t" using k by (rule assignInstanceKey_jsons)
  have r: "sa_Action (h p) = ''refresh'' \<longrightarrow>
       key = (case map_of n2k (sa_InstanceName (h p)) of None \<Rightarrow> [] | Some k \<Rightarrow> k)"
    using assignInstanceKey_refresh [OF k] same by auto
  show ?thesis using r h1 by (auto simp: t1 j)
qed

lemma actionLoop_success:
  assumes "actionLoop x n2k h t ps = (h', Inr t')"
  shows "h' = foldl clearChannel h ps \<and>
     (\<exists>es. actionJSONs t' = actionJSONs t @ es \<and> length es = length ps \<and>
        (\<forall>i<length ps. \<exists>key.
           es ! i = (nameAndEpoch x (clearChannel (foldl clearChannel h (take i ps)) (ps ! i) (ps ! i))
                      (newActionJSON (foldl clearChannel h (take i ps) (ps ! i))))
                    \<lparr>aj_InstanceKey := key\<rparr>
           \<and> (sa_Action (foldl clearChannel h (take i ps) (ps ! i)) = ''refresh'' \<longrightarrow>
                key = (case map_of n2k (sa_InstanceName (foldl clearChannel h (take i ps) (ps ! i)))
                       of None \<Rightarrow> [] | Some k \<Rightarrow> k))))"
  using assms
proof (induction ps arbitrary: h t)
  case Nil
  then show ?case by simp
next
  case (Cons p ps)
  from Cons.prems obtain h1 t1 where
    step: "actionStep x n2k h t p = (h1, Inr t1)" and
    rest: "actionLoop x n2k h1 t1 ps = (h', Inr t')"
    by (auto split: prod.splits sum.splits)
  from actionStep_success [OF step] obtain key0 where
    h1: "h1 = clearChannel h p" and
    e0: "actionJSONs t1 = actionJSONs t @
          [(nameAndEpoch x (clearChannel h p p) (newActionJSON (h p)))\<lparr>aj_InstanceKey := key0\<rparr>]" and
    k0: "sa_Action (h p) = ''refresh'' \<longrightarrow>
             key0 = (case map_of n2k (sa_InstanceName (h p)) of None \<Rightarrow> [] | Some k \<Rightarrow> k)"
    by blast
  from Cons.IH [OF rest] obtain es where
    h': "h' = foldl clearChannel h1 ps" and
    es: "actionJSONs t' = actionJSONs t1 @ es" "length es = length ps" and
    each: "\<forall>i<length ps. \<exists>key.
           es ! i = (nameAndEpoch x (clearChannel (foldl clearChannel h1 (take i ps)) (ps ! i) (ps ! i))
                      (newActionJSON (foldl clearChannel h1 (take i ps) (ps ! i))))
                    \<lparr>aj_InstanceKey := key\<rparr>
           \<and> (sa_Action (foldl clearChannel h1 (take i ps) (ps ! i)) = ''refresh'' \<longrightarrow>
                key = (case map_of n2k (sa_InstanceName (foldl clearChannel h1 (take i ps) (ps ! i)))
                       of None \<Rightarrow> [] | Some k \<Rightarrow> k))"
    by blast
  let ?e0 = "(nameAndEpoch x (clearChannel h p p) (newActionJSON (h p)))\<lparr>aj_InstanceKey := key0\<rparr>"
  have "\<forall>i<length (p # ps). \<exists>key.
           (?e0 # es) ! i = (nameAndEpoch x (clearChannel (foldl clearChannel h (take i (p # ps))) ((p # ps) ! i) ((p # ps) ! i))
                      (newActionJSON (foldl clearChannel h (take i (p # ps)) ((p # ps) ! i))))
                    \<lparr>aj_InstanceKey := key\<rparr>
           \<and> (sa_Action (foldl clearChannel h (take i (p # ps)) ((p # ps) ! i)) = ''refresh'' \<longrightarrow>
                key = (case map_of n2k (sa_InstanceName (foldl clearChannel h (take i (p # ps)) ((p # ps) ! i)))
                       of None \<Rightarrow> [] | Some k \<Rightarrow> k))"
  proof (intro allI impI)
    fix i assume i: "i < length (p # ps)"
    show "\<exists>key.
           (?e0 # es) ! i = (nameAndEpoch x (clearChannel (foldl clearChannel h (take i (p # ps))) ((p # ps) ! i) ((p # ps) ! i))
                      (newActionJSON (foldl clearChannel h (take i (p # ps)) ((p # ps) ! i))))
                    \<lparr>aj_InstanceKey := key\<rparr>
           \<and> (sa_Action (foldl clearChannel h (take i (p # ps)) ((p # ps) ! i)) = ''refresh'' \<longrightarrow>
                key = (case map_of n2k (sa_InstanceName (foldl clearChannel h (take i (p # ps)) ((p # ps) ! i)))
                       of None \<Rightarrow> [] | Some k \<Rightarrow> k))"
    proof (cases i)
      case 0
      then show ?thesis using k0 by (intro exI [of _ key0]) simp
    next
      case (Suc j)
      then have "j < length ps" using i by simp
      with each obtain key where
        "es ! j = (nameAndEpoch x (clearChannel (foldl clearChannel h1 (take j ps)) (ps ! j) (ps ! j))
                      (newActionJSON (foldl clearChannel h1 (take j ps) (ps ! j))))
                    \<lparr>aj_InstanceKey := key\<rparr>
           \<and> (sa_Action (foldl clearChannel h1 (take j ps) (ps ! j)) = ''refresh'' \<longrightarrow>
                key = (case map_of n2k (sa_InstanceName (foldl clearChannel h1 (take j ps) (ps ! j)))
                       of None \<Rightarrow> [] | Some k \<Rightarrow> k))"
        by blast
      then show ?thesis unfolding Suc h1 by (intro exI [of _ key]) simp
    qed
  qed
  moreover have "actionJSONs t' = actionJSONs t @ (?e0 # es)" using es e0 by simp
  moreover have "length (?e0 # es) = length (p # ps)" using es by simp
  moreover have "h' = foldl clearChannel h (p # ps)" using h' h1 by simp
  ultimately show ?case by blast
qed

lemma actionStep_accepted:
  "(\<exists>h1 t1. actionStep x n2k h t p = (h1, Inr t1)) = accepted (h p)"
  by (auto simp: actionStep_def accepted_def assignInstanceKey_def clearChannel_apply Let_def isValidAction_def
           split: sum.splits prod.splits if_splits)

lemma accepted_clearChannel: "accepted (clearChannel h q p) = accepted (h p)"
  by (simp add: accepted_def clearChannel_apply)

lemma actionLoop_accepted:
  "(\<exists>h' t'. actionLoop x n2k h t ps = (h', Inr t')) = (\<forall>p\<in>set ps. accepted (h p))"
proof (induction ps arbitrary: h t)
  case Nil
  then show ?case by simp
next
  case (Cons p ps)
  show ?case
  proof (cases "actionStep x n2k h t p")
    case (Pair h1 r)
    show ?thesis
    proof (cases r)
      case (Inl e)
      then have "\<not> accepted (h p)"
        using Pair actionStep_accepted [of x n2k h t p] by auto
      then show ?thesis using Pair Inl by simp
    next
      case (Inr t1)
      then have a: "accepted (h p)"
        using Pair actionStep_accepted [of x n2k h t p] by auto
      have h1: "h1 = clearChannel h p" using actionStep_success Pair Inr by blast
      have "(\<exists>h' t'. actionLoop x n2k h1 t1 ps = (h', Inr t')) = (\<forall>q\<in>set ps. accepted (h1 q))"
        by (rule Cons.IH)
      then show ?thesis using Pair Inr a by (simp add: h1 accepted_clearChannel)
    qed
  qed
qed

lemma snapAction_unbuilt:
  "contextLoop x (PrivacyKey opts) noContext cs = Inl e \<Longrightarrow>
     snapAction x w h cs as opts = (w, h, [], Some (PlainError e))"
  "contextLoop x (PrivacyKey opts) noContext cs = Inr c \<Longrightarrow>
   actionLoop x (instanceNameToKey c) h noActions as = (h1, Inl e) \<Longrightarrow>
     snapAction x w h cs as opts = (w, h1, [], Some (PlainError e))"
  "contextLoop x (PrivacyKey opts) noContext cs = Inr c \<Longrightarrow>
   actionLoop x (instanceNameToKey c) h noActions as = (h1, Inr t) \<Longrightarrow>
   buildRequest x opts c t = Inl e \<Longrightarrow>
     snapAction x w h cs as opts = (w, h1, [], Some (PlainError e))"
  by (simp_all add: snapAction_def failWith_def)

lemma snapAction_built:
  assumes "contextLoop x (PrivacyKey opts) noContext cs = Inr c"
    and "actionLoop x (instanceNameToKey c) h noActions as = (h1, Inr t)"
    and "buildRequest x opts c t = Inr req"
  shows "\<exists>w' rs err. snapAction x w h cs as opts = (w', h1, rs, err)
           \<and> sent w' = sent w @ [req]
           \<and> innerCalls w' = innerCalls w \<and> authRefreshed w' = authRefreshed w"
  using assms
  by (auto simp: snapAction_def failWith_def transport_def Let_def split: sum.splits prod.splits)

lemma snapAction_sent:
  "(sent (fst (snapAction x w h cs as opts)) = sent w @ [req]) =
   (\<exists>c t. contextLoop x (PrivacyKey opts) noContext cs = Inr c
      \<and> snd (actionLoop x (instanceNameToKey c) h noActions as) = Inr t
      \<and> buildRequest x opts c t = Inr req)"
proof (cases "contextLoop x (PrivacyKey opts) noContext cs")
  case (Inl e)
  then show ?thesis by (simp add: snapAction_unbuilt)
next
  case (Inr c)
  show ?thesis
  proof (cases "actionLoop x (instanceNameToKey c) h noActions as")
    case (Pair h1 r)
    show ?thesis
    proof (cases r)
      case (Inl e)
      then show ?thesis using Inr Pair by (simp add: snapAction_unbuilt)
    next
      case t: (Inr t)
      show ?thesis
      proof (cases "buildRequest x opts c t")
        case e: (Inl e)
        from snapAction_unbuilt(3) [OF Inr Pair [unfolded t] e, of w] show ?thesis
          using Inr Pair t e by simp
      next
        case r: (Inr r)
        from snapAction_built [OF Inr Pair [unfolded t] r, of w] show ?thesis
          using Inr Pair t r by auto
      qed
    qed
  qed
qed

lemma entry_fields:
  "aj_Channel ((nameAndEpoch x a' (newActionJSON a))\<lparr>aj_InstanceKey := k\<rparr>) = sa_Channel a"
  "aj_IgnoreValidation ((nameAndEpoch x a' (newActionJSON a))\<lparr>aj_InstanceKey := k\<rparr>)
     = ignoreValidationOf (sa_Flags a)"
  "aj_InstanceKey ((nameAndEpoch x a' (newActionJSON a))\<lparr>aj_InstanceKey := k\<rparr>) = k"
  "aj_Name ((nameAndEpoch x a' (newActionJSON a))\<lparr>aj_InstanceKey := k\<rparr>)
     = (if sa_Action a' \<noteq> ''refresh'' then InstanceSnap (sa_InstanceName a') else [])"
  "aj_Epoch ((nameAndEpoch x a' (newActionJSON a))\<lparr>aj_InstanceKey := k\<rparr>)
     = (if sa_Action a' \<noteq> ''refresh''
        then (if epochIsZero x (sa_Epoch a') then Some None else Some (Some (sa_Epoch a')))
        else None)"
  by (simp_all add: nameAndEpoch_def newActionJSON_def)

lemma sent_entry:
  assumes "sent (fst (snapAction x w h cs as opts)) = sent w @ [req]" and "i < length as"
  shows "\<exists>c e. contextLoop x (PrivacyKey opts) noContext cs = Inr c
     \<and> length (requestActions req) = length as
     \<and> requestContext req = map marshalCurrentSnap (curSnapJSONs c)
     \<and> requestActions req ! i = marshalAction e
     \<and> aj_Channel e = (if as ! i \<in> set (take i as) \<and> \<not> Unset (sa_Revision (h (as ! i)))
                       then [] else sa_Channel (h (as ! i)))
     \<and> aj_IgnoreValidation e = ignoreValidationOf (sa_Flags (h (as ! i)))
     \<and> aj_Name e = (if sa_Action (h (as ! i)) \<noteq> ''refresh''
                    then InstanceSnap (sa_InstanceName (h (as ! i))) else [])
     \<and> aj_Epoch e = (if sa_Action (h (as ! i)) \<noteq> ''refresh''
                     then (if epochIsZero x (sa_Epoch (h (as ! i))) then Some None
                           else Some (Some (sa_Epoch (h (as ! i)))))
                     else None)
     \<and> (sa_Action (h (as ! i)) = ''refresh'' \<longrightarrow>
           aj_InstanceKey e = (case map_of (instanceNameToKey c) (sa_InstanceName (h (as ! i)))
                  of None \<Rightarrow> [] | Some k \<Rightarrow> k))"
proof -
  from assms(1) obtain c t where
    c: "contextLoop x (PrivacyKey opts) noContext cs = Inr c" and
    t: "snd (actionLoop x (instanceNameToKey c) h noActions as) = Inr t" and
    req: "buildRequest x opts c t = Inr req"
    unfolding snapAction_sent by blast
  from t obtain h1 where "actionLoop x (instanceNameToKey c) h noActions as = (h1, Inr t)"
    by (cases "actionLoop x (instanceNameToKey c) h noActions as") simp
  from actionLoop_success [OF this] obtain es where
    es: "actionJSONs t = actionJSONs noActions @ es" "length es = length as" and
    each: "\<forall>i<length as. \<exists>key.
           es ! i = (nameAndEpoch x (clearChannel (foldl clearChannel h (take i as)) (as ! i) (as ! i))
                      (newActionJSON (foldl clearChannel h (take i as) (as ! i))))
                    \<lparr>aj_InstanceKey := key\<rparr>
           \<and> (sa_Action (foldl clearChannel h (take i as) (as ! i)) = ''refresh'' \<longrightarrow>
                key = (case map_of (instanceNameToKey c)
                              (sa_InstanceName (foldl clearChannel h (take i as) (as ! i)))
                       of None \<Rightarrow> [] | Some k \<Rightarrow> k))"
    by blast
  define H where "H = foldl clearChannel h (take i as)"
  define a where "a = H (as ! i)"
  define a' where "a' = clearChannel H (as ! i) (as ! i)"
  from each assms(2) obtain key where
    key: "es ! i = (nameAndEpoch x a' (newActionJSON a))\<lparr>aj_InstanceKey := key\<rparr>"
      "sa_Action a = ''refresh'' \<longrightarrow>
                key = (case map_of (instanceNameToKey c) (sa_InstanceName a)
                       of None \<Rightarrow> [] | Some k \<Rightarrow> k)"
    unfolding H_def a_def a'_def by blast
  have a: "sa_Action a = sa_Action (h (as ! i))" "sa_InstanceName a = sa_InstanceName (h (as ! i))"
    "sa_Flags a = sa_Flags (h (as ! i))"
    "sa_Channel a = (if as ! i \<in> set (take i as) \<and> \<not> Unset (sa_Revision (h (as ! i)))
                       then [] else sa_Channel (h (as ! i)))"
    by (simp_all add: a_def H_def foldl_clearChannel_apply)
  have a': "sa_Action a' = sa_Action (h (as ! i))"
    "sa_InstanceName a' = sa_InstanceName (h (as ! i))"
    "sa_Epoch a' = sa_Epoch (h (as ! i))"
    by (simp_all add: a'_def H_def foldl_clearChannel_apply clearChannel_apply)
  have jsons: "actionJSONs t = es" using es by (simp add: noActions_def)
  have 1: "requestActions req ! i = marshalAction (es ! i)"
    using assms(2) es(2) by (simp add: requestActions_buildRequest [OF req] jsons)
  have 2: "length (requestActions req) = length as"
    by (simp add: requestActions_buildRequest [OF req] jsons es(2))
  have 3: "requestContext req = map marshalCurrentSnap (curSnapJSONs c)"
    by (simp add: requestContext_buildRequest [OF req])
  have 4: "aj_Channel (es ! i) = (if as ! i \<in> set (take i as) \<and> \<not> Unset (sa_Revision (h (as ! i)))
                       then [] else sa_Channel (h (as ! i)))"
    unfolding key(1) entry_fields a ..
  have 5: "aj_IgnoreValidation (es ! i) = ignoreValidationOf (sa_Flags (h (as ! i)))"
    unfolding key(1) entry_fields a ..
  have 6: "aj_Name (es ! i) = (if sa_Action (h (as ! i)) \<noteq> ''refresh''
                    then InstanceSnap (sa_InstanceName (h (as ! i))) else [])"
    unfolding key(1) entry_fields a' ..
  have 7: "aj_Epoch (es ! i) = (if sa_Action (h (as ! i)) \<noteq> ''refresh''
                     then (if epochIsZero x (sa_Epoch (h (as ! i))) then Some None
                           else Some (Some (sa_Epoch (h (as ! i)))))
                     else None)"
    unfolding key(1) entry_fields a' ..
  have 8: "sa_Action (h (as ! i)) = ''refresh'' \<longrightarrow>
           aj_InstanceKey (es ! i) = (case map_of (instanceNameToKey c) (sa_InstanceName (h (as ! i)))
                  of None \<Rightarrow> [] | Some k \<Rightarrow> k)"
    using key(2) unfolding key(1) entry_fields a by simp
  from c 1 2 3 4 5 6 7 8 show ?thesis by blast
qed

lemma contextStep_marshals:
  assumes "contextStep x salt t c = Inr t1"
  shows "\<exists>e. curSnapJSONs t1 = curSnapJSONs t @ [e]
     \<and> (marshalCurrentSnapError x e = None) = currentSnapMarshals x c"
  using assms
  by (auto simp: contextStep_def Let_def marshalCurrentSnapError_def currentSnapMarshals_def
           split: if_splits sum.splits option.splits)

lemma contextLoop_marshals:
  assumes "contextLoop x salt t cs = Inr t'"
  shows "(\<forall>j\<in>set (curSnapJSONs t'). marshalCurrentSnapError x j = None) =
     ((\<forall>j\<in>set (curSnapJSONs t). marshalCurrentSnapError x j = None)
      \<and> (\<forall>c\<in>set cs. currentSnapMarshals x c))"
  using assms
proof (induction cs arbitrary: t)
  case Nil
  then show ?case by simp
next
  case (Cons c cs)
  from Cons.prems obtain t1 where
    step: "contextStep x salt t c = Inr t1" and rest: "contextLoop x salt t1 cs = Inr t'"
    by (auto split: sum.splits)
  from contextStep_marshals [OF step] obtain e where
    e: "curSnapJSONs t1 = curSnapJSONs t @ [e]"
       "(marshalCurrentSnapError x e = None) = currentSnapMarshals x c"
    by auto
  show ?case unfolding Cons.IH [OF rest] e(1) using e(2) by auto
qed

lemma actionLoop_marshals:
  assumes "actionLoop x n2k h t ps = (h', Inr t')"
  shows "(\<forall>a\<in>set (actionJSONs t'). marshalActionError x a = None) =
     ((\<forall>a\<in>set (actionJSONs t). marshalActionError x a = None)
      \<and> (\<forall>p\<in>set ps. actionMarshals x (h p)))"
proof -
  from actionLoop_success [OF assms] obtain es where
    es: "actionJSONs t' = actionJSONs t @ es" "length es = length ps" and
    each: "\<forall>i<length ps. \<exists>key.
           es ! i = (nameAndEpoch x (clearChannel (foldl clearChannel h (take i ps)) (ps ! i) (ps ! i))
                      (newActionJSON (foldl clearChannel h (take i ps) (ps ! i))))
                    \<lparr>aj_InstanceKey := key\<rparr>"
    by blast
  have one: "(marshalActionError x (es ! i) = None) = actionMarshals x (h (ps ! i))"
    if "i < length ps" for i
  proof -
    define a' where "a' = clearChannel (foldl clearChannel h (take i ps)) (ps ! i) (ps ! i)"
    define a where "a = foldl clearChannel h (take i ps) (ps ! i)"
    from each that obtain key where
      key: "es ! i = (nameAndEpoch x a' (newActionJSON a))\<lparr>aj_InstanceKey := key\<rparr>"
      unfolding a'_def a_def by blast
    have a': "sa_Action a' = sa_Action (h (ps ! i))" "sa_Epoch a' = sa_Epoch (h (ps ! i))"
      by (simp_all add: a'_def foldl_clearChannel_apply clearChannel_apply)
    show ?thesis
      unfolding marshalActionError_def key entry_fields a' actionMarshals_def by simp
  qed
  have "(\<forall>a\<in>set es. marshalActionError x a = None) = (\<forall>i<length es. marshalActionError x (es ! i) = None)"
    by (simp add: all_set_conv_all_nth)
  also have "\<dots> = (\<forall>i<length ps. actionMarshals x (h (ps ! i)))"
    using one es(2) by simp
  also have "\<dots> = (\<forall>p\<in>set ps. actionMarshals x (h p))"
    by (simp add: all_set_conv_all_nth)
  finally show ?thesis unfolding es(1) by auto
qed

lemma snapAction_sent_iff:
  "(\<exists>req. sent (fst (snapAction x w h cs as opts)) = sent w @ [req]) =
     ((\<exists>c. contextLoop x (PrivacyKey opts) noContext cs = Inr c)
      \<and> (\<forall>p\<in>set as. accepted (h p))
      \<and> (\<forall>c\<in>set cs. currentSnapMarshals x c)
      \<and> (\<forall>p\<in>set as. actionMarshals x (h p)))"
proof
  assume "\<exists>req. sent (fst (snapAction x w h cs as opts)) = sent w @ [req]"
  then obtain req c t where c: "contextLoop x (PrivacyKey opts) noContext cs = Inr c"
    and t: "snd (actionLoop x (instanceNameToKey c) h noActions as) = Inr t"
    and r: "buildRequest x opts c t = Inr req"
    unfolding snapAction_sent by blast
  from t obtain h' where l: "actionLoop x (instanceNameToKey c) h noActions as = (h', Inr t)"
    by (cases "actionLoop x (instanceNameToKey c) h noActions as") simp
  then have a: "\<forall>p\<in>set as. accepted (h p)" using actionLoop_accepted by blast
  from r have m: "(\<forall>j\<in>set (curSnapJSONs c). marshalCurrentSnapError x j = None)
    \<and> (\<forall>a\<in>set (actionJSONs t). marshalActionError x a = None)"
    using buildRequest_Inr by blast
  from m have "\<forall>c\<in>set cs. currentSnapMarshals x c"
    unfolding contextLoop_marshals [OF c] by blast
  moreover from m have "\<forall>p\<in>set as. actionMarshals x (h p)"
    unfolding actionLoop_marshals [OF l] by blast
  ultimately show "(\<exists>c. contextLoop x (PrivacyKey opts) noContext cs = Inr c)
      \<and> (\<forall>p\<in>set as. accepted (h p))
      \<and> (\<forall>c\<in>set cs. currentSnapMarshals x c)
      \<and> (\<forall>p\<in>set as. actionMarshals x (h p))"
    using c a by blast
next
  assume a: "(\<exists>c. contextLoop x (PrivacyKey opts) noContext cs = Inr c)
      \<and> (\<forall>p\<in>set as. accepted (h p))
      \<and> (\<forall>c\<in>set cs. currentSnapMarshals x c)
      \<and> (\<forall>p\<in>set as. actionMarshals x (h p))"
  then obtain c where c: "contextLoop x (PrivacyKey opts) noContext cs = Inr c" by blast
  from a have "\<exists>h' t'. actionLoop x (instanceNameToKey c) h noActions as = (h', Inr t')"
    unfolding actionLoop_accepted by blast
  then obtain h' t where l: "actionLoop x (instanceNameToKey c) h noActions as = (h', Inr t)"
    by blast
  have "\<forall>j\<in>set (curSnapJSONs c). marshalCurrentSnapError x j = None"
    unfolding contextLoop_marshals [OF c] using a by (simp add: noContext_def)
  moreover have "\<forall>a\<in>set (actionJSONs t). marshalActionError x a = None"
    unfolding actionLoop_marshals [OF l] using a by (simp add: noActions_def)
  ultimately obtain req where "buildRequest x opts c t = Inr req"
    using buildRequest_Inr by blast
  with c l show "\<exists>req. sent (fst (snapAction x w h cs as opts)) = sent w @ [req]"
    unfolding snapAction_sent by auto
qed

text \<open>
  Claim C9. The two validation flags never make a call fail: a request is handed to the
  transport exactly when the loop over the current snaps goes through, every action
  passes the three checks of its turn (a known action kind, an instance name, no
  instance-key suffix on a download) and \<^verbatim>\<open>json.Marshal\<close> succeeds on the request, which
  depends on the epochs and the refreshed dates alone; none of this reads the flags, so
  a call with other flags hands a request to the transport exactly when this one does.
  In the request, the entry of an action has \<^verbatim>\<open>ignore-validation\<close> true when the ignore
  flag is set, also when the enforce flag is set with it; false when only the enforce flag
  is set; and no such member when neither is set.
\<close>

theorem ignore_validation_tristate:
  fixes x :: "('w, 'e, 's, 'i) externals"
  shows
  "((\<exists>req. sent (fst (snapAction x w h currentSnaps actions opts)) = sent w @ [req]) =
      ((\<exists>c. contextLoop x (PrivacyKey opts) noContext currentSnaps = Inr c)
       \<and> (\<forall>p\<in>set actions. accepted (h p))
       \<and> (\<forall>c\<in>set currentSnaps. currentSnapMarshals x c)
       \<and> (\<forall>p\<in>set actions. actionMarshals x (h p))))
   \<and> ((\<exists>req. sent (fst (snapAction x w (\<lambda>p. (h p)\<lparr>sa_Flags := flags p\<rparr>)
                             currentSnaps actions opts)) = sent w @ [req]) =
       (\<exists>req. sent (fst (snapAction x w h currentSnaps actions opts)) = sent w @ [req]))
   \<and> (sent (fst (snapAction x w h currentSnaps actions opts)) = sent w @ [req]
        \<and> i < length actions \<longrightarrow>
      member (requestActions req ! i) ''ignore-validation'' =
        (if and (sa_Flags (h (actions ! i))) SnapActionIgnoreValidation \<noteq> 0 then Some (JBool True)
         else if and (sa_Flags (h (actions ! i))) SnapActionEnforceValidation \<noteq> 0
              then Some (JBool False)
         else None))"
proof (intro conjI impI)
  show "(\<exists>req. sent (fst (snapAction x w h currentSnaps actions opts)) = sent w @ [req]) =
      ((\<exists>c. contextLoop x (PrivacyKey opts) noContext currentSnaps = Inr c)
       \<and> (\<forall>p\<in>set actions. accepted (h p))
       \<and> (\<forall>c\<in>set currentSnaps. currentSnapMarshals x c)
       \<and> (\<forall>p\<in>set actions. actionMarshals x (h p)))"
    by (rule snapAction_sent_iff)
next
  show "(\<exists>req. sent (fst (snapAction x w (\<lambda>p. (h p)\<lparr>sa_Flags := flags p\<rparr>)
                             currentSnaps actions opts)) = sent w @ [req]) =
       (\<exists>req. sent (fst (snapAction x w h currentSnaps actions opts)) = sent w @ [req])"
    unfolding snapAction_sent_iff by (simp add: accepted_def actionMarshals_def)
next
  assume "sent (fst (snapAction x w h currentSnaps actions opts)) = sent w @ [req]
        \<and> i < length actions"
  then have s: "sent (fst (snapAction x w h currentSnaps actions opts)) = sent w @ [req]"
    and i: "i < length actions" by simp_all
  from sent_entry [OF s i] obtain e where
    "requestActions req ! i = marshalAction e"
    "aj_IgnoreValidation e = ignoreValidationOf (sa_Flags (h (actions ! i)))"
    by blast
  then show "member (requestActions req ! i) ''ignore-validation'' =
        (if and (sa_Flags (h (actions ! i))) SnapActionIgnoreValidation \<noteq> 0 then Some (JBool True)
         else if and (sa_Flags (h (actions ! i))) SnapActionEnforceValidation \<noteq> 0
              then Some (JBool False)
         else None)"
    by (simp add: member_marshalAction ignoreValidationOf_def)
qed

text \<open>A request with three actions: both flags, the enforce flag alone, no flag.\<close>

theorem ignore_validation_tristate_witness:
  "sent (fst (snapAction (scenarioExternals silent) startWorld flaggedActions
             [current ''core'' ''abc'' 10 []] [0, 1, 2] salted))
     = sent startWorld @ [firstRequest (snapAction (scenarioExternals silent) startWorld
             flaggedActions [current ''core'' ''abc'' 10 []] [0, 1, 2] salted)]
   \<and> accepted (flaggedActions 0) \<and> accepted (flaggedActions 1) \<and> accepted (flaggedActions 2)
   \<and> and (sa_Flags (flaggedActions 0)) SnapActionIgnoreValidation \<noteq> 0
   \<and> and (sa_Flags (flaggedActions 0)) SnapActionEnforceValidation \<noteq> 0
   \<and> member (requestActions (firstRequest (snapAction (scenarioExternals silent) startWorld
             flaggedActions [current ''core'' ''abc'' 10 []] [0, 1, 2] salted)) ! 0)
         ''ignore-validation'' = Some (JBool True)
   \<and> member (requestActions (firstRequest (snapAction (scenarioExternals silent) startWorld
             flaggedActions [current ''core'' ''abc'' 10 []] [0, 1, 2] salted)) ! 1)
         ''ignore-validation'' = Some (JBool False)
   \<and> member (requestActions (firstRequest (snapAction (scenarioExternals silent) startWorld
             flaggedActions [current ''core'' ''abc'' 10 []] [0, 1, 2] salted)) ! 2)
         ''ignore-validation'' = None"
proof -
  let ?r = "snapAction (scenarioExternals silent) startWorld flaggedActions
             [current ''core'' ''abc'' 10 []] [0, 1, 2] salted"
  have s: "sent (fst ?r) = sent startWorld @ [firstRequest ?r]" by code_simp
  have a: "accepted (flaggedActions 0)" "accepted (flaggedActions 1)" "accepted (flaggedActions 2)"
    by code_simp+
  have f: "sa_Flags (flaggedActions 0) = 3" "sa_Flags (flaggedActions (Suc 0)) = 2"
    "sa_Flags (flaggedActions 2) = 0"
    by code_simp+
  note T = ignore_validation_tristate [of "scenarioExternals silent" startWorld flaggedActions
      "[current ''core'' ''abc'' 10 []]" "[0, 1, 2]" salted _ "firstRequest ?r",
      THEN conjunct2, THEN conjunct2, rule_format, OF conjI [OF s]]
  have "member (requestActions (firstRequest ?r) ! 0) ''ignore-validation'' = Some (JBool True)"
    using T [of 0] by (simp add: f SnapActionIgnoreValidation_def)
  moreover have "member (requestActions (firstRequest ?r) ! 1) ''ignore-validation'' = Some (JBool False)"
    using T [of 1] by (simp add: f SnapActionIgnoreValidation_def SnapActionEnforceValidation_def)
  moreover have "member (requestActions (firstRequest ?r) ! 2) ''ignore-validation'' = None"
    using T [of 2] by (simp add: f SnapActionIgnoreValidation_def SnapActionEnforceValidation_def)
  moreover have "and (sa_Flags (flaggedActions 0)) SnapActionIgnoreValidation \<noteq> 0"
    "and (sa_Flags (flaggedActions 0)) SnapActionEnforceValidation \<noteq> 0"
    using f by (simp_all add: SnapActionIgnoreValidation_def SnapActionEnforceValidation_def)
  ultimately show ?thesis using s a by simp
qed

text \<open>
  Claim C2, as amended. In the request, the entry of an \<^verbatim>\<open>install\<close> or \<^verbatim>\<open>download\<close>
  action has the member \<^verbatim>\<open>epoch\<close>, null when the action's epoch is zero and the epoch
  otherwise, and it has the member \<^verbatim>\<open>name\<close>, the snap name of the instance name, when
  that snap name is not empty; an empty snap name is left out, as every empty string
  tagged \<^verbatim>\<open>omitempty\<close> is. The entry of a \<^verbatim>\<open>refresh\<close> action has neither member.
\<close>

theorem name_and_epoch_fields:
  fixes x :: "('w, 'e, 's, 'i) externals"
  assumes "sent (fst (snapAction x w h currentSnaps actions opts)) = sent w @ [req]"
    and "i < length actions"
  shows "(sa_Action (h (actions ! i)) = ''install'' \<or> sa_Action (h (actions ! i)) = ''download'' \<longrightarrow>
            member (requestActions req ! i) ''epoch'' =
              Some (if epochIsZero x (sa_Epoch (h (actions ! i))) then JNull
                    else JEpoch (sa_Epoch (h (actions ! i))))
          \<and> member (requestActions req ! i) ''name'' =
              (if InstanceSnap (sa_InstanceName (h (actions ! i))) = [] then None
               else Some (JString (InstanceSnap (sa_InstanceName (h (actions ! i)))))))
       \<and> (sa_Action (h (actions ! i)) = ''refresh'' \<longrightarrow>
            member (requestActions req ! i) ''epoch'' = None
          \<and> member (requestActions req ! i) ''name'' = None)"
proof -
  from sent_entry [OF assms] obtain e where
    "requestActions req ! i = marshalAction e"
    "aj_Name e = (if sa_Action (h (actions ! i)) \<noteq> ''refresh''
                    then InstanceSnap (sa_InstanceName (h (actions ! i))) else [])"
    "aj_Epoch e = (if sa_Action (h (actions ! i)) \<noteq> ''refresh''
                     then (if epochIsZero x (sa_Epoch (h (actions ! i))) then Some None
                           else Some (Some (sa_Epoch (h (actions ! i)))))
                     else None)"
    by blast
  then show ?thesis by (simp add: member_marshalAction)
qed

theorem name_and_epoch_fields_witness:
  "sent (fst (snapAction (scenarioExternals silent) startWorld flaggedActions
             [current ''core'' ''abc'' 10 []] [0, 1, 2] salted))
     = sent startWorld @ [firstRequest (snapAction (scenarioExternals silent) startWorld
             flaggedActions [current ''core'' ''abc'' 10 []] [0, 1, 2] salted)]
   \<and> sa_Action (flaggedActions 0) = ''install''
   \<and> member (requestActions (firstRequest (snapAction (scenarioExternals silent) startWorld
             flaggedActions [current ''core'' ''abc'' 10 []] [0, 1, 2] salted)) ! 0) ''epoch''
       = Some JNull
   \<and> member (requestActions (firstRequest (snapAction (scenarioExternals silent) startWorld
             flaggedActions [current ''core'' ''abc'' 10 []] [0, 1, 2] salted)) ! 0) ''name''
       = Some (JString ''hello'')
   \<and> sa_Action (flaggedActions 2) = ''refresh''
   \<and> member (requestActions (firstRequest (snapAction (scenarioExternals silent) startWorld
             flaggedActions [current ''core'' ''abc'' 10 []] [0, 1, 2] salted)) ! 2) ''epoch''
       = None
   \<and> member (requestActions (firstRequest (snapAction (scenarioExternals silent) startWorld
             flaggedActions [current ''core'' ''abc'' 10 []] [0, 1, 2] salted)) ! 2) ''name''
       = None"
proof -
  let ?r = "snapAction (scenarioExternals silent) startWorld flaggedActions
             [current ''core'' ''abc'' 10 []] [0, 1, 2] salted"
  have s: "sent (fst ?r) = sent startWorld @ [firstRequest ?r]" by code_simp
  have a: "flaggedActions 0 = action ''install'' ''hello'' ''stable'' 0 3"
    "flaggedActions 2 = action ''refresh'' ''core'' [] 0 0"
    by (simp_all add: flaggedActions_def numeral_2_eq_2)
  have z: "epochIsZero (scenarioExternals silent) 0" by (simp add: scenarioExternals_def)
  have n: "InstanceSnap ''hello'' = ''hello''" by (simp add: InstanceSnap_def SplitInstanceName_def)
  note T = name_and_epoch_fields [of "scenarioExternals silent" startWorld flaggedActions
      "[current ''core'' ''abc'' 10 []]" "[0, 1, 2]" salted "firstRequest ?r", OF s]
  show ?thesis using T [of 0] T [of 2] s by (simp add: a action_def z n)
qed

text \<open>
  The claim as first stated asks for the member \<^verbatim>\<open>name\<close> in the entry of every install.
  The install of the instance name \<^verbatim>\<open>_x\<close> passes the checks, and its entry has none.
\<close>

theorem name_key_counterexample:
  "sa_Action (unnamedInstall 0) = ''install''
   \<and> sent (fst (snapAction (scenarioExternals silent) startWorld unnamedInstall [] [0] salted))
     = sent startWorld @ [firstRequest (snapAction (scenarioExternals silent) startWorld
                            unnamedInstall [] [0] salted)]
   \<and> member (requestActions (firstRequest (snapAction (scenarioExternals silent) startWorld
                            unnamedInstall [] [0] salted)) ! 0) ''name'' = None"
  by code_simp

text \<open>
  The channel in the entry of an action is the channel the action holds when the loop
  reaches it, whether its revision is set or not: the channel the call was given, unless
  the same action stands earlier in the slice with a set revision, which has cleared it
  by then. The member is left out only when that channel is empty.
\<close>

lemma entry_channel:
  fixes x :: "('w, 'e, 's, 'i) externals"
  assumes "sent (fst (snapAction x w h currentSnaps actions opts)) = sent w @ [req]"
    and "i < length actions"
  shows "member (requestActions req ! i) ''channel'' =
     (if (actions ! i \<in> set (take i actions) \<and> \<not> Unset (sa_Revision (h (actions ! i))))
         \<or> sa_Channel (h (actions ! i)) = []
      then None else Some (JString (sa_Channel (h (actions ! i)))))"
proof -
  from sent_entry [OF assms] obtain e where
    "requestActions req ! i = marshalAction e"
    "aj_Channel e = (if actions ! i \<in> set (take i actions) \<and> \<not> Unset (sa_Revision (h (actions ! i)))
                       then [] else sa_Channel (h (actions ! i)))"
    by blast
  then show ?thesis by (simp add: member_marshalAction)
qed

text \<open>
  Claim C1. The entry of an action with a set revision should have no \<^verbatim>\<open>channel\<close>
  member, whatever channel the caller gave. The code does otherwise: it copies the channel
  into the entry and clears the channel of the action only afterwards. For one install
  of \<^verbatim>\<open>hello\<close>, pinned to revision 5 and given the channel \<^verbatim>\<open>edge\<close>, with no current snap,
  the one request handed to the transport has the entry of that action with the channel
  \<^verbatim>\<open>edge\<close> beside the revision 5, and the action the caller holds has an empty channel
  after the call.
\<close>

theorem pinned_install_sends_channel:
  "\<not> Unset (sa_Revision (pinnedInstall 0))
   \<and> sa_Channel (pinnedInstall 0) = ''edge''
   \<and> sent (fst (snapAction (scenarioExternals silent) startWorld pinnedInstall [] [0] salted))
     = sent startWorld @ [firstRequest (snapAction (scenarioExternals silent) startWorld
                            pinnedInstall [] [0] salted)]
   \<and> member (requestActions (firstRequest (snapAction (scenarioExternals silent) startWorld
                            pinnedInstall [] [0] salted)) ! 0) ''channel'' = Some (JString ''edge'')
   \<and> member (requestActions (firstRequest (snapAction (scenarioExternals silent) startWorld
                            pinnedInstall [] [0] salted)) ! 0) ''revision'' = Some (JInt 5)
   \<and> sa_Channel (fst (snd (snapAction (scenarioExternals silent) startWorld
                            pinnedInstall [] [0] salted)) 0) = []"
  by code_simp

subsection \<open>The context and the instance keys of refreshes\<close>

lemma contextStep_success:
  assumes "contextStep x salt t c = Inr t1"
  shows "\<exists>k e. genInstanceKey x c salt = Inr k
     \<and> curSnapJSONs t1 = curSnapJSONs t @ [e] \<and> cj_InstanceKey e = k
     \<and> instanceNameToKey t1 = AList.update (cs_InstanceName c) k (instanceNameToKey t)
     \<and> curSnaps t1 = AList.update k c (curSnaps t)"
  using assms
  by (auto simp: contextStep_def Let_def split: if_splits sum.splits)

lemma contextLoop_success:
  assumes "contextLoop x salt t cs = Inr t'"
  shows "(\<forall>c\<in>set cs. genInstanceKey x c salt = Inr (projr (genInstanceKey x c salt)))
     \<and> map cj_InstanceKey (curSnapJSONs t') =
         map cj_InstanceKey (curSnapJSONs t) @ map (\<lambda>c. projr (genInstanceKey x c salt)) cs
     \<and> map_of (instanceNameToKey t') =
         map_of (instanceNameToKey t) ++
         map_of (rev (map (\<lambda>c. (cs_InstanceName c, projr (genInstanceKey x c salt))) cs))
     \<and> map_of (curSnaps t') =
         map_of (curSnaps t) ++
         map_of (rev (map (\<lambda>c. (projr (genInstanceKey x c salt), c)) cs))"
  using assms
proof (induction cs arbitrary: t)
  case Nil
  then show ?case by simp
next
  case (Cons c cs)
  from Cons.prems obtain t1 where
    step: "contextStep x salt t c = Inr t1" and rest: "contextLoop x salt t1 cs = Inr t'"
    by (auto split: sum.splits)
  from contextStep_success [OF step] obtain k e where
    k: "genInstanceKey x c salt = Inr k" and
    j: "curSnapJSONs t1 = curSnapJSONs t @ [e]" "cj_InstanceKey e = k" and
    n: "instanceNameToKey t1 = AList.update (cs_InstanceName c) k (instanceNameToKey t)" and
    m: "curSnaps t1 = AList.update k c (curSnaps t)"
    by blast
  have pk: "projr (genInstanceKey x c salt) = k" using k by simp
  note IH = Cons.IH [OF rest]
  have 1: "\<forall>d\<in>set (c # cs). genInstanceKey x d salt = Inr (projr (genInstanceKey x d salt))"
    using IH k by simp
  have 2: "map cj_InstanceKey (curSnapJSONs t') =
         map cj_InstanceKey (curSnapJSONs t) @ map (\<lambda>c. projr (genInstanceKey x c salt)) (c # cs)"
    using IH j pk by simp
  have 3: "map_of (instanceNameToKey t') =
         map_of (instanceNameToKey t) ++
         map_of (rev (map (\<lambda>c. (cs_InstanceName c, projr (genInstanceKey x c salt))) (c # cs)))"
  proof -
    from IH have "map_of (instanceNameToKey t') = map_of (instanceNameToKey t1) ++
         map_of (rev (map (\<lambda>c. (cs_InstanceName c, projr (genInstanceKey x c salt))) cs))"
      by blast
    also have "map_of (instanceNameToKey t1) = (map_of (instanceNameToKey t))(cs_InstanceName c \<mapsto> k)"
      by (simp add: n update_conv')
    finally show ?thesis
      by (simp add: pk map_add_def fun_eq_iff split: option.splits)
  qed
  have 4: "map_of (curSnaps t') =
         map_of (curSnaps t) ++
         map_of (rev (map (\<lambda>c. (projr (genInstanceKey x c salt), c)) (c # cs)))"
  proof -
    from IH have "map_of (curSnaps t') = map_of (curSnaps t1) ++
         map_of (rev (map (\<lambda>c. (projr (genInstanceKey x c salt), c)) cs))"
      by blast
    also have "map_of (curSnaps t1) = (map_of (curSnaps t))(k \<mapsto> c)"
      by (simp add: m update_conv')
    finally show ?thesis
      by (simp add: pk map_add_def fun_eq_iff split: option.splits)
  qed
  from 1 2 3 4 show ?case by blast
qed

lemma map_of_rev_last:
  assumes "map_of (rev kvs) n = Some k"
  shows "\<exists>j<length kvs. kvs ! j = (n, k) \<and> (\<forall>j'. j < j' \<and> j' < length kvs \<longrightarrow> fst (kvs ! j') \<noteq> n)"
  using assms
proof (induction kvs rule: rev_induct)
  case Nil
  then show ?case by simp
next
  case (snoc kv kvs)
  show ?case
  proof (cases "fst kv = n")
    case True
    then have "kv = (n, k)" using snoc.prems by (cases kv) simp
    then have "(kvs @ [kv]) ! length kvs = (n, k)" by simp
    moreover have "\<forall>j'. length kvs < j' \<and> j' < length (kvs @ [kv]) \<longrightarrow> fst ((kvs @ [kv]) ! j') \<noteq> n"
      by auto
    ultimately show ?thesis by (intro exI [of _ "length kvs"]) simp
  next
    case False
    then have "map_of (rev kvs) n = Some k" using snoc.prems by (cases kv) simp
    from snoc.IH [OF this] obtain j where
      j: "j < length kvs" "kvs ! j = (n, k)"
         "\<forall>j'. j < j' \<and> j' < length kvs \<longrightarrow> fst (kvs ! j') \<noteq> n"
      by blast
    have "\<forall>j'. j < j' \<and> j' < length (kvs @ [kv]) \<longrightarrow> fst ((kvs @ [kv]) ! j') \<noteq> n"
    proof (intro allI impI)
      fix j' assume a: "j < j' \<and> j' < length (kvs @ [kv])"
      show "fst ((kvs @ [kv]) ! j') \<noteq> n"
      proof (cases "j' < length kvs")
        case True
        then show ?thesis using j(3) a by (simp add: nth_append)
      next
        case False
        then have "j' = length kvs" using a by simp
        then show ?thesis using \<open>fst kv \<noteq> n\<close> by simp
      qed
    qed
    moreover have "(kvs @ [kv]) ! j = (n, k)" using j by (simp add: nth_append)
    ultimately show ?thesis using j(1) by (intro exI [of _ j]) simp
  qed
qed

lemma map_of_rev_None:
  "(map_of (rev kvs) n = None) = (n \<notin> fst ` set kvs)"
  by (simp add: map_of_eq_None_iff)

text \<open>
  Claim C8. Take a \<^verbatim>\<open>refresh\<close> action of a call that hands a request to the transport.
  When some current snap has its instance name, the last such current snap has a derived
  instance key, and that key is the \<^verbatim>\<open>instance-key\<close> both of that snap's context entry
  and of the action's entry. When no current snap has its instance name, the entry's key
  is the empty string. In the turn of a refresh the key comes from the lookup by instance
  name alone, and the two counters of installs and downloads stay as they are.
\<close>

theorem refresh_instance_key:
  fixes x :: "('w, 'e, 's, 'i) externals"
  assumes "sent (fst (snapAction x w h currentSnaps actions opts)) = sent w @ [req]"
    and "i < length actions"
    and "sa_Action (h (actions ! i)) = ''refresh''"
  shows "((\<exists>c\<in>set currentSnaps. cs_InstanceName c = sa_InstanceName (h (actions ! i))) \<longrightarrow>
          (\<exists>j k. j < length currentSnaps
             \<and> cs_InstanceName (currentSnaps ! j) = sa_InstanceName (h (actions ! i))
             \<and> (\<forall>j'. j < j' \<and> j' < length currentSnaps \<longrightarrow>
                   cs_InstanceName (currentSnaps ! j') \<noteq> sa_InstanceName (h (actions ! i)))
             \<and> genInstanceKey x (currentSnaps ! j) (PrivacyKey opts) = Inr k
             \<and> member (requestContext req ! j) ''instance-key'' = Some (JString k)
             \<and> member (requestActions req ! i) ''instance-key'' = Some (JString k)))
       \<and> ((\<forall>c\<in>set currentSnaps. cs_InstanceName c \<noteq> sa_InstanceName (h (actions ! i))) \<longrightarrow>
            member (requestActions req ! i) ''instance-key'' = Some (JString []))
       \<and> (assignInstanceKey nameToKey (h (actions ! i)) p t = Inr (key, t') \<longrightarrow>
            key = (case map_of nameToKey (sa_InstanceName (h (actions ! i))) of
                     None \<Rightarrow> [] | Some k \<Rightarrow> k)
            \<and> installNum t' = installNum t \<and> downloadNum t' = downloadNum t)"
proof -
  let ?n = "sa_InstanceName (h (actions ! i))"
  let ?K = "\<lambda>c. projr (genInstanceKey x c (PrivacyKey opts))"
  let ?kvs = "map (\<lambda>c. (cs_InstanceName c, ?K c)) currentSnaps"
  from sent_entry [OF assms(1,2)] assms(3) obtain c e where
    c: "contextLoop x (PrivacyKey opts) noContext currentSnaps = Inr c" and
    rc: "requestContext req = map marshalCurrentSnap (curSnapJSONs c)" and
    e: "requestActions req ! i = marshalAction e" and
    key: "aj_InstanceKey e = (case map_of (instanceNameToKey c) ?n of None \<Rightarrow> [] | Some k \<Rightarrow> k)"
    by blast
  from contextLoop_success [OF c] have
    gen: "\<forall>d\<in>set currentSnaps. genInstanceKey x d (PrivacyKey opts) = Inr (?K d)" and
    keys: "map cj_InstanceKey (curSnapJSONs c) = map ?K currentSnaps" and
    n2k: "map_of (instanceNameToKey c) = map_of (rev ?kvs)"
    by (simp_all add: noContext_def)
  have len: "length (curSnapJSONs c) = length currentSnaps"
    using keys by (metis length_map)
  have first: "(\<exists>d\<in>set currentSnaps. cs_InstanceName d = ?n) \<longrightarrow>
          (\<exists>j k. j < length currentSnaps
             \<and> cs_InstanceName (currentSnaps ! j) = ?n
             \<and> (\<forall>j'. j < j' \<and> j' < length currentSnaps \<longrightarrow>
                   cs_InstanceName (currentSnaps ! j') \<noteq> ?n)
             \<and> genInstanceKey x (currentSnaps ! j) (PrivacyKey opts) = Inr k
             \<and> member (requestContext req ! j) ''instance-key'' = Some (JString k)
             \<and> member (requestActions req ! i) ''instance-key'' = Some (JString k))"
  proof
    assume "\<exists>d\<in>set currentSnaps. cs_InstanceName d = ?n"
    then have "?n \<in> fst ` set ?kvs" by force
    then obtain k where k: "map_of (rev ?kvs) ?n = Some k"
      using map_of_rev_None [of ?kvs ?n] by (cases "map_of (rev ?kvs) ?n") auto
    from map_of_rev_last [OF k] obtain j where
      j: "j < length currentSnaps" "?kvs ! j = (?n, k)"
         "\<forall>j'. j < j' \<and> j' < length ?kvs \<longrightarrow> fst (?kvs ! j') \<noteq> ?n"
      by auto
    have nm: "cs_InstanceName (currentSnaps ! j) = ?n" and kk: "?K (currentSnaps ! j) = k"
      using j(1,2) by simp_all
    have later: "\<forall>j'. j < j' \<and> j' < length currentSnaps \<longrightarrow>
                   cs_InstanceName (currentSnaps ! j') \<noteq> ?n"
      using j(3) by simp
    have g: "genInstanceKey x (currentSnaps ! j) (PrivacyKey opts) = Inr k"
      using gen j(1) kk by (metis nth_mem)
    have "cj_InstanceKey (curSnapJSONs c ! j) = k"
      using keys j(1) kk len by (metis nth_map)
    then have ctx: "member (requestContext req ! j) ''instance-key'' = Some (JString k)"
      using j(1) len by (simp add: rc member_marshalCurrentSnap)
    have act: "member (requestActions req ! i) ''instance-key'' = Some (JString k)"
      by (simp add: e member_marshalAction key n2k k)
    from j(1) nm later g ctx act
    show "\<exists>j k. j < length currentSnaps
             \<and> cs_InstanceName (currentSnaps ! j) = ?n
             \<and> (\<forall>j'. j < j' \<and> j' < length currentSnaps \<longrightarrow>
                   cs_InstanceName (currentSnaps ! j') \<noteq> ?n)
             \<and> genInstanceKey x (currentSnaps ! j) (PrivacyKey opts) = Inr k
             \<and> member (requestContext req ! j) ''instance-key'' = Some (JString k)
             \<and> member (requestActions req ! i) ''instance-key'' = Some (JString k)"
      by blast
  qed
  have second: "(\<forall>d\<in>set currentSnaps. cs_InstanceName d \<noteq> ?n) \<longrightarrow>
            member (requestActions req ! i) ''instance-key'' = Some (JString [])"
  proof
    assume "\<forall>d\<in>set currentSnaps. cs_InstanceName d \<noteq> ?n"
    then have "?n \<notin> fst ` set ?kvs" by force
    then have "map_of (rev ?kvs) ?n = None" by (simp add: map_of_rev_None)
    then show "member (requestActions req ! i) ''instance-key'' = Some (JString [])"
      by (simp add: e member_marshalAction key n2k)
  qed
  have third: "assignInstanceKey nameToKey (h (actions ! i)) p t = Inr (key, t') \<longrightarrow>
            key = (case map_of nameToKey ?n of None \<Rightarrow> [] | Some k \<Rightarrow> k)
            \<and> installNum t' = installNum t \<and> downloadNum t' = downloadNum t"
    using assignInstanceKey_refresh [of nameToKey "h (actions ! i)" p t key t'] assms(3) by simp
  from first second third show ?thesis by blast
qed

text \<open>The two refreshes of the scenario, with two current snaps.\<close>

theorem refresh_instance_key_witness:
  "sent (fst (snapAction (scenarioExternals silent) startWorld refreshPair
             [current ''hello_dev'' ''abc'' 10 [], current ''core'' ''xyz'' 3 []] [0, 1] salted))
     = sent startWorld @ [firstRequest (snapAction (scenarioExternals silent) startWorld refreshPair
             [current ''hello_dev'' ''abc'' 10 [], current ''core'' ''xyz'' 3 []] [0, 1] salted)]
   \<and> sa_Action (refreshPair 0) = ''refresh'' \<and> sa_Action (refreshPair 1) = ''refresh''
   \<and> (\<exists>j k. j < length [current ''hello_dev'' ''abc'' 10 [], current ''core'' ''xyz'' 3 []]
         \<and> cs_InstanceName ([current ''hello_dev'' ''abc'' 10 [], current ''core'' ''xyz'' 3 []] ! j)
             = sa_InstanceName (refreshPair 0)
         \<and> genInstanceKey (scenarioExternals silent)
               ([current ''hello_dev'' ''abc'' 10 [], current ''core'' ''xyz'' 3 []] ! j)
               (PrivacyKey salted) = Inr k
         \<and> member (requestContext (firstRequest (snapAction (scenarioExternals silent) startWorld
               refreshPair [current ''hello_dev'' ''abc'' 10 [], current ''core'' ''xyz'' 3 []]
               [0, 1] salted)) ! j) ''instance-key'' = Some (JString k)
         \<and> member (requestActions (firstRequest (snapAction (scenarioExternals silent) startWorld
               refreshPair [current ''hello_dev'' ''abc'' 10 [], current ''core'' ''xyz'' 3 []]
               [0, 1] salted)) ! 0) ''instance-key'' = Some (JString k))
   \<and> member (requestActions (firstRequest (snapAction (scenarioExternals silent) startWorld
               refreshPair [current ''hello_dev'' ''abc'' 10 [], current ''core'' ''xyz'' 3 []]
               [0, 1] salted)) ! 0) ''instance-key''
         = Some (JString ''abc:b64(sha256(abcdevsalt))'')
   \<and> member (requestActions (firstRequest (snapAction (scenarioExternals silent) startWorld
               refreshPair [current ''hello_dev'' ''abc'' 10 [], current ''core'' ''xyz'' 3 []]
               [0, 1] salted)) ! 1) ''instance-key'' = Some (JString [])"
proof -
  let ?cs = "[current ''hello_dev'' ''abc'' 10 [], current ''core'' ''xyz'' 3 []]"
  let ?r = "snapAction (scenarioExternals silent) startWorld refreshPair ?cs [0, 1] salted"
  have s: "sent (fst ?r) = sent startWorld @ [firstRequest ?r]" by code_simp
  have a: "sa_Action (refreshPair ([0, 1] ! 0)) = ''refresh''"
    "sa_Action (refreshPair ([0, 1] ! 1)) = ''refresh''"
    "sa_Action (refreshPair 0) = ''refresh''" "sa_Action (refreshPair 1) = ''refresh''"
    by code_simp+
  have n: "sa_InstanceName (refreshPair ([0, 1] ! 0)) = ''hello_dev''"
    "sa_InstanceName (refreshPair ([0, 1] ! 1)) = ''ghost''"
    "sa_InstanceName (refreshPair 0) = ''hello_dev''"
    by code_simp+
  have k0: "member (requestActions (firstRequest ?r) ! 0) ''instance-key''
         = Some (JString ''abc:b64(sha256(abcdevsalt))'')" by code_simp
  have here: "\<exists>c\<in>set ?cs. cs_InstanceName c = sa_InstanceName (refreshPair ([0, 1] ! 0))"
    unfolding n by (simp add: current_def)
  have nowhere: "\<forall>c\<in>set ?cs. cs_InstanceName c \<noteq> sa_InstanceName (refreshPair ([0, 1] ! 1))"
    unfolding n by (simp add: current_def)
  note T0 = refresh_instance_key [of "scenarioExternals silent" startWorld refreshPair ?cs "[0, 1]"
      salted "firstRequest ?r" 0, OF s _ a(1), THEN conjunct1, THEN mp, OF _ here]
  note T1 = refresh_instance_key [of "scenarioExternals silent" startWorld refreshPair ?cs "[0, 1]"
      salted "firstRequest ?r" 1, OF s _ a(2), THEN conjunct2, THEN conjunct1, THEN mp, OF _ nowhere]
  have 0: "\<exists>j k. j < length ?cs
         \<and> cs_InstanceName (?cs ! j) = sa_InstanceName (refreshPair 0)
         \<and> genInstanceKey (scenarioExternals silent) (?cs ! j) (PrivacyKey salted) = Inr k
         \<and> member (requestContext (firstRequest ?r) ! j) ''instance-key'' = Some (JString k)
         \<and> member (requestActions (firstRequest ?r) ! 0) ''instance-key'' = Some (JString k)"
    using T0 by auto
  have 1: "member (requestActions (firstRequest ?r) ! 1) ''instance-key'' = Some (JString [])"
    using T1 by simp
  from s a(3,4) 0 k0 1 show ?thesis by blast
qed

subsection \<open>The store of actions after a call\<close>

lemma actionStep_store:
  "actionStep x n2k h t p = (h1, r) \<Longrightarrow> h1 = h \<or> h1 = clearChannel h p"
  by (auto simp: actionStep_def Let_def split: if_splits sum.splits prod.splits)

lemma actionLoop_store:
  "actionLoop x n2k h t ps = (h', r) \<Longrightarrow> \<exists>k\<le>length ps. h' = foldl clearChannel h (take k ps)"
proof (induction ps arbitrary: h t)
  case Nil
  then show ?case by simp
next
  case (Cons p ps)
  obtain h1 r1 where step: "actionStep x n2k h t p = (h1, r1)"
    by (cases "actionStep x n2k h t p") blast
  show ?case
  proof (cases r1)
    case (Inl e)
    then have "h' = h1" using Cons.prems step by simp
    with actionStep_store [OF step] have "h' = foldl clearChannel h (take 0 (p # ps))
        \<or> h' = foldl clearChannel h (take 1 (p # ps))" by auto
    then show ?thesis by (metis One_nat_def le0 length_Cons Suc_le_mono)
  next
    case (Inr t1)
    then have rest: "actionLoop x n2k h1 t1 ps = (h', r)" using Cons.prems step by simp
    have h1: "h1 = clearChannel h p" using actionStep_success step Inr by blast
    from Cons.IH [OF rest] obtain k where "k \<le> length ps" "h' = foldl clearChannel h1 (take k ps)"
      by blast
    then have "Suc k \<le> length (p # ps)" "h' = foldl clearChannel h (take (Suc k) (p # ps))"
      by (simp_all add: h1)
    then show ?thesis by blast
  qed
qed

lemma actionLoop_reached:
  assumes "actionLoop x n2k h t ps = (h', r)"
  shows "\<exists>k\<le>length ps. h' = foldl clearChannel h (take k ps)
           \<and> (\<forall>i<length ps. (\<forall>j\<le>i. accepted (h (ps ! j))) \<longrightarrow> i < k)
           \<and> (\<forall>i<length ps. \<not> accepted (h (ps ! i)) \<longrightarrow> k \<le> Suc i)"
  using assms
proof (induction ps arbitrary: h t)
  case Nil
  then show ?case by simp
next
  case (Cons p ps)
  obtain h1 r1 where step: "actionStep x n2k h t p = (h1, r1)"
    by (cases "actionStep x n2k h t p") blast
  show ?case
  proof (cases r1)
    case (Inl e)
    then have "h' = h1" using Cons.prems step by simp
    with actionStep_store [OF step] have "h' = foldl clearChannel h (take 0 (p # ps))
        \<or> h' = foldl clearChannel h (take 1 (p # ps))" by auto
    moreover have "\<not> accepted (h p)"
      using step Inl actionStep_accepted [of x n2k h t p] by auto
    then have "\<forall>i<length (p # ps). (\<forall>j\<le>i. accepted (h ((p # ps) ! j))) \<longrightarrow> i < k" for k
      by auto
    ultimately have "(0 \<le> length (p # ps) \<and> h' = foldl clearChannel h (take 0 (p # ps))
          \<and> (\<forall>i<length (p # ps). (\<forall>j\<le>i. accepted (h ((p # ps) ! j))) \<longrightarrow> i < 0)
          \<and> (\<forall>i<length (p # ps). \<not> accepted (h ((p # ps) ! i)) \<longrightarrow> 0 \<le> Suc i))
        \<or> (1 \<le> length (p # ps) \<and> h' = foldl clearChannel h (take 1 (p # ps))
          \<and> (\<forall>i<length (p # ps). (\<forall>j\<le>i. accepted (h ((p # ps) ! j))) \<longrightarrow> i < 1)
          \<and> (\<forall>i<length (p # ps). \<not> accepted (h ((p # ps) ! i)) \<longrightarrow> 1 \<le> Suc i))"
      by auto
    then show ?thesis by blast
  next
    case (Inr t1)
    then have rest: "actionLoop x n2k h1 t1 ps = (h', r)" using Cons.prems step by simp
    have h1: "h1 = clearChannel h p" using actionStep_success step Inr by blast
    have acc: "accepted (h p)"
      using step Inr actionStep_accepted [of x n2k h t p] by auto
    from Cons.IH [OF rest] obtain k where k: "k \<le> length ps"
      "h' = foldl clearChannel h1 (take k ps)"
      "\<forall>i<length ps. (\<forall>j\<le>i. accepted (h1 (ps ! j))) \<longrightarrow> i < k"
      "\<forall>i<length ps. \<not> accepted (h1 (ps ! i)) \<longrightarrow> k \<le> Suc i"
      by blast
    have upper: "\<forall>i<length (p # ps). \<not> accepted (h ((p # ps) ! i)) \<longrightarrow> Suc k \<le> Suc i"
    proof (intro allI impI)
      fix i
      assume i: "i < length (p # ps)" and n: "\<not> accepted (h ((p # ps) ! i))"
      then obtain i' where i': "i = Suc i'" using acc by (cases i) auto
      then have "\<not> accepted (h1 (ps ! i'))" using n by (simp add: h1 accepted_clearChannel)
      then have "k \<le> Suc i'" using k(4) i i' by simp
      then show "Suc k \<le> Suc i" using i' by simp
    qed
    have "\<forall>i<length (p # ps). (\<forall>j\<le>i. accepted (h ((p # ps) ! j))) \<longrightarrow> i < Suc k"
    proof (intro allI impI)
      fix i
      assume i: "i < length (p # ps)" and acc: "\<forall>j\<le>i. accepted (h ((p # ps) ! j))"
      show "i < Suc k"
      proof (cases i)
        case 0
        then show ?thesis by simp
      next
        case (Suc i')
        have "\<forall>j\<le>i'. accepted (h1 (ps ! j))"
        proof (intro allI impI)
          fix j
          assume "j \<le> i'"
          then have "accepted (h ((p # ps) ! Suc j))" using acc Suc by auto
          then show "accepted (h1 (ps ! j))" by (simp add: h1 accepted_clearChannel)
        qed
        then have "i' < k" using k(3) i Suc by simp
        then show ?thesis using Suc by simp
      qed
    qed
    moreover have "Suc k \<le> length (p # ps)" "h' = foldl clearChannel h (take (Suc k) (p # ps))"
      using k by (simp_all add: h1)
    ultimately show ?thesis using upper by blast
  qed
qed

lemma snapAction_after_actions:
  assumes "contextLoop x (PrivacyKey opts) noContext cs = Inr c"
    and "actionLoop x (instanceNameToKey c) h noActions as = (h1, r)"
    and "snapAction x w h cs as opts = (w', h', rs, err)"
  shows "h' = h1" and "sent w' \<noteq> sent w \<Longrightarrow> \<exists>t. r = Inr t"
proof -
  show "h' = h1"
  proof (cases r)
    case (Inl e)
    then show ?thesis using assms by (simp add: snapAction_unbuilt)
  next
    case t: (Inr t)
    show ?thesis
    proof (cases "buildRequest x opts c t")
      case (Inl e)
      from snapAction_unbuilt(3) [OF assms(1) assms(2) [unfolded t] Inl, of w]
      show ?thesis using assms(3) by simp
    next
      case (Inr req)
      from snapAction_built [OF assms(1) assms(2) [unfolded t] Inr, of w]
      show ?thesis using assms(3) by auto
    qed
  qed
  assume "sent w' \<noteq> sent w"
  then show "\<exists>t. r = Inr t" using assms by (cases r) (auto simp: snapAction_unbuilt)
qed

lemma snapAction_store:
  assumes "snapAction x w h cs as opts = (w', h', rs, err)"
  shows "\<exists>k\<le>length as. h' = foldl clearChannel h (take k as)"
    and "sent w' \<noteq> sent w \<Longrightarrow> h' = foldl clearChannel h as"
proof -
  show "\<exists>k\<le>length as. h' = foldl clearChannel h (take k as)"
  proof (cases "contextLoop x (PrivacyKey opts) noContext cs")
    case (Inl e)
    then have "h' = h" using assms by (simp add: snapAction_unbuilt)
    then have "h' = foldl clearChannel h (take 0 as)" by simp
    then show ?thesis by blast
  next
    case (Inr c)
    obtain h1 r where l: "actionLoop x (instanceNameToKey c) h noActions as = (h1, r)"
      by (cases "actionLoop x (instanceNameToKey c) h noActions as") blast
    from snapAction_after_actions(1) [OF Inr l assms] actionLoop_store [OF l]
    show ?thesis by simp
  qed
  assume d: "sent w' \<noteq> sent w"
  then have "\<not> (\<exists>e. contextLoop x (PrivacyKey opts) noContext cs = Inl e)"
    using assms by (auto simp: snapAction_unbuilt)
  then obtain c where c: "contextLoop x (PrivacyKey opts) noContext cs = Inr c"
    by (cases "contextLoop x (PrivacyKey opts) noContext cs") auto
  obtain h1 r where l: "actionLoop x (instanceNameToKey c) h noActions as = (h1, r)"
    by (cases "actionLoop x (instanceNameToKey c) h noActions as") blast
  from snapAction_after_actions [OF c l assms] d obtain t where "h' = h1" "r = Inr t"
    by blast
  with actionLoop_success [OF l [unfolded \<open>r = Inr t\<close>]] show "h' = foldl clearChannel h as"
    by simp
qed

lemma snapAction_reached:
  assumes "snapAction x w h cs as opts = (w', h', rs, err)"
    and "contextLoop x (PrivacyKey opts) noContext cs = Inr c"
    and "i < length as" and "\<forall>j\<le>i. accepted (h (as ! j))"
    and "\<not> Unset (sa_Revision (h (as ! i)))"
  shows "h' (as ! i) = (h (as ! i))\<lparr>sa_Channel := []\<rparr>"
proof -
  obtain h1 r where l: "actionLoop x (instanceNameToKey c) h noActions as = (h1, r)"
    by (cases "actionLoop x (instanceNameToKey c) h noActions as") blast
  from actionLoop_reached [OF l] assms(3,4) obtain k where
    k: "h1 = foldl clearChannel h (take k as)" "i < k"
    by blast
  have "as ! i \<in> set (take k as)"
    using k(2) assms(3) by (metis in_set_conv_nth length_take min_less_iff_conj nth_take)
  then show ?thesis
    using snapAction_after_actions(1) [OF assms(2) l assms(1)] assms(5)
    by (simp add: k(1) foldl_clearChannel_apply)
qed

lemma snapAction_prefix:
  assumes "snapAction x w h cs as opts = (w', h', rs, err)"
  shows "\<exists>k\<le>length as. h' = foldl clearChannel h (take k as)
           \<and> (\<forall>i<length as. \<not> accepted (h (as ! i)) \<longrightarrow> k \<le> Suc i)"
proof (cases "contextLoop x (PrivacyKey opts) noContext cs")
  case (Inl e)
  then have "h' = h" using assms by (simp add: snapAction_unbuilt)
  then have "0 \<le> length as \<and> h' = foldl clearChannel h (take 0 as)
           \<and> (\<forall>i<length as. \<not> accepted (h (as ! i)) \<longrightarrow> 0 \<le> Suc i)" by simp
  then show ?thesis by blast
next
  case (Inr c)
  obtain h1 r where l: "actionLoop x (instanceNameToKey c) h noActions as = (h1, r)"
    by (cases "actionLoop x (instanceNameToKey c) h noActions as") blast
  from snapAction_after_actions(1) [OF Inr l assms] actionLoop_reached [OF l]
  show ?thesis by blast
qed

lemma snapAction_error_sent:
  assumes "snapAction x w h cs as opts = (w', h', rs, Some (ActionError saErr))"
  shows "sent w' \<noteq> sent w"
proof (cases "contextLoop x (PrivacyKey opts) noContext cs")
  case (Inl e)
  then show ?thesis using assms by (simp add: snapAction_unbuilt)
next
  case (Inr c)
  obtain h1 r where l: "actionLoop x (instanceNameToKey c) h noActions as = (h1, r)"
    by (cases "actionLoop x (instanceNameToKey c) h noActions as") blast
  show ?thesis
  proof (cases r)
    case (Inl e)
    then show ?thesis using assms Inr l by (simp add: snapAction_unbuilt)
  next
    case t: (Inr t)
    show ?thesis
    proof (cases "buildRequest x opts c t")
      case (Inl e)
      from snapAction_unbuilt(3) [OF Inr l [unfolded t] Inl, of w]
      show ?thesis using assms by simp
    next
      case r: (Inr req)
      from snapAction_built [OF Inr l [unfolded t] r, of w]
      show ?thesis using assms by auto
    qed
  qed
qed

lemma foldl_clearChannel_frame:
  "foldl clearChannel h (take k as) p = h p
   \<or> (p \<in> set as \<and> \<not> Unset (sa_Revision (h p))
       \<and> foldl clearChannel h (take k as) p = (h p)\<lparr>sa_Channel := []\<rparr>)"
  using set_take_subset [of k as] by (auto simp: foldl_clearChannel_apply)

lemma foldl_clearChannel_twice:
  "foldl clearChannel (foldl clearChannel h (take k as)) as = foldl clearChannel h as"
proof
  fix p
  show "foldl clearChannel (foldl clearChannel h (take k as)) as p = foldl clearChannel h as p"
    using set_take_subset [of k as] by (auto simp: foldl_clearChannel_apply)
qed

lemma sent_callRefreshAuth: "sent (callRefreshAuth x w n) = sent w"
  by (simp add: callRefreshAuth_def)

lemma retryLoop_step:
  assumes "callSnapAction x w h cs as opts = (w1, h1, rs, err)"
  shows "retryNeed n err = None \<Longrightarrow> retryLoop x n w h cs as opts = (w1, h1, rs, err)"
    and "retryNeed n err = Some need \<Longrightarrow>
           retryLoop x n w h cs as opts = retryLoop x (n + 1) (callRefreshAuth x w1 need) h1 cs as opts"
  by (subst retryLoop.simps, simp add: assms)+

lemma retryLoop_store:
  assumes "retryLoop x n w h cs as opts = (w', h', rs, err)"
  shows "(\<forall>p. h' p = h p \<or> (p \<in> set as \<and> \<not> Unset (sa_Revision (h p))
                               \<and> h' p = (h p)\<lparr>sa_Channel := []\<rparr>))
       \<and> (sent w' \<noteq> sent w \<longrightarrow> h' = foldl clearChannel h as)"
  using assms
proof (induction x n w h cs as opts rule: retryLoop.induct)
  case (1 x n w h cs as opts)
  obtain w1 h1 rs1 err1 where c: "callSnapAction x w h cs as opts = (w1, h1, rs1, err1)"
    by (cases "callSnapAction x w h cs as opts") auto
  then have sa: "snapAction x (w\<lparr>innerCalls := innerCalls w + 1\<rparr>) h cs as opts = (w1, h1, rs1, err1)"
    by (simp add: callSnapAction_def)
  from snapAction_store [OF sa] obtain k where
    k: "h1 = foldl clearChannel h (take k as)" and
    full: "sent w1 \<noteq> sent w \<Longrightarrow> h1 = foldl clearChannel h as"
    by auto
  have frame1: "\<forall>p. h1 p = h p \<or> (p \<in> set as \<and> \<not> Unset (sa_Revision (h p))
                               \<and> h1 p = (h p)\<lparr>sa_Channel := []\<rparr>)"
    unfolding k using foldl_clearChannel_frame [of h k as] by blast
  show ?case
  proof (cases "retryNeed n err1")
    case None
    from retryLoop_step(1) [OF c None] "1.prems" have "w' = w1" "h' = h1" by simp_all
    then show ?thesis using frame1 full by blast
  next
    case (Some need)
    from retryLoop_step(2) [OF c Some] "1.prems"
    have r: "retryLoop x (n + 1) (callRefreshAuth x w1 need) h1 cs as opts = (w', h', rs, err)"
      by simp
    have "(\<forall>p. h' p = h1 p \<or> (p \<in> set as \<and> \<not> Unset (sa_Revision (h1 p))
                               \<and> h' p = (h1 p)\<lparr>sa_Channel := []\<rparr>))
       \<and> (sent w' \<noteq> sent (callRefreshAuth x w1 need) \<longrightarrow> h' = foldl clearChannel h1 as)"
      using "1.IH" [of "(w1, h1, rs1, err1)" need] c Some r by simp
    then have frame2: "\<forall>p. h' p = h1 p \<or> (p \<in> set as \<and> \<not> Unset (sa_Revision (h1 p))
                               \<and> h' p = (h1 p)\<lparr>sa_Channel := []\<rparr>)"
      and full2: "sent w' \<noteq> sent w1 \<Longrightarrow> h' = foldl clearChannel h1 as"
      by (simp_all add: sent_callRefreshAuth)
    have A: "\<forall>p. h' p = h p \<or> (p \<in> set as \<and> \<not> Unset (sa_Revision (h p))
                               \<and> h' p = (h p)\<lparr>sa_Channel := []\<rparr>)"
    proof
      fix p
      from frame1 frame2 have "h1 p = h p \<or> (p \<in> set as \<and> \<not> Unset (sa_Revision (h p))
                               \<and> h1 p = (h p)\<lparr>sa_Channel := []\<rparr>)"
        "h' p = h1 p \<or> (p \<in> set as \<and> \<not> Unset (sa_Revision (h1 p))
                               \<and> h' p = (h1 p)\<lparr>sa_Channel := []\<rparr>)" by blast+
      then show "h' p = h p \<or> (p \<in> set as \<and> \<not> Unset (sa_Revision (h p))
                               \<and> h' p = (h p)\<lparr>sa_Channel := []\<rparr>)"
        by auto
    qed
    have B: "sent w' \<noteq> sent w \<longrightarrow> h' = foldl clearChannel h as"
    proof
      assume d: "sent w' \<noteq> sent w"
      show "h' = foldl clearChannel h as"
      proof (cases "sent w' = sent w1")
        case False
        from full2 [OF False] show ?thesis by (simp add: k foldl_clearChannel_twice)
      next
        case True
        then have h1: "h1 = foldl clearChannel h as" using full d by simp
        show ?thesis
        proof
          fix p
          from frame2 have "h' p = h1 p \<or> (p \<in> set as \<and> \<not> Unset (sa_Revision (h1 p))
                               \<and> h' p = (h1 p)\<lparr>sa_Channel := []\<rparr>)" by blast
          then have "h' p = h1 p" by (auto simp: h1 foldl_clearChannel_apply)
          then show "h' p = foldl clearChannel h as p" by (simp add: h1)
        qed
      qed
    qed
    from A B show ?thesis by blast
  qed
qed

text \<open>
  Claim C10, as amended. \<open>snapAction\<close> writes to the actions of its caller. The store it
  returns differs from the one it was given at most in the channel of actions of the
  slice with a set revision, cleared to the empty string. The channel of such an action
  is cleared when its turn of the loop over the actions is reached and passes the checks:
  the loop over the current snaps has succeeded, and the action and every action before
  it in the slice is accepted; so every such action is cleared when a request is handed
  to the transport. The turns that write are those of a prefix of the slice, which ends
  with the first action that is not accepted, at the latest. The store \<open>SnapAction\<close>
  returns to its caller differs from the given one in the same way, and has every such
  action cleared when a request was sent. The write carries over. A retry after a refresh
  of authorizations follows a call that sent its request, and runs on the store that call
  left, so its request has no channel for such an action; and the error of a refresh
  recorded for such an action, which is read from the answer to a request, is translated
  with the empty channel, whatever channel the caller gave and whatever the tracking
  channel is.
\<close>

theorem channel_cleared_for_caller:
  fixes x :: "('w, 'e, 's, 'i) externals"
  assumes "snapAction x w h currentSnaps actions opts = (w1, h1, rs1, err1)"
  shows "(\<forall>p. h1 p = h p \<or> (p \<in> set actions \<and> \<not> Unset (sa_Revision (h p))
                               \<and> h1 p = (h p)\<lparr>sa_Channel := []\<rparr>))
    \<and> (\<forall>i<length actions.
          (\<exists>c. contextLoop x (PrivacyKey opts) noContext currentSnaps = Inr c)
          \<and> (\<forall>j\<le>i. accepted (h (actions ! j)))
          \<and> \<not> Unset (sa_Revision (h (actions ! i)))
        \<longrightarrow> h1 (actions ! i) = (h (actions ! i))\<lparr>sa_Channel := []\<rparr>)
    \<and> (\<exists>k\<le>length actions. h1 = foldl clearChannel h (take k actions)
          \<and> (\<forall>i<length actions. \<not> accepted (h (actions ! i)) \<longrightarrow> k \<le> Suc i))
    \<and> (sent w1 \<noteq> sent w \<longrightarrow>
         (\<forall>p\<in>set actions. \<not> Unset (sa_Revision (h p)) \<longrightarrow> h1 p = (h p)\<lparr>sa_Channel := []\<rparr>)
       \<and> (\<forall>w2 req2 i. sent (fst (snapAction x w2 h1 currentSnaps actions opts)) = sent w2 @ [req2]
              \<and> i < length actions \<and> \<not> Unset (sa_Revision (h (actions ! i)))
            \<longrightarrow> member (requestActions req2 ! i) ''channel'' = None)
       \<and> (\<forall>(c :: 'e contextTables) (t :: 'e actionTables) (b :: 'i resultBuckets)
              (res :: 's snapActionResult) cur a. a \<in> set actions \<and> \<not> Unset (sa_Revision (h a))
              \<and> map_of (installs t) (res_InstanceKey res) = None
              \<and> map_of (downloads t) (res_InstanceKey res) = None
              \<and> map_of (curSnaps c) (res_InstanceKey res) = Some cur
              \<and> map_of (refreshes t) (res_InstanceKey res) = Some a
            \<longrightarrow> errorResult x h1 c t b res =
                  b\<lparr>refreshErrors := AList.update (cs_InstanceName cur)
                      (translateSnapActionError x ''refresh'' [] (res_ErrorCode res)
                         (Verbatim (res_ErrorMessage res)) (res_ErrorReleases res))
                      (refreshErrors b)\<rparr>))
    \<and> (\<forall>n w0 need. w = w0\<lparr>innerCalls := innerCalls w0 + 1\<rparr> \<and> retryNeed n err1 = Some need
          \<longrightarrow> sent w1 \<noteq> sent w
            \<and> retryLoop x n w0 h currentSnaps actions opts =
               retryLoop x (n + 1) (callRefreshAuth x w1 need) h1 currentSnaps actions opts)
    \<and> (\<forall>w0 given w' h' rs err. SnapAction x w0 h currentSnaps actions given = (w', h', rs, err)
          \<longrightarrow> (\<forall>p. h' p = h p \<or> (p \<in> set actions \<and> \<not> Unset (sa_Revision (h p))
                               \<and> h' p = (h p)\<lparr>sa_Channel := []\<rparr>))
             \<and> (sent w' \<noteq> sent w0 \<longrightarrow>
                  (\<forall>p\<in>set actions. \<not> Unset (sa_Revision (h p))
                      \<longrightarrow> h' p = (h p)\<lparr>sa_Channel := []\<rparr>)))"
proof -
  from snapAction_store [OF assms] obtain k where
    k: "h1 = foldl clearChannel h (take k actions)" and
    full: "sent w1 \<noteq> sent w \<Longrightarrow> h1 = foldl clearChannel h actions"
    by auto
  have frame: "\<forall>p. h1 p = h p \<or> (p \<in> set actions \<and> \<not> Unset (sa_Revision (h p))
                               \<and> h1 p = (h p)\<lparr>sa_Channel := []\<rparr>)"
    unfolding k using foldl_clearChannel_frame [of h k actions] by blast
  have reached: "\<forall>i<length actions.
          (\<exists>c. contextLoop x (PrivacyKey opts) noContext currentSnaps = Inr c)
          \<and> (\<forall>j\<le>i. accepted (h (actions ! j)))
          \<and> \<not> Unset (sa_Revision (h (actions ! i)))
        \<longrightarrow> h1 (actions ! i) = (h (actions ! i))\<lparr>sa_Channel := []\<rparr>"
    using snapAction_reached [OF assms] by blast
  have prefix: "\<exists>k\<le>length actions. h1 = foldl clearChannel h (take k actions)
          \<and> (\<forall>i<length actions. \<not> accepted (h (actions ! i)) \<longrightarrow> k \<le> Suc i)"
    using snapAction_prefix [OF assms] .
  have built: "sent w1 \<noteq> sent w \<longrightarrow>
         (\<forall>p\<in>set actions. \<not> Unset (sa_Revision (h p)) \<longrightarrow> h1 p = (h p)\<lparr>sa_Channel := []\<rparr>)
       \<and> (\<forall>w2 req2 i. sent (fst (snapAction x w2 h1 currentSnaps actions opts)) = sent w2 @ [req2]
              \<and> i < length actions \<and> \<not> Unset (sa_Revision (h (actions ! i)))
            \<longrightarrow> member (requestActions req2 ! i) ''channel'' = None)
       \<and> (\<forall>(c :: 'e contextTables) (t :: 'e actionTables) (b :: 'i resultBuckets)
              (res :: 's snapActionResult) cur a. a \<in> set actions \<and> \<not> Unset (sa_Revision (h a))
              \<and> map_of (installs t) (res_InstanceKey res) = None
              \<and> map_of (downloads t) (res_InstanceKey res) = None
              \<and> map_of (curSnaps c) (res_InstanceKey res) = Some cur
              \<and> map_of (refreshes t) (res_InstanceKey res) = Some a
            \<longrightarrow> errorResult x h1 c t b res =
                  b\<lparr>refreshErrors := AList.update (cs_InstanceName cur)
                      (translateSnapActionError x ''refresh'' [] (res_ErrorCode res)
                         (Verbatim (res_ErrorMessage res)) (res_ErrorReleases res))
                      (refreshErrors b)\<rparr>)"
  proof
    assume "sent w1 \<noteq> sent w"
    then have h1: "h1 = foldl clearChannel h actions" by (rule full)
    have cleared: "\<forall>p\<in>set actions. \<not> Unset (sa_Revision (h p)) \<longrightarrow> h1 p = (h p)\<lparr>sa_Channel := []\<rparr>"
      by (simp add: h1 foldl_clearChannel_apply)
    have again: "\<forall>w2 req2 i. sent (fst (snapAction x w2 h1 currentSnaps actions opts)) = sent w2 @ [req2]
              \<and> i < length actions \<and> \<not> Unset (sa_Revision (h (actions ! i)))
            \<longrightarrow> member (requestActions req2 ! i) ''channel'' = None"
    proof (intro allI impI)
      fix w2 req2 i
      assume a: "sent (fst (snapAction x w2 h1 currentSnaps actions opts)) = sent w2 @ [req2]
              \<and> i < length actions \<and> \<not> Unset (sa_Revision (h (actions ! i)))"
      then have i: "i < length actions" and s: "sent (fst (snapAction x w2 h1 currentSnaps actions opts)) = sent w2 @ [req2]"
        by simp_all
      from sent_entry [OF s i] obtain e where
        e: "requestActions req2 ! i = marshalAction e"
        "aj_Channel e = (if actions ! i \<in> set (take i actions) \<and> \<not> Unset (sa_Revision (h1 (actions ! i)))
                       then [] else sa_Channel (h1 (actions ! i)))"
        by blast
      have "sa_Channel (h1 (actions ! i)) = []" using cleared a i by simp
      then show "member (requestActions req2 ! i) ''channel'' = None"
        using e by (simp add: member_marshalAction)
    qed
    have errs: "\<forall>(c :: 'e contextTables) (t :: 'e actionTables) (b :: 'i resultBuckets)
              (res :: 's snapActionResult) cur a. a \<in> set actions \<and> \<not> Unset (sa_Revision (h a))
              \<and> map_of (installs t) (res_InstanceKey res) = None
              \<and> map_of (downloads t) (res_InstanceKey res) = None
              \<and> map_of (curSnaps c) (res_InstanceKey res) = Some cur
              \<and> map_of (refreshes t) (res_InstanceKey res) = Some a
            \<longrightarrow> errorResult x h1 c t b res =
                  b\<lparr>refreshErrors := AList.update (cs_InstanceName cur)
                      (translateSnapActionError x ''refresh'' [] (res_ErrorCode res)
                         (Verbatim (res_ErrorMessage res)) (res_ErrorReleases res))
                      (refreshErrors b)\<rparr>"
    proof (intro allI impI)
      fix c :: "'e contextTables" and t :: "'e actionTables" and b :: "'i resultBuckets"
        and res :: "'s snapActionResult" and cur a
      assume a: "a \<in> set actions \<and> \<not> Unset (sa_Revision (h a))
              \<and> map_of (installs t) (res_InstanceKey res) = None
              \<and> map_of (downloads t) (res_InstanceKey res) = None
              \<and> map_of (curSnaps c) (res_InstanceKey res) = Some cur
              \<and> map_of (refreshes t) (res_InstanceKey res) = Some a"
      then have "h1 a = (h a)\<lparr>sa_Channel := []\<rparr>" using cleared by blast
      then have "sa_Channel (h1 a) = []" "\<not> Unset (sa_Revision (h1 a))" using a by simp_all
      then show "errorResult x h1 c t b res =
                  b\<lparr>refreshErrors := AList.update (cs_InstanceName cur)
                      (translateSnapActionError x ''refresh'' [] (res_ErrorCode res)
                         (Verbatim (res_ErrorMessage res)) (res_ErrorReleases res))
                      (refreshErrors b)\<rparr>"
        using a by (simp add: errorResult_def)
    qed
    from cleared again errs show "(\<forall>p\<in>set actions. \<not> Unset (sa_Revision (h p)) \<longrightarrow> h1 p = (h p)\<lparr>sa_Channel := []\<rparr>)
       \<and> (\<forall>w2 req2 i. sent (fst (snapAction x w2 h1 currentSnaps actions opts)) = sent w2 @ [req2]
              \<and> i < length actions \<and> \<not> Unset (sa_Revision (h (actions ! i)))
            \<longrightarrow> member (requestActions req2 ! i) ''channel'' = None)
       \<and> (\<forall>(c :: 'e contextTables) (t :: 'e actionTables) (b :: 'i resultBuckets)
              (res :: 's snapActionResult) cur a. a \<in> set actions \<and> \<not> Unset (sa_Revision (h a))
              \<and> map_of (installs t) (res_InstanceKey res) = None
              \<and> map_of (downloads t) (res_InstanceKey res) = None
              \<and> map_of (curSnaps c) (res_InstanceKey res) = Some cur
              \<and> map_of (refreshes t) (res_InstanceKey res) = Some a
            \<longrightarrow> errorResult x h1 c t b res =
                  b\<lparr>refreshErrors := AList.update (cs_InstanceName cur)
                      (translateSnapActionError x ''refresh'' [] (res_ErrorCode res)
                         (Verbatim (res_ErrorMessage res)) (res_ErrorReleases res))
                      (refreshErrors b)\<rparr>)"
      by blast
  qed
  have retry: "\<forall>n w0 need. w = w0\<lparr>innerCalls := innerCalls w0 + 1\<rparr> \<and> retryNeed n err1 = Some need
          \<longrightarrow> sent w1 \<noteq> sent w
            \<and> retryLoop x n w0 h currentSnaps actions opts =
               retryLoop x (n + 1) (callRefreshAuth x w1 need) h1 currentSnaps actions opts"
  proof (intro allI impI)
    fix n w0 need
    assume a: "w = w0\<lparr>innerCalls := innerCalls w0 + 1\<rparr> \<and> retryNeed n err1 = Some need"
    then have "callSnapAction x w0 h currentSnaps actions opts = (w1, h1, rs1, err1)"
      using assms by (simp add: callSnapAction_def)
    from retryLoop_step(2) [OF this] a
    have "retryLoop x n w0 h currentSnaps actions opts =
               retryLoop x (n + 1) (callRefreshAuth x w1 need) h1 currentSnaps actions opts"
      by blast
    moreover from a obtain saErr where "err1 = Some (ActionError saErr)"
      by (auto simp: retryNeed_def split: option.splits error.splits)
    then have "sent w1 \<noteq> sent w" using snapAction_error_sent assms by blast
    ultimately show "sent w1 \<noteq> sent w
            \<and> retryLoop x n w0 h currentSnaps actions opts =
               retryLoop x (n + 1) (callRefreshAuth x w1 need) h1 currentSnaps actions opts"
      by blast
  qed
  have outer: "\<forall>w0 given w' h' rs err. SnapAction x w0 h currentSnaps actions given = (w', h', rs, err)
          \<longrightarrow> (\<forall>p. h' p = h p \<or> (p \<in> set actions \<and> \<not> Unset (sa_Revision (h p))
                               \<and> h' p = (h p)\<lparr>sa_Channel := []\<rparr>))
             \<and> (sent w' \<noteq> sent w0 \<longrightarrow>
                  (\<forall>p\<in>set actions. \<not> Unset (sa_Revision (h p))
                      \<longrightarrow> h' p = (h p)\<lparr>sa_Channel := []\<rparr>))"
  proof (intro allI impI)
    fix w0 given w' h' rs err
    assume a: "SnapAction x w0 h currentSnaps actions given = (w', h', rs, err)"
    show "(\<forall>p. h' p = h p \<or> (p \<in> set actions \<and> \<not> Unset (sa_Revision (h p))
                               \<and> h' p = (h p)\<lparr>sa_Channel := []\<rparr>))
             \<and> (sent w' \<noteq> sent w0 \<longrightarrow>
                  (\<forall>p\<in>set actions. \<not> Unset (sa_Revision (h p))
                      \<longrightarrow> h' p = (h p)\<lparr>sa_Channel := []\<rparr>))"
    proof (cases "length currentSnaps = 0 \<and> length actions = 0")
      case True
      then have "h' = h" "w' = w0" using a by (simp_all add: SnapAction_def Let_def)
      then show ?thesis by simp
    next
      case False
      then obtain o' where "retryLoop x 0 w0 h currentSnaps actions o' = (w', h', rs, err)"
        using a by (auto simp: SnapAction_def Let_def)
      from retryLoop_store [OF this] show ?thesis
        by (auto simp: foldl_clearChannel_apply)
    qed
  qed
  from frame reached prefix built retry outer show ?thesis by (intro conjI)
qed

text \<open>
  A pinned refresh on the channel edge against the server above: the first request names
  the channel, the retry does not, and the refresh error carries no channel. And a pinned
  install beside a current snap whose refreshed date does not marshal: nothing is sent,
  and the channel of the install is cleared all the same.
\<close>

theorem channel_cleared_for_caller_witness:
  "snapAction (scenarioExternals expiring) startWorld pinnedRefresh [current ''core'' ''abc'' 10 []]
       [0] salted
     = (fst (snapAction (scenarioExternals expiring) startWorld pinnedRefresh
               [current ''core'' ''abc'' 10 []] [0] salted),
        fst (snd (snapAction (scenarioExternals expiring) startWorld pinnedRefresh
               [current ''core'' ''abc'' 10 []] [0] salted)),
        fst (snd (snd (snapAction (scenarioExternals expiring) startWorld pinnedRefresh
               [current ''core'' ''abc'' 10 []] [0] salted))),
        snd (snd (snd (snapAction (scenarioExternals expiring) startWorld pinnedRefresh
               [current ''core'' ''abc'' 10 []] [0] salted))))
   \<and> sent (fst (snapAction (scenarioExternals expiring) startWorld pinnedRefresh
               [current ''core'' ''abc'' 10 []] [0] salted)) \<noteq> sent startWorld
   \<and> \<not> Unset (sa_Revision (pinnedRefresh 0))
   \<and> sa_Channel (pinnedRefresh 0) = ''edge''
   \<and> fst (snd (snapAction (scenarioExternals expiring) startWorld pinnedRefresh
               [current ''core'' ''abc'' 10 []] [0] salted)) 0
       = (pinnedRefresh 0)\<lparr>sa_Channel := []\<rparr>
   \<and> map (\<lambda>r. member (requestActions r ! 0) ''channel'')
         (sent (fst (SnapAction (scenarioExternals expiring) startWorld pinnedRefresh
               [current ''core'' ''abc'' 10 []] [0] (Some salted))))
       = [Some (JString ''edge''), None]
   \<and> snd (snd (snd (SnapAction (scenarioExternals expiring) startWorld pinnedRefresh
               [current ''core'' ''abc'' 10 []] [0] (Some salted))))
       = Some (ActionError \<lparr>NoResults = False,
            Refresh = Some [(''core'', ErrExternal ''refresh//revision-not-found'')],
            Install = None, Download = None, Other = []\<rparr>)
   \<and> sent (fst (snapAction (scenarioExternals silent) startWorld pinnedInstall [undated] [0]
                  salted))
       = sent startWorld
   \<and> snd (snd (snapAction (scenarioExternals silent) startWorld pinnedInstall [undated] [0]
                  salted))
       = ([], Some (PlainError (ErrExternal ''year outside of range [0,9999]'')))
   \<and> fst (snd (snapAction (scenarioExternals silent) startWorld pinnedInstall [undated] [0]
                  salted)) 0
       = (pinnedInstall 0)\<lparr>sa_Channel := []\<rparr>"
proof -
  let ?r = "snapAction (scenarioExternals expiring) startWorld pinnedRefresh
               [current ''core'' ''abc'' 10 []] [0] salted"
  let ?q = "snapAction (scenarioExternals silent) startWorld pinnedInstall [undated] [0] salted"
  have q: "?q = (fst ?q, fst (snd ?q), fst (snd (snd ?q)), snd (snd (snd ?q)))" by simp
  have qs: "sent (fst ?q) = sent startWorld" by code_simp
  have qe: "snd (snd ?q) = ([], Some (PlainError (ErrExternal ''year outside of range [0,9999]'')))"
    by code_simp
  have "contextLoop (scenarioExternals silent) (PrivacyKey salted) noContext [undated]
          = Inr (projr (contextLoop (scenarioExternals silent) (PrivacyKey salted) noContext
                          [undated]))"
    by code_simp
  then have qc: "\<exists>c. contextLoop (scenarioExternals silent) (PrivacyKey salted) noContext [undated]
          = Inr c" ..
  have qa: "accepted (pinnedInstall 0)" "\<not> Unset (sa_Revision (pinnedInstall 0))" by code_simp+
  have qh: "fst (snd ?q) 0 = (pinnedInstall 0)\<lparr>sa_Channel := []\<rparr>"
    using channel_cleared_for_caller [OF q, THEN conjunct2, THEN conjunct1, rule_format, of 0]
      qc qa by simp
  have r: "?r = (fst ?r, fst (snd ?r), fst (snd (snd ?r)), snd (snd (snd ?r)))" by simp
  have s: "sent (fst ?r) \<noteq> sent startWorld" by code_simp
  have p: "\<not> Unset (sa_Revision (pinnedRefresh 0))" "sa_Channel (pinnedRefresh 0) = ''edge''"
    by code_simp+
  note T = channel_cleared_for_caller [OF r, THEN conjunct2, THEN conjunct2, THEN conjunct2,
      THEN conjunct1, THEN mp, OF s, THEN conjunct1]
  have c: "fst (snd ?r) 0 = (pinnedRefresh 0)\<lparr>sa_Channel := []\<rparr>"
    using T p(1) by simp
  have two: "map (\<lambda>r. member (requestActions r ! 0) ''channel'')
         (sent (fst (SnapAction (scenarioExternals expiring) startWorld pinnedRefresh
               [current ''core'' ''abc'' 10 []] [0] (Some salted))))
       = [Some (JString ''edge''), None]"
    by code_simp
  have e: "snd (snd (snd (SnapAction (scenarioExternals expiring) startWorld pinnedRefresh
               [current ''core'' ''abc'' 10 []] [0] (Some salted))))
       = Some (ActionError \<lparr>NoResults = False,
            Refresh = Some [(''core'', ErrExternal ''refresh//revision-not-found'')],
            Install = None, Download = None, Other = []\<rparr>)"
    by code_simp
  from r s p c two e qs qe qh show ?thesis by blast
qed

text \<open>
  The claim as first stated has the channel of every action with a set revision cleared.
  A call that stops at an earlier action does not reach it: after a call with an action of
  an unknown kind and then a pinned install on the channel edge, the install still has
  its channel.
\<close>

theorem pinned_channel_kept_counterexample:
  "\<not> Unset (sa_Revision (abortedActions 1))
   \<and> sa_Channel (abortedActions 1) = ''edge''
   \<and> snd (snd (snapAction (scenarioExternals silent) startWorld abortedActions [] [0, 1] salted))
       = ([], Some (PlainError (ErrUnsupportedAction ''remove'')))
   \<and> sa_Channel (fst (snd (snapAction (scenarioExternals silent) startWorld abortedActions []
                               [0, 1] salted)) 1) = ''edge''"
  by code_simp

subsection \<open>The retries after a refresh of authorizations\<close>

lemma snapAction_world:
  assumes "snapAction x w h cs as opts = (w', h', rs, err)"
  shows "innerCalls w' = innerCalls w \<and> authRefreshed w' = authRefreshed w
     \<and> length (sent w') \<le> length (sent w) + 1"
proof (cases "contextLoop x (PrivacyKey opts) noContext cs")
  case (Inl e)
  then show ?thesis using assms by (simp add: snapAction_unbuilt)
next
  case (Inr c)
  obtain h1 r where l: "actionLoop x (instanceNameToKey c) h noActions as = (h1, r)"
    by (cases "actionLoop x (instanceNameToKey c) h noActions as") blast
  show ?thesis
  proof (cases r)
    case (Inl e)
    then show ?thesis using assms Inr l by (simp add: snapAction_unbuilt)
  next
    case t: (Inr t)
    show ?thesis
    proof (cases "buildRequest x opts c t")
      case (Inl e)
      from snapAction_unbuilt(3) [OF Inr l [unfolded t] Inl, of w]
      show ?thesis using assms by simp
    next
      case r: (Inr req)
      from snapAction_built [OF Inr l [unfolded t] r, of w] show ?thesis using assms by auto
    qed
  qed
qed

lemma scanOther_eq:
  "scanOther rn es =
     \<lparr>need_device = (need_device rn \<or> errDeviceAuthorizationNeedsRefresh \<in> set es),
      need_user = (need_user rn \<or> errUserAuthorizationNeedsRefresh \<in> set es)\<rparr>"
  by (induction es arbitrary: rn) auto

lemma retryNeed_Some:
  "(retryNeed n err = Some need) =
     (n < 2 \<and> (\<exists>saErr. err = Some (ActionError saErr)
        \<and> (errUserAuthorizationNeedsRefresh \<in> set (Other saErr)
             \<or> errDeviceAuthorizationNeedsRefresh \<in> set (Other saErr))
        \<and> need = \<lparr>need_device = (errDeviceAuthorizationNeedsRefresh \<in> set (Other saErr)),
                    need_user = (errUserAuthorizationNeedsRefresh \<in> set (Other saErr))\<rparr>))"
  by (auto simp: retryNeed_def scanOther_eq needed_def Let_def split: option.splits error.splits)

lemma world_callRefreshAuth:
  "innerCalls (callRefreshAuth x w n) = innerCalls w"
  "authRefreshed (callRefreshAuth x w n) = authRefreshed w @ [n]"
  by (simp_all add: callRefreshAuth_def)

lemma retryLoop_bounds:
  assumes "retryLoop x n w h cs as opts = (w', h', rs, err)"
  shows "\<exists>k\<le>2 - n. innerCalls w' = innerCalls w + Suc k
     \<and> length (authRefreshed w') = length (authRefreshed w) + k
     \<and> length (sent w') \<le> length (sent w) + Suc k"
  using assms
proof (induction x n w h cs as opts rule: retryLoop.induct)
  case (1 x n w h cs as opts)
  obtain w1 h1 rs1 err1 where c: "callSnapAction x w h cs as opts = (w1, h1, rs1, err1)"
    by (cases "callSnapAction x w h cs as opts") auto
  then have sa: "snapAction x (w\<lparr>innerCalls := innerCalls w + 1\<rparr>) h cs as opts = (w1, h1, rs1, err1)"
    by (simp add: callSnapAction_def)
  from snapAction_world [OF sa] have
    w1: "innerCalls w1 = innerCalls w + 1" "authRefreshed w1 = authRefreshed w"
        "length (sent w1) \<le> length (sent w) + 1"
    by simp_all
  show ?case
  proof (cases "retryNeed n err1")
    case None
    from retryLoop_step(1) [OF c None] "1.prems" have "w' = w1" by simp
    then show ?thesis using w1 by (intro exI [of _ 0]) simp
  next
    case (Some need)
    then have n: "n < 2" unfolding retryNeed_Some by blast
    from retryLoop_step(2) [OF c Some] "1.prems"
    have r: "retryLoop x (n + 1) (callRefreshAuth x w1 need) h1 cs as opts = (w', h', rs, err)"
      by simp
    have "\<exists>k\<le>2 - (n + 1). innerCalls w' = innerCalls (callRefreshAuth x w1 need) + Suc k
     \<and> length (authRefreshed w') = length (authRefreshed (callRefreshAuth x w1 need)) + k
     \<and> length (sent w') \<le> length (sent (callRefreshAuth x w1 need)) + Suc k"
      using "1.IH" [of "(w1, h1, rs1, err1)" need] c Some r by simp
    then obtain k where k: "k \<le> 2 - (n + 1)"
      "innerCalls w' = innerCalls (callRefreshAuth x w1 need) + Suc k"
      "length (authRefreshed w') = length (authRefreshed (callRefreshAuth x w1 need)) + k"
      "length (sent w') \<le> length (sent (callRefreshAuth x w1 need)) + Suc k"
      by blast
    have "Suc k \<le> 2 - n" using k(1) n by linarith
    moreover have "innerCalls w' = innerCalls w + Suc (Suc k)"
      using k(2) w1(1) by (simp add: world_callRefreshAuth)
    moreover have "length (authRefreshed w') = length (authRefreshed w) + Suc k"
      using k(3) w1(2) by (simp add: world_callRefreshAuth)
    moreover have "length (sent w') \<le> length (sent w) + Suc (Suc k)"
      using k(4) w1(3) by (simp add: sent_callRefreshAuth)
    ultimately show ?thesis by blast
  qed
qed

lemma update_genInstanceKey:
  "genInstanceKey (x\<lparr>refreshAuth := f\<rparr>) c salt = genInstanceKey x c salt"
  by (simp add: genInstanceKey_def Let_def)

lemma update_contextStep:
  "contextStep (x\<lparr>refreshAuth := f\<rparr>) salt t c = contextStep x salt t c"
  by (simp add: contextStep_def update_genInstanceKey)

lemma update_contextLoop:
  "contextLoop (x\<lparr>refreshAuth := f\<rparr>) salt t cs = contextLoop x salt t cs"
  by (induction cs arbitrary: t) (simp_all add: update_contextStep cong: sum.case_cong)

lemma update_nameAndEpoch:
  "nameAndEpoch (x\<lparr>refreshAuth := f\<rparr>) a j = nameAndEpoch x a j"
  by (simp add: nameAndEpoch_def)

lemma update_actionStep:
  "actionStep (x\<lparr>refreshAuth := f\<rparr>) n2k h t p = actionStep x n2k h t p"
  by (simp add: actionStep_def update_nameAndEpoch Let_def
        cong: sum.case_cong prod.case_cong if_cong)

lemma update_actionLoop:
  "actionLoop (x\<lparr>refreshAuth := f\<rparr>) n2k h t ps = actionLoop x n2k h t ps"
  by (induction ps arbitrary: h t)
     (simp_all add: update_actionStep cong: sum.case_cong prod.case_cong)

lemma update_appendOther:
  "appendOther (x\<lparr>refreshAuth := f\<rparr>) b r = appendOther x b r"
  by (simp add: appendOther_def)

lemma update_errorResult:
  "errorResult (x\<lparr>refreshAuth := f\<rparr>) h c t b r = errorResult x h c t b r"
  by (simp add: errorResult_def update_appendOther Let_def cong: option.case_cong if_cong)

lemma update_successResult:
  "successResult (x\<lparr>refreshAuth := f\<rparr>) h c t b r = successResult x h c t b r"
  by (simp add: successResult_def Let_def cong: option.case_cong sum.case_cong if_cong)

lemma update_resultLoop:
  "resultLoop (x\<lparr>refreshAuth := f\<rparr>) h c t b rs = resultLoop x h c t b rs"
  by (induction rs arbitrary: b)
     (simp_all add: resultStep_def update_errorResult update_successResult cong: sum.case_cong)

lemma update_assemble:
  "assemble (x\<lparr>refreshAuth := f\<rparr>) rl b = assemble x rl b"
  by (simp add: assemble_def errorListErrors_def)

lemma update_jsonMarshal:
  "jsonMarshal (x\<lparr>refreshAuth := f\<rparr>) r = jsonMarshal x r"
proof -
  have "marshalCurrentSnapError (x\<lparr>refreshAuth := f\<rparr>) = marshalCurrentSnapError x"
    "marshalActionError (x\<lparr>refreshAuth := f\<rparr>) = marshalActionError x"
    by (simp_all add: fun_eq_iff marshalCurrentSnapError_def marshalActionError_def
          cong: option.case_cong)
  then show ?thesis by (simp add: jsonMarshal_def)
qed

lemma update_buildRequest:
  "buildRequest (x\<lparr>refreshAuth := f\<rparr>) opts c t = buildRequest x opts c t"
  by (simp add: buildRequest_def update_jsonMarshal Let_def cong: sum.case_cong if_cong)

lemma update_transport:
  "transport (x\<lparr>refreshAuth := f\<rparr>) w r = transport x w r"
  by (simp add: transport_def)

lemma update_snapAction:
  "snapAction (x\<lparr>refreshAuth := f\<rparr>) w h cs as opts = snapAction x w h cs as opts"
  by (simp add: snapAction_def update_transport update_buildRequest update_assemble
        update_contextLoop update_actionLoop update_resultLoop Let_def
        cong: sum.case_cong prod.case_cong if_cong)

lemma update_retryLoop:
  assumes "\<forall>s need. fst (f s need) = fst (refreshAuth x s need)"
  shows "retryLoop (x\<lparr>refreshAuth := f\<rparr>) n w h cs as opts = retryLoop x n w h cs as opts"
  using assms
proof (induction x n w h cs as opts rule: retryLoop.induct)
  case (1 x n w h cs as opts)
  obtain w1 h1 rs1 err1 where c: "callSnapAction x w h cs as opts = (w1, h1, rs1, err1)"
    by (cases "callSnapAction x w h cs as opts") auto
  then have c': "callSnapAction (x\<lparr>refreshAuth := f\<rparr>) w h cs as opts = (w1, h1, rs1, err1)"
    by (simp add: callSnapAction_def update_snapAction)
  show ?case
  proof (cases "retryNeed n err1")
    case None
    from retryLoop_step(1) [OF c None] retryLoop_step(1) [OF c' None] show ?thesis by simp
  next
    case (Some need)
    have same: "callRefreshAuth (x\<lparr>refreshAuth := f\<rparr>) w1 need = callRefreshAuth x w1 need"
      using "1.prems" by (simp add: callRefreshAuth_def)
    have "retryLoop (x\<lparr>refreshAuth := f\<rparr>) (n + 1) (callRefreshAuth x w1 need) h1 cs as opts
        = retryLoop x (n + 1) (callRefreshAuth x w1 need) h1 cs as opts"
      using "1.IH" [of "(w1, h1, rs1, err1)" need] c Some "1.prems" by simp
    with retryLoop_step(2) [OF c Some] retryLoop_step(2) [OF c' Some] same
    show ?thesis by simp
  qed
qed

text \<open>
  Claim C5. The loop of \<open>SnapAction\<close> ends, whatever the calls of \<open>snapAction\<close> return: the
  model of the loop is a total function whose recursion descends on \<open>2 - authRefreshes\<close>,
  and a call of \<open>SnapAction\<close> makes at most 3 calls of \<open>snapAction\<close> and at most 2 refreshes
  of authorizations (started with \<open>n\<close> retries behind it, the loop makes \<open>k\<close> refreshes and
  \<open>k + 1\<close> calls for some \<open>k \<le> 2 - n\<close>). The loop goes round again exactly when the call
  returned a \<open>SnapActionError\<close> whose \<open>Other\<close> holds one of the two sentinels and fewer than
  2 retries are behind it; it then refreshes the axes the sentinels name and calls again,
  on the store and the world the call left. In every other case it returns what the call
  returned. What error the refresh of authorizations returns has no effect on the result.
\<close>

theorem auth_refresh_retries_bounded:
  fixes x :: "('w, 'e, 's, 'i) externals"
  shows
  "(SnapAction x w h currentSnaps actions given = (w', h', rs, err) \<longrightarrow>
      innerCalls w' \<le> innerCalls w + 3
      \<and> length (authRefreshed w') \<le> length (authRefreshed w) + 2
      \<and> length (sent w') \<le> length (sent w) + 3)
   \<and> (retryLoop x n w h currentSnaps actions opts = (w', h', rs, err) \<longrightarrow>
        (\<exists>k\<le>2 - n. innerCalls w' = innerCalls w + Suc k
           \<and> length (authRefreshed w') = length (authRefreshed w) + k))
   \<and> (callSnapAction x w h currentSnaps actions opts = (w1, h1, rs1, Some (ActionError saErr))
        \<and> n < 2
        \<and> (errUserAuthorizationNeedsRefresh \<in> set (Other saErr)
            \<or> errDeviceAuthorizationNeedsRefresh \<in> set (Other saErr)) \<longrightarrow>
        retryLoop x n w h currentSnaps actions opts =
          retryLoop x (n + 1)
            (callRefreshAuth x w1
               \<lparr>need_device = (errDeviceAuthorizationNeedsRefresh \<in> set (Other saErr)),
                need_user = (errUserAuthorizationNeedsRefresh \<in> set (Other saErr))\<rparr>)
            h1 currentSnaps actions opts)
   \<and> (callSnapAction x w h currentSnaps actions opts = (w1, h1, rs1, err1)
        \<and> \<not> (n < 2 \<and> (\<exists>e. err1 = Some (ActionError e)
                \<and> (errUserAuthorizationNeedsRefresh \<in> set (Other e)
                    \<or> errDeviceAuthorizationNeedsRefresh \<in> set (Other e)))) \<longrightarrow>
        retryLoop x n w h currentSnaps actions opts = (w1, h1, rs1, err1))
   \<and> ((\<forall>s need. fst (f s need) = fst (refreshAuth x s need)) \<longrightarrow>
        SnapAction (x\<lparr>refreshAuth := f\<rparr>) w h currentSnaps actions given
          = SnapAction x w h currentSnaps actions given)"
proof -
  have loop: "retryLoop x n w h currentSnaps actions opts = (w', h', rs, err) \<longrightarrow>
        (\<exists>k\<le>2 - n. innerCalls w' = innerCalls w + Suc k
           \<and> length (authRefreshed w') = length (authRefreshed w) + k)"
    using retryLoop_bounds [of x n w h currentSnaps actions opts w' h' rs err] by blast
  have outer: "SnapAction x w h currentSnaps actions given = (w', h', rs, err) \<longrightarrow>
      innerCalls w' \<le> innerCalls w + 3
      \<and> length (authRefreshed w') \<le> length (authRefreshed w) + 2
      \<and> length (sent w') \<le> length (sent w) + 3"
  proof
    assume a: "SnapAction x w h currentSnaps actions given = (w', h', rs, err)"
    show "innerCalls w' \<le> innerCalls w + 3
      \<and> length (authRefreshed w') \<le> length (authRefreshed w) + 2
      \<and> length (sent w') \<le> length (sent w) + 3"
    proof (cases "length currentSnaps = 0 \<and> length actions = 0")
      case True
      then have "w' = w" using a by (simp add: SnapAction_def Let_def)
      then show ?thesis by simp
    next
      case False
      then obtain o' where "retryLoop x 0 w h currentSnaps actions o' = (w', h', rs, err)"
        using a by (auto simp: SnapAction_def Let_def)
      from retryLoop_bounds [OF this] show ?thesis by auto
    qed
  qed
  have again: "callSnapAction x w h currentSnaps actions opts = (w1, h1, rs1, Some (ActionError saErr))
        \<and> n < 2
        \<and> (errUserAuthorizationNeedsRefresh \<in> set (Other saErr)
            \<or> errDeviceAuthorizationNeedsRefresh \<in> set (Other saErr)) \<longrightarrow>
        retryLoop x n w h currentSnaps actions opts =
          retryLoop x (n + 1)
            (callRefreshAuth x w1
               \<lparr>need_device = (errDeviceAuthorizationNeedsRefresh \<in> set (Other saErr)),
                need_user = (errUserAuthorizationNeedsRefresh \<in> set (Other saErr))\<rparr>)
            h1 currentSnaps actions opts"
  proof
    assume a: "callSnapAction x w h currentSnaps actions opts = (w1, h1, rs1, Some (ActionError saErr))
        \<and> n < 2
        \<and> (errUserAuthorizationNeedsRefresh \<in> set (Other saErr)
            \<or> errDeviceAuthorizationNeedsRefresh \<in> set (Other saErr))"
    then have "retryNeed n (Some (ActionError saErr)) =
        Some \<lparr>need_device = (errDeviceAuthorizationNeedsRefresh \<in> set (Other saErr)),
                need_user = (errUserAuthorizationNeedsRefresh \<in> set (Other saErr))\<rparr>"
      unfolding retryNeed_Some by simp
    with a retryLoop_step(2) show "retryLoop x n w h currentSnaps actions opts =
          retryLoop x (n + 1)
            (callRefreshAuth x w1
               \<lparr>need_device = (errDeviceAuthorizationNeedsRefresh \<in> set (Other saErr)),
                need_user = (errUserAuthorizationNeedsRefresh \<in> set (Other saErr))\<rparr>)
            h1 currentSnaps actions opts"
      by blast
  qed
  have stop: "callSnapAction x w h currentSnaps actions opts = (w1, h1, rs1, err1)
        \<and> \<not> (n < 2 \<and> (\<exists>e. err1 = Some (ActionError e)
                \<and> (errUserAuthorizationNeedsRefresh \<in> set (Other e)
                    \<or> errDeviceAuthorizationNeedsRefresh \<in> set (Other e)))) \<longrightarrow>
        retryLoop x n w h currentSnaps actions opts = (w1, h1, rs1, err1)"
  proof
    assume a: "callSnapAction x w h currentSnaps actions opts = (w1, h1, rs1, err1)
        \<and> \<not> (n < 2 \<and> (\<exists>e. err1 = Some (ActionError e)
                \<and> (errUserAuthorizationNeedsRefresh \<in> set (Other e)
                    \<or> errDeviceAuthorizationNeedsRefresh \<in> set (Other e))))"
    then have "retryNeed n err1 = None"
      using retryNeed_Some [of n err1] by (cases "retryNeed n err1") auto
    with a retryLoop_step(1) show "retryLoop x n w h currentSnaps actions opts = (w1, h1, rs1, err1)"
      by blast
  qed
  have best_effort: "(\<forall>s need. fst (f s need) = fst (refreshAuth x s need)) \<longrightarrow>
        SnapAction (x\<lparr>refreshAuth := f\<rparr>) w h currentSnaps actions given
          = SnapAction x w h currentSnaps actions given"
    by (simp add: SnapAction_def update_retryLoop)
  from outer loop again stop best_effort show ?thesis by blast
qed

text \<open>
  Against a server that always answers with both sentinels, and with a refresh of
  authorizations that fails every time: three calls, two refreshes, and the error of the
  third call is returned.
\<close>

theorem auth_refresh_retries_bounded_witness:
  "SnapAction (scenarioExternals alwaysExpired) startWorld pinnedInstall [] [0] None
     = (fst (SnapAction (scenarioExternals alwaysExpired) startWorld pinnedInstall [] [0] None),
        fst (snd (SnapAction (scenarioExternals alwaysExpired) startWorld pinnedInstall [] [0] None)),
        fst (snd (snd (SnapAction (scenarioExternals alwaysExpired) startWorld pinnedInstall [] [0]
               None))),
        snd (snd (snd (SnapAction (scenarioExternals alwaysExpired) startWorld pinnedInstall [] [0]
               None))))
   \<and> innerCalls (fst (SnapAction (scenarioExternals alwaysExpired) startWorld pinnedInstall [] [0]
         None)) \<le> innerCalls startWorld + 3
   \<and> length (authRefreshed (fst (SnapAction (scenarioExternals alwaysExpired) startWorld
         pinnedInstall [] [0] None))) \<le> length (authRefreshed startWorld) + 2
   \<and> innerCalls (fst (SnapAction (scenarioExternals alwaysExpired) startWorld pinnedInstall [] [0]
         None)) = 3
   \<and> authRefreshed (fst (SnapAction (scenarioExternals alwaysExpired) startWorld pinnedInstall []
         [0] None))
       = [\<lparr>need_device = True, need_user = True\<rparr>, \<lparr>need_device = True, need_user = True\<rparr>]
   \<and> snd (snd (snd (SnapAction (scenarioExternals alwaysExpired) startWorld pinnedInstall [] [0]
         None)))
       = Some (ActionError \<lparr>NoResults = False, Refresh = None, Install = None, Download = None,
           Other = [errUserAuthorizationNeedsRefresh, errDeviceAuthorizationNeedsRefresh]\<rparr>)"
proof -
  let ?r = "SnapAction (scenarioExternals alwaysExpired) startWorld pinnedInstall [] [0] None"
  have r: "?r = (fst ?r, fst (snd ?r), fst (snd (snd ?r)), snd (snd (snd ?r)))" by simp
  note T = auth_refresh_retries_bounded [THEN conjunct1, THEN mp, OF r]
  have b: "innerCalls (fst ?r) \<le> innerCalls startWorld + 3"
    "length (authRefreshed (fst ?r)) \<le> length (authRefreshed startWorld) + 2"
    using T by simp_all
  have v: "innerCalls (fst ?r) = 3"
    "authRefreshed (fst ?r)
       = [\<lparr>need_device = True, need_user = True\<rparr>, \<lparr>need_device = True, need_user = True\<rparr>]"
    "snd (snd (snd ?r))
       = Some (ActionError \<lparr>NoResults = False, Refresh = None, Install = None, Download = None,
           Other = [errUserAuthorizationNeedsRefresh, errDeviceAuthorizationNeedsRefresh]\<rparr>)"
    by code_simp+
  from r b v show ?thesis by blast
qed

subsection \<open>The results and the composite error\<close>

lemma snapAction_answered:
  assumes "contextLoop x (PrivacyKey opts) noContext cs = Inr c"
    and "actionLoop x (instanceNameToKey c) h noActions as = (h1, Inr t)"
    and "buildRequest x opts c t = Inr req"
    and "retryRequestDecodeJSON x (outside w) req = (s1, Inr (resp, results))"
    and "StatusCode resp = 200"
  shows "snapAction x w h cs as opts =
     (case resultLoop x h1 c t noBuckets (Results results) of
        Inl e \<Rightarrow> (w\<lparr>sent := sent w @ [req],
                      outside := extractSuggestedCurrency x s1 resp\<rparr>,
                   h1, [], Some (PlainError e))
      | Inr b \<Rightarrow> (w\<lparr>sent := sent w @ [req],
                      outside := extractSuggestedCurrency x s1 resp\<rparr>,
                   h1, fst (assemble x results b), snd (assemble x results b)))"
  using assms by (simp add: snapAction_def transport_def failWith_def Let_def split: sum.splits)




lemma resultStep_errors:
  "resultStep x h c t b res = Inl e \<Longrightarrow>
   e = ErrUnexpectedRefresh \<or> (\<exists>d. e = ErrInvalidResult d) \<or> (\<exists>k. e = ErrUnexpectedInstanceKey k)"
  by (auto simp: resultStep_def successResult_def appendResult_def Let_def
           split: if_splits sum.splits option.splits)


lemma resultLoop_fails:
  assumes "res \<in> set rs" and "\<forall>b. \<exists>e. resultStep x h c t b res = Inl e"
  shows "\<exists>e. resultLoop x h c t b rs = Inl e
     \<and> (e = ErrUnexpectedRefresh \<or> (\<exists>d. e = ErrInvalidResult d)
         \<or> (\<exists>k. e = ErrUnexpectedInstanceKey k))"
  using assms(1)
proof (induction rs arbitrary: b)
  case Nil
  then show ?case by simp
next
  case (Cons r rs)
  show ?case
  proof (cases "resultStep x h c t b r")
    case (Inl e)
    with resultStep_errors [OF Inl] show ?thesis by simp
  next
    case (Inr b')
    then have "res \<noteq> r" using assms(2) by (metis sum.distinct(1))
    then have "res \<in> set rs" using Cons.prems by simp
    from Cons.IH [OF this, of b'] show ?thesis using Inr by simp
  qed
qed

lemma findRev_set: "findRev needle haystack = (needle \<in> set haystack)"
  by (induction haystack) auto




text \<open>
  Claim C6, as amended. Take a result of kind \<^verbatim>\<open>refresh\<close>. Its snap is decoded first, and
  when it does not decode the turn ends in the error of an invalid result, whatever its
  revision is. When it decodes and the instance key is the key of a current snap, and the
  revision is the snap's current revision or one of its blocked revisions, the turn
  appends no success and sets the refresh error of the snap's instance name to
  \<open>ErrNoUpdateAvailable\<close>. When the instance key is the key of no current snap the turn
  ends in an error. And a call whose request was answered with status 200 by results
  that hold a refresh whose snap does not decode, or whose key is the key of no current
  snap, returns no results and one of the errors of an invalid result.
\<close>

theorem refresh_without_update:
  fixes x :: "('w, 'e, 's, 'i) externals"
  assumes "res_Result res = ''refresh''"
  shows
   "(map_of (curSnaps c) (res_InstanceKey res) = Some cur
       \<and> infoFromStoreSnap x (res_Snap res) = Inr decoded
       \<and> (R (ss_Revision (res_Snap res)) = cs_Revision cur
           \<or> R (ss_Revision (res_Snap res)) \<in> set (cs_Block cur)) \<longrightarrow>
       (\<exists>b'. resultStep x h c t b res = Inr b'
          \<and> b' = b\<lparr>refreshErrors :=
                     AList.update (cs_InstanceName cur) ErrNoUpdateAvailable (refreshErrors b)\<rparr>
          \<and> sars b' = sars b
          \<and> map_of (refreshErrors b') (cs_InstanceName cur) = Some ErrNoUpdateAvailable))
    \<and> (infoFromStoreSnap x (res_Snap res) = Inl d \<longrightarrow>
         resultStep x h c t b res = Inl (ErrInvalidResult d))
    \<and> (map_of (curSnaps c) (res_InstanceKey res) = None \<longrightarrow>
         (resultStep x h c t b res = Inl ErrUnexpectedRefresh
          \<or> (\<exists>d. resultStep x h c t b res = Inl (ErrInvalidResult d))))
    \<and> (((\<exists>d. infoFromStoreSnap x (res_Snap res) = Inl d)
          \<or> map_of (curSnaps c) (res_InstanceKey res) = None)
         \<and> contextLoop x (PrivacyKey opts) noContext currentSnaps = Inr c
         \<and> actionLoop x (instanceNameToKey c) h0 noActions actions = (h, Inr t)
         \<and> buildRequest x opts c t = Inr req
         \<and> retryRequestDecodeJSON x (outside w) req = (s1, Inr (resp, results))
         \<and> StatusCode resp = 200
         \<and> res \<in> set (Results results) \<longrightarrow>
         (\<exists>w2 e. snapAction x w h0 currentSnaps actions opts = (w2, h, [], Some (PlainError e))
            \<and> sent w2 = sent w @ [req]
            \<and> (e = ErrUnexpectedRefresh \<or> (\<exists>d. e = ErrInvalidResult d)
                \<or> (\<exists>k. e = ErrUnexpectedInstanceKey k))))"
proof -
  have suppressed: "map_of (curSnaps c) (res_InstanceKey res) = Some cur
       \<and> infoFromStoreSnap x (res_Snap res) = Inr decoded
       \<and> (R (ss_Revision (res_Snap res)) = cs_Revision cur
           \<or> R (ss_Revision (res_Snap res)) \<in> set (cs_Block cur)) \<longrightarrow>
       (\<exists>b'. resultStep x h c t b res = Inr b'
          \<and> b' = b\<lparr>refreshErrors :=
                     AList.update (cs_InstanceName cur) ErrNoUpdateAvailable (refreshErrors b)\<rparr>
          \<and> sars b' = sars b
          \<and> map_of (refreshErrors b') (cs_InstanceName cur) = Some ErrNoUpdateAvailable)"
    using assms
    by (auto simp: resultStep_def successResult_def Let_def findRev_set update_conv')
  have undecoded: "infoFromStoreSnap x (res_Snap res) = Inl d \<Longrightarrow>
         resultStep x h c t b res = Inl (ErrInvalidResult d)" for b d
    using assms by (simp add: resultStep_def successResult_def)
  have step: "map_of (curSnaps c) (res_InstanceKey res) = None \<Longrightarrow>
         resultStep x h c t b res = Inl ErrUnexpectedRefresh
          \<or> (\<exists>d. resultStep x h c t b res = Inl (ErrInvalidResult d))" for b
    using assms by (auto simp: resultStep_def successResult_def Let_def split: sum.splits)
  have whole: "((\<exists>d. infoFromStoreSnap x (res_Snap res) = Inl d)
          \<or> map_of (curSnaps c) (res_InstanceKey res) = None)
         \<and> contextLoop x (PrivacyKey opts) noContext currentSnaps = Inr c
         \<and> actionLoop x (instanceNameToKey c) h0 noActions actions = (h, Inr t)
         \<and> buildRequest x opts c t = Inr req
         \<and> retryRequestDecodeJSON x (outside w) req = (s1, Inr (resp, results))
         \<and> StatusCode resp = 200
         \<and> res \<in> set (Results results) \<longrightarrow>
         (\<exists>w2 e. snapAction x w h0 currentSnaps actions opts = (w2, h, [], Some (PlainError e))
            \<and> sent w2 = sent w @ [req]
            \<and> (e = ErrUnexpectedRefresh \<or> (\<exists>d. e = ErrInvalidResult d)
                \<or> (\<exists>k. e = ErrUnexpectedInstanceKey k)))"
  proof
    assume a: "((\<exists>d. infoFromStoreSnap x (res_Snap res) = Inl d)
          \<or> map_of (curSnaps c) (res_InstanceKey res) = None)
         \<and> contextLoop x (PrivacyKey opts) noContext currentSnaps = Inr c
         \<and> actionLoop x (instanceNameToKey c) h0 noActions actions = (h, Inr t)
         \<and> buildRequest x opts c t = Inr req
         \<and> retryRequestDecodeJSON x (outside w) req = (s1, Inr (resp, results))
         \<and> StatusCode resp = 200
         \<and> res \<in> set (Results results)"
    have "\<forall>b. \<exists>e. resultStep x h c t b res = Inl e"
    proof
      fix b
      from a show "\<exists>e. resultStep x h c t b res = Inl e"
        using undecoded [of _ b] step [of b] by blast
    qed
    with a resultLoop_fails [of res "Results results" x h c t noBuckets] obtain e where
      e: "resultLoop x h c t noBuckets (Results results) = Inl e"
         "e = ErrUnexpectedRefresh \<or> (\<exists>d. e = ErrInvalidResult d)
            \<or> (\<exists>k. e = ErrUnexpectedInstanceKey k)"
      by blast
    let ?w2 = "w\<lparr>sent := sent w @ [req], outside := extractSuggestedCurrency x s1 resp\<rparr>"
    from a have 1: "snapAction x w h0 currentSnaps actions opts
                      = (?w2, h, [], Some (PlainError e))"
      using snapAction_answered [of x opts currentSnaps c h0 actions h t req w s1 resp results]
        e(1)
      by simp
    have 2: "sent ?w2 = sent w @ [req]" by simp
    from 1 2 e(2) show "\<exists>w2 e. snapAction x w h0 currentSnaps actions opts
                            = (w2, h, [], Some (PlainError e))
            \<and> sent w2 = sent w @ [req]
            \<and> (e = ErrUnexpectedRefresh \<or> (\<exists>d. e = ErrInvalidResult d)
                \<or> (\<exists>k. e = ErrUnexpectedInstanceKey k))"
      by (intro exI [of _ ?w2] exI [of _ e] conjI)
  qed
  from suppressed undecoded [of d b] step [of b] whole show ?thesis by blast
qed

text \<open>
  The blocked revision 11 is offered for hello, a refresh arrives for an unknown key, and
  the call answered with a snap that does not decode fails.
\<close>

theorem refresh_without_update_witness:
  "res_Result (result ''refresh'' ''abc'' ''hello'' 11 1 []) = ''refresh''
   \<and> map_of (curSnaps helloContext) (res_InstanceKey (result ''refresh'' ''abc'' ''hello'' 11 1 []))
       = Some (current ''hello'' ''abc'' 10 [R 11])
   \<and> infoFromStoreSnap (scenarioExternals unchanged)
         (res_Snap (result ''refresh'' ''abc'' ''hello'' 11 1 []))
       = Inr \<lparr>info_Channel = [], info_InstanceKey = [], info_rest = 1\<rparr>
   \<and> R (ss_Revision (res_Snap (result ''refresh'' ''abc'' ''hello'' 11 1 [])))
        \<in> set (cs_Block (current ''hello'' ''abc'' 10 [R 11]))
   \<and> resultStep (scenarioExternals unchanged) helloRefresh helloContext helloTables noBuckets
         (result ''refresh'' ''abc'' ''hello'' 11 1 [])
       = Inr (noBuckets\<lparr>refreshErrors := [(''hello'', ErrNoUpdateAvailable)]\<rparr>)
   \<and> map_of (curSnaps helloContext) (res_InstanceKey (result ''refresh'' ''xyz'' ''hello'' 11 1 []))
       = None
   \<and> resultStep (scenarioExternals unchanged) helloRefresh helloContext helloTables noBuckets
         (result ''refresh'' ''xyz'' ''hello'' 11 1 [])
       = Inl ErrUnexpectedRefresh
   \<and> res_Result (result ''refresh'' ''abc'' ''hello'' 10 0 []) = ''refresh''
   \<and> infoFromStoreSnap (scenarioExternals undecodable)
         (res_Snap (result ''refresh'' ''abc'' ''hello'' 10 0 []))
       = Inl (ErrExternal ''cannot decode'')
   \<and> contextLoop (scenarioExternals undecodable) (PrivacyKey salted) noContext helloCurrent
       = Inr helloContext
   \<and> actionLoop (scenarioExternals undecodable) (instanceNameToKey helloContext) helloRefresh
         noActions [0] = (helloRefresh, Inr helloTables)
   \<and> buildRequest (scenarioExternals undecodable) salted helloContext helloTables
       = Inr (projr (buildRequest (scenarioExternals undecodable) salted helloContext
                       helloTables))
   \<and> retryRequestDecodeJSON (scenarioExternals undecodable) (outside startWorld)
         (projr (buildRequest (scenarioExternals undecodable) salted helloContext helloTables))
       = (1, Inr (\<lparr>StatusCode = 200, Header = []\<rparr>,
                  \<lparr>Results = [result ''refresh'' ''abc'' ''hello'' 10 0 []], ErrorList = []\<rparr>))
   \<and> (\<exists>w2 e. snapAction (scenarioExternals undecodable) startWorld helloRefresh helloCurrent
                   [0] salted
                 = (w2, helloRefresh, [], Some (PlainError e)))"
proof -
  let ?x = "scenarioExternals unchanged"
  let ?res = "result ''refresh'' ''abc'' ''hello'' 11 1 []"
  let ?cur = "current ''hello'' ''abc'' 10 [R 11]"
  let ?decoded = "\<lparr>info_Channel = [], info_InstanceKey = [], info_rest = 1\<rparr> :: nat Info"
  have k: "res_Result ?res = ''refresh''" by (simp add: result_def)
  have m: "map_of (curSnaps helloContext) (res_InstanceKey ?res) = Some ?cur" by code_simp
  have i: "infoFromStoreSnap ?x (res_Snap ?res) = Inr ?decoded" by code_simp
  have b: "R (ss_Revision (res_Snap ?res)) \<in> set (cs_Block ?cur)"
    by (simp add: result_def current_def)
  note T = refresh_without_update [OF k, of helloContext ?cur ?x ?decoded helloRefresh helloTables
      noBuckets, THEN conjunct1, THEN mp, OF conjI [OF m conjI [OF i disjI2 [OF b]]]]
  from T have "resultStep ?x helloRefresh helloContext helloTables noBuckets ?res
      = Inr (noBuckets\<lparr>refreshErrors :=
                     AList.update (cs_InstanceName ?cur) ErrNoUpdateAvailable
                        (refreshErrors (noBuckets :: nat resultBuckets))\<rparr>)"
    by blast
  then have s: "resultStep ?x helloRefresh helloContext helloTables noBuckets ?res
       = Inr (noBuckets\<lparr>refreshErrors := [(''hello'', ErrNoUpdateAvailable)]\<rparr>)"
    by (simp add: noBuckets_def current_def)
  have n: "map_of (curSnaps helloContext) (res_InstanceKey (result ''refresh'' ''xyz'' ''hello'' 11 1 []))
       = None" by code_simp
  have u: "resultStep ?x helloRefresh helloContext helloTables noBuckets
         (result ''refresh'' ''xyz'' ''hello'' 11 1 []) = Inl ErrUnexpectedRefresh" by code_simp
  let ?y = "scenarioExternals undecodable"
  let ?bad = "result ''refresh'' ''abc'' ''hello'' 10 0 []"
  let ?bads = "\<lparr>Results = [?bad], ErrorList = []\<rparr> :: nat snapActionResultList"
  let ?req = "projr (buildRequest ?y salted helloContext helloTables)"
  have k': "res_Result ?bad = ''refresh''" by (simp add: result_def)
  have i': "infoFromStoreSnap ?y (res_Snap ?bad) = Inl (ErrExternal ''cannot decode'')"
    by code_simp
  have c': "contextLoop ?y (PrivacyKey salted) noContext helloCurrent = Inr helloContext"
    by code_simp
  have "snd (actionLoop ?y (instanceNameToKey helloContext) helloRefresh noActions [0])
          = Inr helloTables" by code_simp
  moreover have "fst (actionLoop ?y (instanceNameToKey helloContext) helloRefresh noActions [0])
          = helloRefresh"
    by (simp add: actionStep_def helloRefresh_def action_def isValidAction_def clearChannel_def
          Unset_def assignInstanceKey_def Let_def split: sum.splits prod.splits)
  ultimately have a': "actionLoop ?y (instanceNameToKey helloContext) helloRefresh noActions [0]
          = (helloRefresh, Inr helloTables)"
    by (simp add: prod_eq_iff)
  have q': "buildRequest ?y salted helloContext helloTables = Inr ?req" by code_simp
  have r': "retryRequestDecodeJSON ?y (outside startWorld) ?req
       = (1, Inr (\<lparr>StatusCode = 200, Header = []\<rparr>, ?bads))"
    by (simp add: scenarioExternals_def startWorld_def undecodable_def ok_def)
  have sc: "StatusCode \<lparr>StatusCode = 200, Header = []\<rparr> = 200" by simp
  have mem: "?bad \<in> set (Results ?bads)" by simp
  have ex: "(\<exists>d. infoFromStoreSnap ?y (res_Snap ?bad) = Inl d)
          \<or> map_of (curSnaps helloContext) (res_InstanceKey ?bad) = None"
    using i' by blast
  note W = refresh_without_update [OF k', of helloContext _ ?y _ helloRefresh helloTables _ _
      salted helloCurrent helloRefresh "[0]" ?req startWorld 1
      "\<lparr>StatusCode = 200, Header = []\<rparr>" ?bads,
      THEN conjunct2, THEN conjunct2, THEN conjunct2, THEN mp,
      OF conjI [OF ex conjI [OF c' conjI [OF a' conjI [OF q' conjI [OF r' conjI [OF sc mem]]]]]]]
  from W have f: "\<exists>w2 e. snapAction ?y startWorld helloRefresh helloCurrent [0] salted
                 = (w2, helloRefresh, [], Some (PlainError e))"
    by blast
  from k m i b s n u k' i' c' a' q' r' f show ?thesis by (intro conjI)
qed

text \<open>
  The claim as first stated promises \<open>ErrNoUpdateAvailable\<close> whenever the offered revision
  is the current one. Here revision 10 is offered for hello at revision 10, with a snap
  that does not decode: the turn and the whole call end in the error of an invalid result.
\<close>

theorem refresh_undecodable_counterexample:
  "res_Result (result ''refresh'' ''abc'' ''hello'' 10 0 []) = ''refresh''
   \<and> map_of (curSnaps helloContext) (res_InstanceKey (result ''refresh'' ''abc'' ''hello'' 10 0 []))
       = Some (current ''hello'' ''abc'' 10 [R 11])
   \<and> R (ss_Revision (res_Snap (result ''refresh'' ''abc'' ''hello'' 10 0 [])))
       = cs_Revision (current ''hello'' ''abc'' 10 [R 11])
   \<and> resultStep (scenarioExternals undecodable) helloRefresh helloContext helloTables noBuckets
         (result ''refresh'' ''abc'' ''hello'' 10 0 [])
       = Inl (ErrInvalidResult (ErrExternal ''cannot decode''))
   \<and> snd (snd (SnapAction (scenarioExternals undecodable) startWorld helloRefresh helloCurrent [0]
                 (Some salted)))
       = ([], Some (PlainError (ErrInvalidResult (ErrExternal ''cannot decode''))))"
  by code_simp

text \<open>
  Claim C7. A result of kind \<^verbatim>\<open>error\<close> never ends the loop. Its action is looked up by
  instance key among the installs, then the downloads, then the current snaps and the
  refreshes. Found among the installs with a name in the result, its error goes to the
  install errors under the action's instance name; found among the downloads with a name
  in the result, to the download errors under the result's name; found in either with no
  name in the result, to \<open>Other\<close>. Found among the current snaps, it goes to the refresh
  errors of that snap when a refresh has the key, and to \<open>Other\<close>, with the snap named in
  the message, when none has. Found nowhere, it goes to \<open>Other\<close>. After the results, the
  entries of the error list follow in \<open>Other\<close>, in their order, and one entry is enough
  for a \<open>SnapActionError\<close> to be returned.
\<close>

theorem error_results_classified:
  fixes x :: "('w, 'e, 's, 'i) externals"
  assumes "res_Result res = ''error''"
  shows
   "(map_of (installs t) (res_InstanceKey res) = Some a \<and> res_Name res \<noteq> [] \<longrightarrow>
       resultStep x h c t b res =
         Inr (b\<lparr>installErrors := AList.update (sa_InstanceName (h a))
                (translateSnapActionError x ''install'' (sa_Channel (h a)) (res_ErrorCode res)
                   (Verbatim (res_ErrorMessage res)) (res_ErrorReleases res))
                (installErrors b)\<rparr>))
    \<and> (map_of (installs t) (res_InstanceKey res) = None
        \<and> map_of (downloads t) (res_InstanceKey res) = Some a \<and> res_Name res \<noteq> [] \<longrightarrow>
       resultStep x h c t b res =
         Inr (b\<lparr>downloadErrors := AList.update (res_Name res)
                (translateSnapActionError x ''download'' (sa_Channel (h a)) (res_ErrorCode res)
                   (Verbatim (res_ErrorMessage res)) (res_ErrorReleases res))
                (downloadErrors b)\<rparr>))
    \<and> ((map_of (installs t) (res_InstanceKey res) = Some a
         \<or> map_of (installs t) (res_InstanceKey res) = None
            \<and> map_of (downloads t) (res_InstanceKey res) = Some a)
        \<and> res_Name res = [] \<longrightarrow>
       resultStep x h c t b res =
         Inr (b\<lparr>otherErrors := otherErrors b @
                [translateSnapActionError x [] [] (res_ErrorCode res)
                   (Verbatim (res_ErrorMessage res)) []]\<rparr>))
    \<and> (map_of (installs t) (res_InstanceKey res) = None
        \<and> map_of (downloads t) (res_InstanceKey res) = None
        \<and> map_of (curSnaps c) (res_InstanceKey res) = Some cur
        \<and> map_of (refreshes t) (res_InstanceKey res) = Some a \<longrightarrow>
       resultStep x h c t b res =
         Inr (b\<lparr>refreshErrors := AList.update (cs_InstanceName cur)
                (translateSnapActionError x ''refresh''
                   (if sa_Channel (h a) = [] \<and> Unset (sa_Revision (h a))
                    then cs_TrackingChannel cur else sa_Channel (h a))
                   (res_ErrorCode res) (Verbatim (res_ErrorMessage res)) (res_ErrorReleases res))
                (refreshErrors b)\<rparr>))
    \<and> (map_of (installs t) (res_InstanceKey res) = None
        \<and> map_of (downloads t) (res_InstanceKey res) = None
        \<and> map_of (curSnaps c) (res_InstanceKey res) = Some cur
        \<and> map_of (refreshes t) (res_InstanceKey res) = None \<longrightarrow>
       resultStep x h c t b res =
         Inr (b\<lparr>otherErrors := otherErrors b @
                [translateSnapActionError x [] [] (res_ErrorCode res)
                   (ForSnap (cs_InstanceName cur) (res_ErrorMessage res)) []]\<rparr>))
    \<and> (map_of (installs t) (res_InstanceKey res) = None
        \<and> map_of (downloads t) (res_InstanceKey res) = None
        \<and> map_of (curSnaps c) (res_InstanceKey res) = None \<longrightarrow>
       resultStep x h c t b res =
         Inr (b\<lparr>otherErrors := otherErrors b @
                [translateSnapActionError x [] [] (res_ErrorCode res)
                   (Verbatim (res_ErrorMessage res)) []]\<rparr>))
    \<and> (snd (assemble x results b) = Some (ActionError e) \<longrightarrow>
         Other e = otherErrors b @
           map (\<lambda>errObj. translateSnapActionError x [] [] (fst errObj) (Verbatim (snd errObj)) [])
             (ErrorList results))
    \<and> (ErrorList results \<noteq> [] \<longrightarrow> (\<exists>e. snd (assemble x results b) = Some (ActionError e)))"
proof -
  have step: "resultStep x h c t b res = Inr (errorResult x h c t b res)"
    using assms by (simp add: resultStep_def)
  have 1: "map_of (installs t) (res_InstanceKey res) = Some a \<and> res_Name res \<noteq> [] \<longrightarrow>
       resultStep x h c t b res =
         Inr (b\<lparr>installErrors := AList.update (sa_InstanceName (h a))
                (translateSnapActionError x ''install'' (sa_Channel (h a)) (res_ErrorCode res)
                   (Verbatim (res_ErrorMessage res)) (res_ErrorReleases res))
                (installErrors b)\<rparr>)"
    by (simp add: step errorResult_def)
  have 2: "map_of (installs t) (res_InstanceKey res) = None
        \<and> map_of (downloads t) (res_InstanceKey res) = Some a \<and> res_Name res \<noteq> [] \<longrightarrow>
       resultStep x h c t b res =
         Inr (b\<lparr>downloadErrors := AList.update (res_Name res)
                (translateSnapActionError x ''download'' (sa_Channel (h a)) (res_ErrorCode res)
                   (Verbatim (res_ErrorMessage res)) (res_ErrorReleases res))
                (downloadErrors b)\<rparr>)"
    by (simp add: step errorResult_def)
  have 3: "(map_of (installs t) (res_InstanceKey res) = Some a
         \<or> map_of (installs t) (res_InstanceKey res) = None
            \<and> map_of (downloads t) (res_InstanceKey res) = Some a)
        \<and> res_Name res = [] \<longrightarrow>
       resultStep x h c t b res =
         Inr (b\<lparr>otherErrors := otherErrors b @
                [translateSnapActionError x [] [] (res_ErrorCode res)
                   (Verbatim (res_ErrorMessage res)) []]\<rparr>)"
    by (auto simp: step errorResult_def appendOther_def)
  have 4: "map_of (installs t) (res_InstanceKey res) = None
        \<and> map_of (downloads t) (res_InstanceKey res) = None
        \<and> map_of (curSnaps c) (res_InstanceKey res) = Some cur
        \<and> map_of (refreshes t) (res_InstanceKey res) = Some a \<longrightarrow>
       resultStep x h c t b res =
         Inr (b\<lparr>refreshErrors := AList.update (cs_InstanceName cur)
                (translateSnapActionError x ''refresh''
                   (if sa_Channel (h a) = [] \<and> Unset (sa_Revision (h a))
                    then cs_TrackingChannel cur else sa_Channel (h a))
                   (res_ErrorCode res) (Verbatim (res_ErrorMessage res)) (res_ErrorReleases res))
                (refreshErrors b)\<rparr>)"
    by (simp add: step errorResult_def Let_def)
  have 5: "map_of (installs t) (res_InstanceKey res) = None
        \<and> map_of (downloads t) (res_InstanceKey res) = None
        \<and> map_of (curSnaps c) (res_InstanceKey res) = Some cur
        \<and> map_of (refreshes t) (res_InstanceKey res) = None \<longrightarrow>
       resultStep x h c t b res =
         Inr (b\<lparr>otherErrors := otherErrors b @
                [translateSnapActionError x [] [] (res_ErrorCode res)
                   (ForSnap (cs_InstanceName cur) (res_ErrorMessage res)) []]\<rparr>)"
    by (simp add: step errorResult_def)
  have 6: "map_of (installs t) (res_InstanceKey res) = None
        \<and> map_of (downloads t) (res_InstanceKey res) = None
        \<and> map_of (curSnaps c) (res_InstanceKey res) = None \<longrightarrow>
       resultStep x h c t b res =
         Inr (b\<lparr>otherErrors := otherErrors b @
                [translateSnapActionError x [] [] (res_ErrorCode res)
                   (Verbatim (res_ErrorMessage res)) []]\<rparr>)"
    by (simp add: step errorResult_def appendOther_def)
  have 7: "snd (assemble x results b) = Some (ActionError e) \<longrightarrow>
         Other e = otherErrors b @
           map (\<lambda>errObj. translateSnapActionError x [] [] (fst errObj) (Verbatim (snd errObj)) [])
             (ErrorList results)"
    by (auto simp: assemble_def Let_def errorListErrors_def split: if_splits)
  have 8: "ErrorList results \<noteq> [] \<longrightarrow> (\<exists>e. snd (assemble x results b) = Some (ActionError e))"
    by (simp add: assemble_def Let_def errorListErrors_def)
  from 1 2 3 4 5 6 7 8 show ?thesis by (intro conjI)
qed

text \<open>
  Errors for an install with and without a name, for a download, for a current snap with
  no refresh, and for an unknown key; and a call whose error list has an entry.
\<close>

theorem error_results_classified_witness:
  "res_Result (result ''error'' ''install-1'' ''hello'' 0 0 ''snap-not-found'') = ''error''
   \<and> map_of (installs mixedTables)
        (res_InstanceKey (result ''error'' ''install-1'' ''hello'' 0 0 ''snap-not-found'')) = Some 0
   \<and> res_Name (result ''error'' ''install-1'' ''hello'' 0 0 ''snap-not-found'') \<noteq> []
   \<and> resultStep (scenarioExternals silent) mixedActions helloContext mixedTables noBuckets
        (result ''error'' ''install-1'' ''hello'' 0 0 ''snap-not-found'')
       = Inr (noBuckets\<lparr>installErrors :=
                [(''hello_dev'', ErrExternal ''install/edge/snap-not-found'')]\<rparr>)
   \<and> resultStep (scenarioExternals silent) mixedActions helloContext mixedTables noBuckets
        (result ''error'' ''install-1'' [] 0 0 ''snap-not-found'')
       = Inr (noBuckets\<lparr>otherErrors := [ErrExternal ''//snap-not-found'']\<rparr>)
   \<and> resultStep (scenarioExternals silent) mixedActions helloContext mixedTables noBuckets
        (result ''error'' ''download-1'' ''earth'' 0 0 ''snap-not-found'')
       = Inr (noBuckets\<lparr>downloadErrors :=
                [(''earth'', ErrExternal ''download/beta/snap-not-found'')]\<rparr>)
   \<and> resultStep (scenarioExternals silent) mixedActions helloContext mixedTables noBuckets
        (result ''error'' ''abc'' ''hello'' 0 0 ''snap-not-found'')
       = Inr (noBuckets\<lparr>otherErrors := [ErrExternal ''//snap-not-found'']\<rparr>)
   \<and> resultStep (scenarioExternals silent) mixedActions helloContext mixedTables noBuckets
        (result ''error'' ''nokey'' ''hello'' 0 0 ''snap-not-found'')
       = Inr (noBuckets\<lparr>otherErrors := [ErrExternal ''//snap-not-found'']\<rparr>)
   \<and> snd (snd (snd (SnapAction (scenarioExternals alwaysExpired) startWorld pinnedInstall [] [0]
         None)))
       = Some (ActionError \<lparr>NoResults = False, Refresh = None, Install = None, Download = None,
           Other = [errUserAuthorizationNeedsRefresh, errDeviceAuthorizationNeedsRefresh]\<rparr>)"
proof -
  let ?x = "scenarioExternals silent"
  let ?res = "result ''error'' ''install-1'' ''hello'' 0 0 ''snap-not-found''"
  have k: "res_Result ?res = ''error''" by (simp add: result_def)
  have m: "map_of (installs mixedTables) (res_InstanceKey ?res) = Some 0" by code_simp
  have n: "res_Name ?res \<noteq> []" by (simp add: result_def)
  note T = error_results_classified [OF k, of mixedTables 0 ?x mixedActions helloContext
      "noBuckets :: nat resultBuckets", THEN conjunct1, THEN mp, OF conjI [OF m n]]
  have v: "AList.update (sa_InstanceName (mixedActions 0))
                (translateSnapActionError ?x ''install'' (sa_Channel (mixedActions 0))
                   (res_ErrorCode ?res) (Verbatim (res_ErrorMessage ?res)) (res_ErrorReleases ?res))
                (installErrors (noBuckets :: nat resultBuckets))
       = [(''hello_dev'', ErrExternal ''install/edge/snap-not-found'')]"
    by code_simp
  have 1: "resultStep ?x mixedActions helloContext mixedTables noBuckets ?res
       = Inr (noBuckets\<lparr>installErrors :=
                [(''hello_dev'', ErrExternal ''install/edge/snap-not-found'')]\<rparr>)"
    using T unfolding v .
  have 2: "resultStep ?x mixedActions helloContext mixedTables noBuckets
        (result ''error'' ''install-1'' [] 0 0 ''snap-not-found'')
       = Inr (noBuckets\<lparr>otherErrors := [ErrExternal ''//snap-not-found'']\<rparr>)"
    "resultStep ?x mixedActions helloContext mixedTables noBuckets
        (result ''error'' ''download-1'' ''earth'' 0 0 ''snap-not-found'')
       = Inr (noBuckets\<lparr>downloadErrors :=
                [(''earth'', ErrExternal ''download/beta/snap-not-found'')]\<rparr>)"
    "resultStep ?x mixedActions helloContext mixedTables noBuckets
        (result ''error'' ''abc'' ''hello'' 0 0 ''snap-not-found'')
       = Inr (noBuckets\<lparr>otherErrors := [ErrExternal ''//snap-not-found'']\<rparr>)"
    "resultStep ?x mixedActions helloContext mixedTables noBuckets
        (result ''error'' ''nokey'' ''hello'' 0 0 ''snap-not-found'')
       = Inr (noBuckets\<lparr>otherErrors := [ErrExternal ''//snap-not-found'']\<rparr>)"
    by code_simp+
  have 3: "snd (snd (snd (SnapAction (scenarioExternals alwaysExpired) startWorld pinnedInstall [] [0]
         None)))
       = Some (ActionError \<lparr>NoResults = False, Refresh = None, Install = None, Download = None,
           Other = [errUserAuthorizationNeedsRefresh, errDeviceAuthorizationNeedsRefresh]\<rparr>)"
    by code_simp
  from k m n 1 2 3 show ?thesis by (intro conjI)
qed

end
